(* ===== verification/FMU_Prelude.thy ===== *)
theory FMU_Prelude
  imports Complex_Main "HOL-Library.Word"
begin

text \<open>
  Prelude of the development: the machine integer types of the C++ code, the collections
  of facts that the component theories share, and generic lemmas on runs of readings
  (the debounce counters), on lists filtered by a queue discipline and on unsigned
  clock arithmetic.
\<close>

section \<open>Machine integers\<close>

type_synonym u8 = "8 word"
type_synonym u16 = "16 word"
type_synonym u32 = "32 word"
type_synonym u64 = "64 word"
type_synonym i8 = "8 word"
type_synonym i16 = "16 word"
type_synonym i32 = "32 word"

text \<open>
  The signed types share the word type of their width: a value is read with \<open>sint\<close>
  where the code uses it as a signed number.
\<close>

section \<open>Collections of facts\<close>

named_theorems fmu_defs \<open>definitions unfolded by the component proofs\<close>
named_theorems step_simps \<open>effect of one operation on the fields of a state\<close>
named_theorems inv_intros \<open>preservation of an invariant by one operation\<close>

section \<open>Runs of equal readings\<close>

text \<open>Length of the run of \<open>True\<close> at the end of a list of readings.\<close>

definition trailing_run :: "bool list \<Rightarrow> nat" where
  "trailing_run xs = length (takeWhile (\<lambda>b. b) (rev xs))"

text \<open>Some \<open>n\<close> consecutive readings of the list are all \<open>b\<close>.\<close>

definition has_run :: "nat \<Rightarrow> bool \<Rightarrow> bool list \<Rightarrow> bool" where
  "has_run n b xs \<longleftrightarrow> (\<exists>pre post. xs = pre @ replicate n b @ post)"

lemma trailing_run_Nil [simp]: "trailing_run [] = 0"
  by (simp add: trailing_run_def)

lemma trailing_run_snoc [simp]:
  "trailing_run (xs @ [b]) = (if b then Suc (trailing_run xs) else 0)"
  by (simp add: trailing_run_def)

lemma trailing_run_le: "trailing_run xs \<le> length xs"
  by (metis trailing_run_def length_rev length_takeWhile_le)

lemma trailing_run_ge_iff:
  "n \<le> trailing_run xs \<longleftrightarrow> (\<exists>pre. xs = pre @ replicate n True)"
proof (induction xs arbitrary: n rule: rev_induct)
  case Nil
  then show ?case by auto
next
  case (snoc x xs)
  show ?case
  proof (cases n)
    case 0
    then show ?thesis by simp
  next
    case (Suc m)
    have "(\<exists>pre. xs @ [x] = pre @ replicate (Suc m) True) \<longleftrightarrow>
        x \<and> (\<exists>pre. xs = pre @ replicate m True)"
      by (simp add: replicate_append_same [symmetric] flip: append_assoc) auto
    then show ?thesis using snoc.IH [of m] Suc by auto
  qed
qed

lemma has_run_Nil [simp]: "has_run n b [] \<longleftrightarrow> n = 0"
  by (auto simp: has_run_def)

lemma has_run_0 [simp]: "has_run 0 b xs"
  by (auto simp: has_run_def)

lemma has_run_snoc:
  "has_run n b (xs @ [x]) \<longleftrightarrow>
     has_run n b xs \<or> (\<exists>pre. xs @ [x] = pre @ replicate n b)"
proof
  assume "has_run n b (xs @ [x])"
  then obtain pre post where eq: "xs @ [x] = pre @ replicate n b @ post"
    by (auto simp: has_run_def)
  show "has_run n b xs \<or> (\<exists>pre. xs @ [x] = pre @ replicate n b)"
  proof (cases post rule: rev_cases)
    case Nil
    then show ?thesis using eq by auto
  next
    case (snoc ys y)
    then have "xs = pre @ replicate n b @ ys" using eq by simp
    then show ?thesis by (auto simp: has_run_def)
  qed
next
  assume "has_run n b xs \<or> (\<exists>pre. xs @ [x] = pre @ replicate n b)"
  then show "has_run n b (xs @ [x])"
  proof
    assume "has_run n b xs"
    then obtain pre post where "xs = pre @ replicate n b @ post"
      by (auto simp: has_run_def)
    then have "xs @ [x] = pre @ replicate n b @ (post @ [x])" by simp
    then show ?thesis unfolding has_run_def by blast
  next
    assume "\<exists>pre. xs @ [x] = pre @ replicate n b"
    then obtain pre where "xs @ [x] = pre @ replicate n b @ []" by auto
    then show ?thesis unfolding has_run_def by blast
  qed
qed

lemma has_run_snoc_True:
  "has_run n True (xs @ [x]) \<longleftrightarrow> has_run n True xs \<or> n \<le> trailing_run (xs @ [x])"
  by (subst trailing_run_ge_iff) (rule has_run_snoc)

lemma has_run_append_left: "has_run n b xs \<Longrightarrow> has_run n b (xs @ ys)"
  by (auto simp: has_run_def) (metis append.assoc)

lemma has_run_map_Not: "has_run n b (map Not xs) \<longleftrightarrow> has_run n (\<not> b) xs"
proof -
  have *: "has_run n (\<not> c) (map Not ys)" if "has_run n c ys" for c and ys :: "bool list"
  proof -
    from that obtain pre post where "ys = pre @ replicate n c @ post"
      by (auto simp: has_run_def)
    then have "map Not ys = map Not pre @ replicate n (\<not> c) @ map Not post"
      by simp
    then show ?thesis unfolding has_run_def by blast
  qed
  have inv: "map Not (map Not xs) = xs" by (simp add: map_idI)
  show ?thesis using * [of b "map Not xs"] * [of "\<not> b" xs] inv by auto
qed

section \<open>Debounced latches\<close>

text \<open>The readings that a history of inputs holds, oldest first.\<close>

definition readings :: "('i \<Rightarrow> bool option) \<Rightarrow> 'i list \<Rightarrow> bool list" where
  "readings f xs = List.map_filter f xs"

lemma readings_Nil [simp]: "readings f [] = []"
  by (simp add: readings_def List.map_filter_def)

lemma readings_snoc [simp]:
  "readings f (xs @ [x]) = readings f xs @ (case f x of None \<Rightarrow> [] | Some b \<Rightarrow> [b])"
  by (auto simp: readings_def List.map_filter_def split: option.splits)

lemma readings_Not: "readings (\<lambda>x. map_option Not (f x)) xs = map Not (readings f xs)"
  by (induction xs rule: rev_induct) (auto split: option.splits)

text \<open>
  A latch with symmetric hysteresis is engaged when a run of \<open>n\<close> readings engaged it and no
  run of \<open>n\<close> opposite readings came after.
\<close>

definition engaged :: "nat \<Rightarrow> bool list \<Rightarrow> bool" where
  "engaged n xs \<longleftrightarrow> (\<exists>pre post. xs = pre @ replicate n True @ post \<and> \<not> has_run n False post)"

lemma engaged_Nil [simp]: "1 \<le> n \<Longrightarrow> \<not> engaged n []"
  by (auto simp: engaged_def)

lemma trailing_False_iff:
  "n \<le> trailing_run (map Not xs) \<longleftrightarrow> (\<exists>pre. xs = pre @ replicate n False)"
proof
  assume "n \<le> trailing_run (map Not xs)"
  then obtain pre where "map Not xs = pre @ replicate n True" unfolding trailing_run_ge_iff by blast
  then have "map Not (map Not xs) = map Not pre @ replicate n False" by simp
  then show "\<exists>pre. xs = pre @ replicate n False" by (auto simp: map_idI)
next
  assume "\<exists>pre. xs = pre @ replicate n False"
  then show "n \<le> trailing_run (map Not xs)" unfolding trailing_run_ge_iff by auto
qed

lemma opposite_run_released:
  assumes n: "1 \<le> n" and eq: "pre @ replicate n True @ post = pre' @ replicate n False"
  shows "has_run n False post"
proof -
  from eq consider (post) us where "post = us @ replicate n False"
    | (split) us where "pre @ replicate n True = pre' @ us" "us @ post = replicate n False"
    by (auto simp: append_eq_append_conv2 simp flip: append_assoc)
  then show ?thesis
  proof cases
    case post
    then have "post = us @ replicate n False @ []" by simp
    then show ?thesis unfolding has_run_def by blast
  next
    case split
    show ?thesis
    proof (cases us rule: rev_cases)
      case Nil
      then show ?thesis using split(2) unfolding has_run_def by (metis append.left_neutral append_Nil2)
    next
      case (snoc vs v)
      have "last (pre @ replicate n True)" using n by (simp add: last_replicate)
      then have "v" using split(1) snoc by simp
      moreover have "v \<in> set (replicate n False)" using split(2) [symmetric] snoc by simp
      ultimately show ?thesis by simp
    qed
  qed
qed

lemma engaged_snoc:
  assumes n: "1 \<le> n"
  shows "engaged n (xs @ [x]) \<longleftrightarrow>
    (if n \<le> trailing_run (xs @ [x]) then True
     else if n \<le> trailing_run (map Not (xs @ [x])) then False else engaged n xs)"
proof -
  consider (up) "n \<le> trailing_run (xs @ [x])"
    | (down) "\<not> n \<le> trailing_run (xs @ [x])" "n \<le> trailing_run (map Not (xs @ [x]))"
    | (same) "\<not> n \<le> trailing_run (xs @ [x])" "\<not> n \<le> trailing_run (map Not (xs @ [x]))"
    by blast
  then show ?thesis
  proof cases
    case up
    then obtain pre where "xs @ [x] = pre @ replicate n True @ []"
      unfolding trailing_run_ge_iff by auto
    moreover have "\<not> has_run n False []" using n by simp
    ultimately have "engaged n (xs @ [x])" unfolding engaged_def by blast
    then show ?thesis using up by simp
  next
    case down
    then obtain pre' where "xs @ [x] = pre' @ replicate n False" unfolding trailing_False_iff by blast
    then have "\<not> engaged n (xs @ [x])" using opposite_run_released [OF n] unfolding engaged_def by metis
    then show ?thesis using down by simp
  next
    case same
    have "engaged n (xs @ [x]) \<longleftrightarrow> engaged n xs"
    proof
      assume "engaged n (xs @ [x])"
      then obtain pre post where e: "xs @ [x] = pre @ replicate n True @ post" "\<not> has_run n False post"
        unfolding engaged_def by blast
      then show "engaged n xs"
      proof (cases post rule: rev_cases)
        case Nil
        then show ?thesis using e(1) same(1) unfolding trailing_run_ge_iff by auto
      next
        case (snoc ys y)
        then have "xs = pre @ replicate n True @ ys" "\<not> has_run n False ys"
          using e has_run_append_left [of n False ys "[y]"] by auto
        then show ?thesis unfolding engaged_def by blast
      qed
    next
      assume "engaged n xs"
      then obtain pre post where e: "xs = pre @ replicate n True @ post" "\<not> has_run n False post"
        unfolding engaged_def by blast
      have "\<not> has_run n False (post @ [x])"
      proof
        assume "has_run n False (post @ [x])"
        then obtain q where "post @ [x] = q @ replicate n False" using e(2) unfolding has_run_snoc by blast
        then have "xs @ [x] = (pre @ replicate n True @ q) @ replicate n False" using e(1) by simp
        then show False using same(2) unfolding trailing_False_iff by blast
      qed
      moreover have "xs @ [x] = pre @ replicate n True @ (post @ [x])" using e(1) by simp
      ultimately show "engaged n (xs @ [x])" unfolding engaged_def by blast
    qed
    then show ?thesis using same by simp
  qed
qed

text \<open>
  A saturating counter of consecutive readings. The contract names the step of the machine
  that owns it, so that one instance covers every operation of that machine.
\<close>

locale debounce_counter =
  fixes step :: "'i \<Rightarrow> 's \<Rightarrow> 's" and reading :: "'i \<Rightarrow> bool option"
    and count :: "'s \<Rightarrow> int" and limit :: int and config :: "'s \<Rightarrow> bool"
  assumes config_step: "config s \<Longrightarrow> config (step i s)"
    and count_hit: "config s \<Longrightarrow> reading i = Some True \<Longrightarrow>
      count (step i s) = (if count s < limit then count s + 1 else count s)"
    and count_miss: "config s \<Longrightarrow> reading i = Some False \<Longrightarrow> count (step i s) = 0"
    and count_idle: "config s \<Longrightarrow> reading i = None \<Longrightarrow> count (step i s) = count s"
begin

lemma config_fold: "config s \<Longrightarrow> config (fold step xs s)"
  by (induction xs rule: rev_induct) (simp_all add: config_step)

lemma count_fold:
  assumes "config s" and "count s = 0" and "0 \<le> limit"
  shows "count (fold step xs s) = min limit (int (trailing_run (readings reading xs)))"
proof (induction xs rule: rev_induct)
  case Nil
  then show ?case using assms by simp
next
  case (snoc x xs)
  have c: "config (fold step xs s)" by (rule config_fold [OF assms(1)])
  show ?case
  proof (cases "reading x")
    case None
    then show ?thesis using snoc count_idle [OF c None] by simp
  next
    case (Some b)
    then show ?thesis using snoc assms(3) count_hit [OF c] count_miss [OF c] by (cases b) auto
  qed
qed

lemma count_bounds:
  assumes "config s" and "count s = 0" and "0 \<le> limit"
  shows "0 \<le> count (fold step xs s) \<and> count (fold step xs s) \<le> limit"
  using assms by (simp add: count_fold)

end

locale latching_debounce = debounce_counter +
  fixes latch :: "'b \<Rightarrow> bool"
  assumes latch_step: "config s \<Longrightarrow>
    latch (step i s) \<longleftrightarrow> latch s \<or> (reading i = Some True \<and> limit \<le> count (step i s))"
begin

lemma latch_fold:
  assumes "config s" and "count s = 0" and "1 \<le> limit" and "\<not> latch s"
  shows "latch (fold step xs s) \<longleftrightarrow> has_run (nat limit) True (readings reading xs)"
proof (induction xs rule: rev_induct)
  case Nil
  then show ?case using assms by simp
next
  case (snoc x xs)
  have c: "config (fold step xs s)" by (rule config_fold [OF assms(1)])
  have "0 \<le> limit" using assms(3) by simp
  note cnt = count_fold [OF assms(1,2) this, of "xs @ [x]"]
  show ?case
  proof (cases "reading x")
    case None
    then show ?thesis using snoc latch_step [OF c, of x] by simp
  next
    case (Some b)
    then show ?thesis
      using snoc latch_step [OF c, of x] cnt assms(3) by (cases b) (auto simp: has_run_snoc_True)
  qed
qed

end

text \<open>A latch that a run of readings engages and a run of opposite readings releases.\<close>

locale hysteresis =
  up: debounce_counter step reading count_up limit config +
  down: debounce_counter step "\<lambda>i. map_option Not (reading i)" count_down limit config
  for step :: "'i \<Rightarrow> 's \<Rightarrow> 's" and reading count_up count_down limit config +
  fixes latch :: "'s \<Rightarrow> bool"
  assumes latch_step: "config s \<Longrightarrow>
    latch (step i s) \<longleftrightarrow>
      (if reading i = Some True \<and> limit \<le> count_up (step i s) then True
       else if reading i = Some False \<and> limit \<le> count_down (step i s) then False
       else latch s)"
begin

lemma latch_fold:
  assumes "config s" and "count_up s = 0" and "count_down s = 0" and "1 \<le> limit" and "\<not> latch s"
  shows "latch (fold step xs s) \<longleftrightarrow> engaged (nat limit) (readings reading xs)"
proof (induction xs rule: rev_induct)
  case Nil
  then show ?case using assms by simp
next
  case (snoc x xs)
  have c: "config (fold step xs s)" by (rule up.config_fold [OF assms(1)])
  have l: "0 \<le> limit" "1 \<le> nat limit" using assms(4) by simp_all
  note cu = up.count_fold [OF assms(1,2) l(1), of "xs @ [x]"]
  note cd = down.count_fold [OF assms(1,3) l(1), of "xs @ [x]", unfolded readings_Not]
  show ?case
  proof (cases "reading x")
    case None
    then show ?thesis using snoc latch_step [OF c, of x] by simp
  next
    case (Some b)
    then show ?thesis
      using snoc latch_step [OF c, of x] cu cd assms(4) l(2) by (cases b) (auto simp: engaged_snoc)
  qed
qed

end

section \<open>Rate limits\<close>

text \<open>
  An operation that fires at most once per interval, and forgets the time it last fired only
  when the interval has passed. The laws speak of a clock that does not run backwards.
\<close>

locale throttle =
  fixes step :: "'i \<Rightarrow> 's \<Rightarrow> 's" and time :: "'i \<Rightarrow> int" and fires :: "'i \<Rightarrow> 's \<Rightarrow> bool"
    and last_fired :: "'s \<Rightarrow> int option" and interval :: int
  assumes fire_last: "fires i s \<Longrightarrow> last_fired (step i s) = Some (time i)"
    and fire_gap: "fires i s \<Longrightarrow> last_fired s = Some t \<Longrightarrow> t \<le> time i \<Longrightarrow> t + interval \<le> time i"
    and idle: "\<not> fires i s \<Longrightarrow> last_fired s = Some t \<Longrightarrow> t \<le> time i \<Longrightarrow>
      last_fired (step i s) = Some t \<or> last_fired (step i s) = None \<and> t + interval \<le> time i"
    and idle_none: "\<not> fires i s \<Longrightarrow> last_fired s = None \<Longrightarrow> last_fired (step i s) = None"
begin

fun fire_times :: "'s \<Rightarrow> 'i list \<Rightarrow> int list" where
  "fire_times s [] = []"
| "fire_times s (i # is) = (if fires i s then [time i] else []) @ fire_times (step i s) is"

lemma fire_times_subset: "set (fire_times s is) \<subseteq> time ` set is"
  by (induction "is" arbitrary: s) auto

lemma fire_times_after:
  assumes "sorted (map time is)" and "\<And>t i. last_fired s = Some t \<Longrightarrow> i \<in> set is \<Longrightarrow> t \<le> time i"
  shows "sorted_wrt (\<lambda>a b. a + interval \<le> b) (fire_times s is) \<and>
    (\<forall>t. last_fired s = Some t \<longrightarrow> (\<forall>x \<in> set (fire_times s is). t + interval \<le> x))"
  using assms
proof (induction "is" arbitrary: s)
  case (Cons i "is")
  have bound: "t \<le> time j" if "last_fired (step i s) = Some t" "j \<in> set is" for t j
  proof (cases "fires i s")
    case True
    then show ?thesis using fire_last that Cons.prems(1) by auto
  next
    case False
    then show ?thesis
      using idle [OF False] idle_none [OF False] that Cons.prems(2) [of _ i] Cons.prems(2) [of _ j]
      by (cases "last_fired s") auto
  qed
  have "sorted (map time is)" using Cons.prems(1) by simp
  note IH_both = Cons.IH [OF this, of "step i s"]
  have IH: "sorted_wrt (\<lambda>a b. a + interval \<le> b) (fire_times (step i s) is)"
    "\<And>t x. last_fired (step i s) = Some t \<Longrightarrow> x \<in> set (fire_times (step i s) is) \<Longrightarrow> t + interval \<le> x"
    using IH_both bound by blast+
  have later: "time i \<le> x" if "x \<in> set (fire_times (step i s) is)" for x
    using that fire_times_subset [of "step i s" "is"] Cons.prems(1) by auto
  show ?case
  proof (cases "fires i s")
    case True
    then show ?thesis
      using IH fire_last [OF True] fire_gap [OF True] later Cons.prems(2) by (force intro: order_trans)
  next
    case False
    then show ?thesis using IH idle [OF False] later Cons.prems(2) by (force intro: order_trans)
  qed
qed simp

lemma spaced:
  "sorted (map time is) \<Longrightarrow> (\<And>t i. last_fired s = Some t \<Longrightarrow> i \<in> set is \<Longrightarrow> t \<le> time i) \<Longrightarrow>
    sorted_wrt (\<lambda>a b. a + interval \<le> b) (fire_times s is)"
  using fire_times_after by blast

end

section \<open>Unsigned clocks\<close>

text \<open>
  \<open>uint64_t\<close> differences wrap. When the later stamp is not before the earlier one, the
  difference is the elapsed time.
\<close>

lemma unat_sub_clock: "(a :: u64) \<le> b \<Longrightarrow> unat (b - a) = unat b - unat a"
  by (simp add: unat_sub)

lemma clock_diff_mono:
  assumes "(t :: u64) \<le> a" and "a \<le> b" and "c \<le> a - t"
  shows "c \<le> b - t"
proof -
  have "t \<le> b" using assms by simp
  then show ?thesis using assms by (simp add: word_le_nat_alt unat_sub)
qed

section \<open>Lists as sets of keys\<close>

lemma filter_filter_not: "filter (\<lambda>x. \<not> P x) (filter P xs) = []"
  by (simp add: filter_empty_conv)

lemma mset_count_filter: "length (filter P (xs @ ys)) = length (filter P xs) + length (filter P ys)"
  by simp

end
