(* ===== verification/Binary64.thy ===== *)
theory Binary64
  imports FMU_Prelude "HOL-Library.Log_Nat"
begin

text \<open>
  The C++ type \<open>double\<close> (IEEE 754 binary64, round to nearest, ties to even), as far as the
  program uses it: literals, comparison, multiplication, division, subtraction, absolute
  value, \<open>std::isfinite\<close>, \<open>std::lround\<close> and the truncating conversion to an
  integer type. A finite value is a rational; an operation computes the exact result and
  rounds it (\<open>rnd\<close>). The two zeros are one value here: the program never divides by a
  computed value, so no operation it performs tells them apart.

  A conversion whose result the target type cannot hold is undefined behaviour in C++
  (unspecified for \<open>std::lround\<close>), and is \<open>None\<close> here.
\<close>

section \<open>Values\<close>

datatype dbl = NaN | PInf | NInf | Fin rat

fun isfinite :: "dbl \<Rightarrow> bool" where
  "isfinite (Fin _) = True"
| "isfinite _ = False"

text \<open>Comparisons: every comparison with a NaN is false.\<close>

fun dlt :: "dbl \<Rightarrow> dbl \<Rightarrow> bool" where
  "dlt NaN _ = False"
| "dlt _ NaN = False"
| "dlt NInf y = (y \<noteq> NInf)"
| "dlt PInf _ = False"
| "dlt (Fin _) NInf = False"
| "dlt (Fin _) PInf = True"
| "dlt (Fin x) (Fin y) = (x < y)"

fun deq :: "dbl \<Rightarrow> dbl \<Rightarrow> bool" where
  "deq NaN _ = False"
| "deq x y = (x = y)"

definition dle :: "dbl \<Rightarrow> dbl \<Rightarrow> bool" where
  "dle x y \<longleftrightarrow> dlt x y \<or> deq x y"

definition dgt :: "dbl \<Rightarrow> dbl \<Rightarrow> bool" where
  "dgt x y \<longleftrightarrow> dlt y x"

definition dge :: "dbl \<Rightarrow> dbl \<Rightarrow> bool" where
  "dge x y \<longleftrightarrow> dle y x"

lemma dbl_compare_simps [simp]:
  "dle (Fin x) (Fin y) \<longleftrightarrow> x \<le> y"
  "dgt (Fin x) (Fin y) \<longleftrightarrow> x > y"
  "dge (Fin x) (Fin y) \<longleftrightarrow> x \<ge> y"
  "deq (Fin x) (Fin y) \<longleftrightarrow> x = y"
  by (auto simp: dle_def dgt_def dge_def)

lemma isfinite_iff: "isfinite d \<longleftrightarrow> (\<exists>x. d = Fin x)"
  by (cases d) auto

section \<open>Rounding\<close>

definition pow2 :: "int \<Rightarrow> rat" where
  "pow2 e = (if 0 \<le> e then 2 ^ nat e else 1 / 2 ^ nat (- e))"

text \<open>Round to the nearest integer, ties to the even one.\<close>

definition round_half_even :: "rat \<Rightarrow> int" where
  "round_half_even x =
     (let f = \<lfloor>x\<rfloor>; d = x - of_int f
      in if d < 1/2 then f else if 1/2 < d then f + 1 else if even f then f else f + 1)"

text \<open>
  Exponent of the unit in the last place of the binade of \<open>x\<close>: 53 significant bits, and
  not below the exponent \<open>-1074\<close> of the subnormal numbers.
\<close>

definition ulp_exp :: "rat \<Rightarrow> int" where
  "ulp_exp x =
     (let (a, b) = quotient_of \<bar>x\<bar>;
          e0 = bitlen a - bitlen b - 53;
          e = (if \<bar>x\<bar> < pow2 (53 + e0) then e0 else e0 + 1)
      in max (-1074) e)"

definition rnd :: "rat \<Rightarrow> dbl" where
  "rnd x =
     (let e = ulp_exp x; r = of_int (round_half_even (x / pow2 e)) * pow2 e
      in if pow2 1024 \<le> r then PInf else if r \<le> - pow2 1024 then NInf else Fin r)"

section \<open>Operations\<close>

fun dneg :: "dbl \<Rightarrow> dbl" where
  "dneg NaN = NaN"
| "dneg PInf = NInf"
| "dneg NInf = PInf"
| "dneg (Fin x) = Fin (- x)"

fun dabs :: "dbl \<Rightarrow> dbl" where
  "dabs NaN = NaN"
| "dabs PInf = PInf"
| "dabs NInf = PInf"
| "dabs (Fin x) = Fin \<bar>x\<bar>"

fun dsub :: "dbl \<Rightarrow> dbl \<Rightarrow> dbl" where
  "dsub NaN _ = NaN"
| "dsub _ NaN = NaN"
| "dsub PInf y = (if y = PInf then NaN else PInf)"
| "dsub NInf y = (if y = NInf then NaN else NInf)"
| "dsub (Fin _) PInf = NInf"
| "dsub (Fin _) NInf = PInf"
| "dsub (Fin x) (Fin y) = rnd (x - y)"

text \<open>
  Multiplication and division by a finite nonzero constant, the only products and
  quotients of the program with a constant operand.
\<close>

fun dmul_lit :: "dbl \<Rightarrow> rat \<Rightarrow> dbl" where
  "dmul_lit NaN _ = NaN"
| "dmul_lit PInf c = (if 0 < c then PInf else NInf)"
| "dmul_lit NInf c = (if 0 < c then NInf else PInf)"
| "dmul_lit (Fin x) c = rnd (x * c)"

fun ddiv_lit :: "dbl \<Rightarrow> rat \<Rightarrow> dbl" where
  "ddiv_lit NaN _ = NaN"
| "ddiv_lit PInf c = (if 0 < c then PInf else NInf)"
| "ddiv_lit NInf c = (if 0 < c then NInf else PInf)"
| "ddiv_lit (Fin x) c = rnd (x / c)"

text \<open>The value of a decimal literal: the double nearest to it.\<close>

definition lit :: "rat \<Rightarrow> rat" where
  "lit q = (case rnd q of Fin r \<Rightarrow> r | _ \<Rightarrow> 0)"

text \<open>Rounding to nearest, ties away from zero, as \<open>std::lround\<close> does.\<close>

definition round_away :: "rat \<Rightarrow> int" where
  "round_away x = (if 0 \<le> x then \<lfloor>x + 1/2\<rfloor> else - \<lfloor>1/2 - x\<rfloor>)"

definition trunc_int :: "rat \<Rightarrow> int" where
  "trunc_int x = (if 0 \<le> x then \<lfloor>x\<rfloor> else - \<lfloor>- x\<rfloor>)"

definition in_range :: "int \<Rightarrow> int \<Rightarrow> int \<Rightarrow> int option" where
  "in_range lo hi z = (if lo \<le> z \<and> z \<le> hi then Some z else None)"

text \<open>\<open>std::lround\<close> returns a 64-bit \<open>long\<close>.\<close>

fun lround :: "dbl \<Rightarrow> int option" where
  "lround (Fin x) = in_range (- (2 ^ 63)) (2 ^ 63 - 1) (round_away x)"
| "lround _ = None"

text \<open>\<open>static_cast\<close> from a double to an integer type with the given range.\<close>

fun cast_int :: "int \<Rightarrow> int \<Rightarrow> dbl \<Rightarrow> int option" where
  "cast_int lo hi (Fin x) = in_range lo hi (trunc_int x)"
| "cast_int _ _ _ = None"

text \<open>
  Division of two computed values, for a divisor that is not negative: a zero divisor is
  the positive zero, so the quotient is an infinity of the dividend's sign, or a NaN.
\<close>

fun ddiv :: "dbl \<Rightarrow> dbl \<Rightarrow> dbl" where
  "ddiv NaN _ = NaN"
| "ddiv _ NaN = NaN"
| "ddiv (Fin x) (Fin y) =
     (if y = 0 then (if x = 0 then NaN else if 0 < x then PInf else NInf) else rnd (x / y))"
| "ddiv (Fin _) _ = Fin 0"
| "ddiv PInf (Fin y) = (if 0 \<le> y then PInf else NInf)"
| "ddiv NInf (Fin y) = (if 0 \<le> y then NInf else PInf)"
| "ddiv _ _ = NaN"

section \<open>Powers of two\<close>

lemma pow2_pos [simp]: "0 < pow2 e" and pow2_nonzero [simp]: "pow2 e \<noteq> 0"
  by (simp_all add: pow2_def)

lemma pow2_nonneg [simp]: "0 \<le> pow2 e"
  by (simp add: pow2_def)

lemma pow2_0 [simp]: "pow2 0 = 1"
  by (simp add: pow2_def)

lemma pow2_nat: "pow2 (int n) = 2 ^ n"
  by (simp add: pow2_def)

lemma pow2_powi: "pow2 e = 2 powi e"
  by (simp add: pow2_def power_int_def inverse_eq_divide power_one_over)

lemma pow2_add: "pow2 (a + b) = pow2 a * pow2 b"
  by (simp add: pow2_powi power_int_add)

lemma pow2_diff: "pow2 (a - b) = pow2 a / pow2 b"
  by (simp add: pow2_powi power_int_diff)

lemma pow2_mono: "a \<le> b \<Longrightarrow> pow2 a \<le> pow2 b"
  by (simp add: pow2_powi power_int_increasing)

lemma pow2_less_cancel: "pow2 a < pow2 b \<Longrightarrow> a < b"
  using pow2_mono [of b a] by (meson not_le)

section \<open>Bounds of the binade\<close>

lemma bitlen_bounds_pow2:
  assumes "0 < a"
  shows "pow2 (bitlen a - 1) \<le> of_int a" and "of_int a < pow2 (bitlen a)"
proof -
  have l: "0 < bitlen a" using assms bitlen_eq_zero_iff [of a] bitlen_nonneg [of a] by linarith
  have b: "2 ^ nat (bitlen a - 1) \<le> a \<and> a < 2 ^ nat (bitlen a)"
    by (rule bitlen_bounds [OF assms])
  then have "(2 ^ nat (bitlen a - 1) :: rat) \<le> of_int a" "of_int a < (2 ^ nat (bitlen a) :: rat)"
    by (metis of_int_le_iff of_int_numeral of_int_power, metis of_int_less_iff of_int_numeral of_int_power)
  with l show "pow2 (bitlen a - 1) \<le> of_int a" and "of_int a < pow2 (bitlen a)"
    by (simp_all add: pow2_def)
qed

lemma quotient_abs:
  assumes "quotient_of \<bar>x\<bar> = (a, b)" and "x \<noteq> 0"
  shows "0 < a" and "0 < b" and "\<bar>x\<bar> = of_int a / of_int b"
proof -
  show b: "0 < b" using quotient_of_denom_pos [OF assms(1)] .
  show x: "\<bar>x\<bar> = of_int a / of_int b" using quotient_of_div [OF assms(1)] .
  have "0 < \<bar>x\<bar>" using assms(2) by simp
  with x b show "0 < a" by (simp add: zero_less_divide_iff)
qed

lemma quotient_bitlen_bounds:
  assumes q: "quotient_of \<bar>x\<bar> = (a, b)" and "x \<noteq> 0"
  shows "pow2 (bitlen a - bitlen b - 1) \<le> \<bar>x\<bar>" and "\<bar>x\<bar> < pow2 (bitlen a - bitlen b + 1)"
proof -
  note ab = quotient_abs [OF assms]
  note A = bitlen_bounds_pow2 [OF ab(1)] and B = bitlen_bounds_pow2 [OF ab(2)]
  have "pow2 (bitlen a - 1 - bitlen b) \<le> of_int a / of_int b"
    using A B ab(1,2) unfolding pow2_diff [of "bitlen a - 1"] by (intro frac_le) auto
  then show "pow2 (bitlen a - bitlen b - 1) \<le> \<bar>x\<bar>" by (simp add: ab(3) algebra_simps)
  have "of_int a / of_int b < pow2 (bitlen a) / pow2 (bitlen b - 1)"
    using A B ab(1,2) by (intro frac_less) auto
  then show "\<bar>x\<bar> < pow2 (bitlen a - bitlen b + 1)"
    by (simp add: ab(3) algebra_simps flip: pow2_diff)
qed

lemma ulp_exp_upper: "\<bar>x\<bar> < pow2 (53 + ulp_exp x)"
proof (cases "x = 0")
  case True
  then show ?thesis by simp
next
  case False
  obtain a b where q: "quotient_of \<bar>x\<bar> = (a, b)" by fastforce
  define e0 where "e0 = bitlen a - bitlen b - 53"
  define e where "e = (if \<bar>x\<bar> < pow2 (53 + e0) then e0 else e0 + 1)"
  have u: "ulp_exp x = max (-1074) e" by (simp add: ulp_exp_def q e0_def e_def Let_def)
  have "\<bar>x\<bar> < pow2 (53 + e)"
    using quotient_bitlen_bounds(2) [OF q False] by (auto simp: e_def e0_def algebra_simps)
  also have "\<dots> \<le> pow2 (53 + ulp_exp x)" by (rule pow2_mono) (simp add: u)
  finally show ?thesis .
qed

lemma ulp_exp_lower: "x \<noteq> 0 \<Longrightarrow> ulp_exp x = -1074 \<or> pow2 (52 + ulp_exp x) \<le> \<bar>x\<bar>"
proof -
  assume nz: "x \<noteq> 0"
  obtain a b where q: "quotient_of \<bar>x\<bar> = (a, b)" by fastforce
  define e0 where "e0 = bitlen a - bitlen b - 53"
  define e where "e = (if \<bar>x\<bar> < pow2 (53 + e0) then e0 else e0 + 1)"
  have u: "ulp_exp x = max (-1074) e" by (simp add: ulp_exp_def q e0_def e_def Let_def)
  have "pow2 (52 + e) \<le> \<bar>x\<bar>"
    using quotient_bitlen_bounds(1) [OF q nz] by (auto simp: e_def e0_def algebra_simps not_less)
  then show ?thesis using u by (auto simp: max_def)
qed

lemma ulp_exp_ge: "-1074 \<le> ulp_exp x"
  by (simp add: ulp_exp_def Let_def split: prod.split)

text \<open>The exponent is determined by the binade, which evaluates roundings.\<close>

lemma ulp_exp_eqI:
  assumes "pow2 (52 + e) \<le> \<bar>x\<bar>" and "\<bar>x\<bar> < pow2 (53 + e)" and "-1074 \<le> e"
  shows "ulp_exp x = e"
proof -
  have nz: "x \<noteq> 0" using assms(1) pow2_pos [of "52 + e"] by (metis abs_zero not_le)
  have "pow2 (52 + e) < pow2 (53 + ulp_exp x)"
    using assms(1) ulp_exp_upper [of x] by simp
  then have "e \<le> ulp_exp x" by (auto dest: pow2_less_cancel)
  moreover have "ulp_exp x \<le> e"
  proof (cases "ulp_exp x = -1074")
    case False
    then have "pow2 (52 + ulp_exp x) < pow2 (53 + e)"
      using ulp_exp_lower [OF nz] assms(2) by auto
    then show ?thesis by (auto dest: pow2_less_cancel)
  qed (use assms(3) in simp)
  ultimately show ?thesis by simp
qed

section \<open>Rounding to an integer\<close>

lemma round_half_even_of_int [simp]: "round_half_even (of_int z) = z"
  by (simp add: round_half_even_def)

lemma round_half_even_error: "\<bar>of_int (round_half_even x) - x\<bar> \<le> 1/2"
proof -
  define d where "d = x - of_int \<lfloor>x\<rfloor>"
  have d: "0 \<le> d" "d < 1" unfolding d_def by linarith+
  have x: "x = of_int \<lfloor>x\<rfloor> + d" by (simp add: d_def)
  show ?thesis using d unfolding round_half_even_def Let_def d_def [symmetric]
    by (subst (3) x) auto
qed

lemma round_half_even_mono:
  assumes "x \<le> y"
  shows "round_half_even x \<le> round_half_even y"
proof (cases "\<lfloor>x\<rfloor> = \<lfloor>y\<rfloor>")
  case True
  then show ?thesis using assms by (simp add: round_half_even_def Let_def)
next
  case False
  then have "\<lfloor>x\<rfloor> + 1 \<le> \<lfloor>y\<rfloor>" using floor_mono [OF assms] by simp
  moreover have "round_half_even x \<le> \<lfloor>x\<rfloor> + 1" "\<lfloor>y\<rfloor> \<le> round_half_even y"
    by (simp_all add: round_half_even_def Let_def)
  ultimately show ?thesis by simp
qed

lemma round_half_even_eqI:
  assumes "\<bar>x - of_int m\<bar> < 1/2"
  shows "round_half_even x = m"
proof -
  have "\<bar>of_int (round_half_even x) - of_int m\<bar> < (1 :: rat)"
    using round_half_even_error [of x] assms by linarith
  then show ?thesis by linarith
qed

lemma round_away_eqI:
  assumes "\<bar>x - of_int m\<bar> < 1/2"
  shows "round_away x = m"
proof (cases "0 \<le> x")
  case True
  then have "\<lfloor>x + 1/2\<rfloor> = m" using assms by (intro floor_unique) linarith+
  then show ?thesis using True by (simp add: round_away_def)
next
  case False
  have "of_int (- m) \<le> 1/2 - x" "1/2 - x < of_int (- m) + 1"
    using assms unfolding of_int_minus by linarith+
  then have "\<lfloor>1/2 - x\<rfloor> = - m" by (rule floor_unique)
  then show ?thesis using False by (simp add: round_away_def)
qed

lemma trunc_int_of_int [simp]: "trunc_int (of_int z) = z"
  by (simp add: trunc_int_def)

lemma trunc_int_mono: "x \<le> y \<Longrightarrow> trunc_int x \<le> trunc_int y"
proof -
  assume le: "x \<le> y"
  consider "0 \<le> x" | "x < 0" "0 \<le> y" | "x < 0" "y < 0" using le by linarith
  then show ?thesis
  proof cases
    case 1
    then show ?thesis using le by (simp add: trunc_int_def floor_mono)
  next
    case 2
    then have "trunc_int x = - \<lfloor>- x\<rfloor>" "trunc_int y = \<lfloor>y\<rfloor>" by (simp_all add: trunc_int_def)
    moreover have "0 \<le> \<lfloor>- x\<rfloor>" "0 \<le> \<lfloor>y\<rfloor>" using 2 by simp_all
    ultimately show ?thesis by linarith
  next
    case 3
    then show ?thesis using le by (simp add: trunc_int_def floor_mono)
  qed
qed

lemma trunc_int_abs: "\<bar>of_int (trunc_int x)\<bar> \<le> \<bar>x\<bar>" "\<bar>x - of_int (trunc_int x)\<bar> < 1"
proof -
  have "\<bar>of_int (trunc_int x)\<bar> \<le> \<bar>x\<bar> \<and> \<bar>x - of_int (trunc_int x)\<bar> < 1"
  proof (cases "0 \<le> x")
    case True
    then have t: "trunc_int x = \<lfloor>x\<rfloor>" by (simp add: trunc_int_def)
    have "0 \<le> \<lfloor>x\<rfloor>" using True by simp
    then have "(0 :: rat) \<le> of_int \<lfloor>x\<rfloor>" by (simp only: of_int_0_le_iff)
    then show ?thesis unfolding t using True by linarith
  next
    case False
    then have t: "trunc_int x = - \<lfloor>- x\<rfloor>" by (simp add: trunc_int_def)
    have "0 \<le> \<lfloor>- x\<rfloor>" using False by simp
    then have "(0 :: rat) \<le> of_int \<lfloor>- x\<rfloor>" by (simp only: of_int_0_le_iff)
    then show ?thesis unfolding t of_int_minus using False by linarith
  qed
  then show "\<bar>of_int (trunc_int x)\<bar> \<le> \<bar>x\<bar>" "\<bar>x - of_int (trunc_int x)\<bar> < 1" by simp_all
qed

lemma in_range_Some [simp]: "in_range lo hi z = Some w \<longleftrightarrow> w = z \<and> lo \<le> z \<and> z \<le> hi"
  by (auto simp: in_range_def)

section \<open>Rounding to a double\<close>

definition rnd_rat :: "rat \<Rightarrow> rat" where
  "rnd_rat x = of_int (round_half_even (x / pow2 (ulp_exp x))) * pow2 (ulp_exp x)"

lemma rnd_alt:
  "rnd x = (if pow2 1024 \<le> rnd_rat x then PInf else if rnd_rat x \<le> - pow2 1024 then NInf
            else Fin (rnd_rat x))"
  by (simp add: rnd_def rnd_rat_def Let_def)

lemma rnd_rat_error: "\<bar>rnd_rat x - x\<bar> \<le> pow2 (ulp_exp x) / 2"
proof -
  let ?u = "pow2 (ulp_exp x)"
  have "rnd_rat x - x = (of_int (round_half_even (x / ?u)) - x / ?u) * ?u"
    by (simp add: rnd_rat_def left_diff_distrib)
  then have "\<bar>rnd_rat x - x\<bar> = \<bar>of_int (round_half_even (x / ?u)) - x / ?u\<bar> * ?u"
    by (simp add: abs_mult)
  also have "\<dots> \<le> 1/2 * ?u"
    by (intro mult_right_mono round_half_even_error) simp
  finally show ?thesis by simp
qed

text \<open>Relative error in the range of the normal numbers.\<close>

lemma rnd_rat_relative:
  assumes "pow2 (-1022) \<le> \<bar>x\<bar>"
  shows "\<bar>rnd_rat x - x\<bar> \<le> \<bar>x\<bar> / 2 ^ 53"
proof -
  have nz: "x \<noteq> 0" using assms pow2_pos [of "-1022"] by (metis abs_zero not_le)
  have "pow2 (52 + ulp_exp x) \<le> \<bar>x\<bar>"
    using ulp_exp_lower [OF nz] assms by (auto intro: order_trans pow2_mono)
  then have "pow2 (ulp_exp x) * 2 ^ 52 \<le> \<bar>x\<bar>"
    using pow2_nat [of 52] by (simp add: pow2_add mult.commute)
  then have "pow2 (ulp_exp x) / 2 \<le> \<bar>x\<bar> / 2 ^ 53" by simp
  then show ?thesis using rnd_rat_error [of x] by linarith
qed

lemma ulp_exp_small:
  assumes "x \<noteq> 0" and "\<bar>x\<bar> < pow2 (53 + e)" and "-1074 \<le> e"
  shows "ulp_exp x \<le> e"
proof (cases "ulp_exp x = -1074")
  case False
  then have "pow2 (52 + ulp_exp x) < pow2 (53 + e)"
    using ulp_exp_lower [OF assms(1)] assms(2) by auto
  then show ?thesis by (auto dest: pow2_less_cancel)
qed (use assms(3) in simp)

lemma rnd_rat_0 [simp]: "rnd_rat 0 = 0"
  using round_half_even_of_int [of 0] by (simp add: rnd_rat_def)

text \<open>A representable number rounds to itself.\<close>

lemma rnd_rat_exact:
  assumes "\<bar>m\<bar> < 2 ^ 53" and "-1074 \<le> e"
  shows "rnd_rat (of_int m * pow2 e) = of_int m * pow2 e"
proof (cases "m = 0")
  case False
  let ?x = "of_int m * pow2 e"
  have "of_int \<bar>m\<bar> < (2 ^ 53 :: rat)"
    using assms(1) by (metis of_int_less_iff of_int_numeral of_int_power)
  then have "\<bar>?x\<bar> < 2 ^ 53 * pow2 e" by (simp add: abs_mult)
  then have "\<bar>?x\<bar> < pow2 (53 + e)" using pow2_nat [of 53] by (simp add: pow2_add)
  then have u: "ulp_exp ?x \<le> e" using False assms(2) by (intro ulp_exp_small) simp_all
  have "?x / pow2 (ulp_exp ?x) = of_int m * pow2 (e - ulp_exp ?x)" by (simp add: pow2_diff)
  also have "\<dots> = of_int (m * 2 ^ nat (e - ulp_exp ?x))" using u by (simp add: pow2_def)
  finally have "round_half_even (?x / pow2 (ulp_exp ?x)) = m * 2 ^ nat (e - ulp_exp ?x)"
    by (simp only: round_half_even_of_int)
  then have "rnd_rat ?x = of_int m * (2 ^ nat (e - ulp_exp ?x) * pow2 (ulp_exp ?x))"
    by (simp add: rnd_rat_def)
  also have "2 ^ nat (e - ulp_exp ?x) * pow2 (ulp_exp ?x) = pow2 e"
    using u by (simp flip: pow2_nat pow2_add)
  finally show ?thesis .
qed simp

lemma rnd_of_int:
  assumes "\<bar>z\<bar> < 2 ^ 53"
  shows "rnd (of_int z) = Fin (of_int z)"
proof -
  have r: "rnd_rat (of_int z) = of_int z" using rnd_rat_exact [OF assms, of 0] by simp
  have "of_int \<bar>z\<bar> < (2 ^ 53 :: rat)"
    using assms by (metis of_int_less_iff of_int_numeral of_int_power)
  also have "(2 ^ 53 :: rat) \<le> pow2 1024" using pow2_mono [of 53 1024] pow2_nat [of 53] by simp
  finally have "\<not> pow2 1024 \<le> of_int z" "\<not> of_int z \<le> - pow2 1024"
    unfolding of_int_abs by linarith+
  then show ?thesis by (simp add: rnd_alt r)
qed

section \<open>Rounding is odd and monotone\<close>

lemma ulp_exp_minus [simp]: "ulp_exp (- x) = ulp_exp x"
  by (simp add: ulp_exp_def)

lemma round_half_even_minus: "round_half_even (- x) = - round_half_even x"
proof -
  define n where "n = \<lfloor>x\<rfloor>"
  define d where "d = x - of_int n"
  have x: "x = of_int n + d" and d: "0 \<le> d" "d < 1" unfolding d_def n_def by linarith+
  show ?thesis
  proof (cases "d = 0")
    case True
    then have "x = of_int n" using x by simp
    then show ?thesis by (simp flip: of_int_minus)
  next
    case False
    have "\<lfloor>- x\<rfloor> = - n - 1" using x d False by (intro floor_unique) simp_all
    then have 1: "round_half_even (- x) =
        (if 1 - d < 1/2 then - n - 1 else if 1/2 < 1 - d then - n else if even n then - n else - n - 1)"
      using x by (simp add: round_half_even_def Let_def)
    have 2: "round_half_even x = (if d < 1/2 then n else if 1/2 < d then n + 1 else if even n then n else n + 1)"
      unfolding round_half_even_def Let_def n_def [symmetric] d_def [symmetric] ..
    show ?thesis unfolding 1 2 by auto
  qed
qed

lemma rnd_rat_minus: "rnd_rat (- x) = - rnd_rat x"
  by (simp add: rnd_rat_def round_half_even_minus)

lemma rnd_rat_nonneg: "0 \<le> x \<Longrightarrow> 0 \<le> rnd_rat x"
  using round_half_even_mono [of 0 "x / pow2 (ulp_exp x)"] round_half_even_of_int [of 0]
  by (simp add: rnd_rat_def)

lemma rnd_rat_binade:
  assumes "0 < x"
  shows "rnd_rat x \<le> pow2 (53 + ulp_exp x)"
    and "pow2 (52 + ulp_exp x) \<le> x \<Longrightarrow> pow2 (52 + ulp_exp x) \<le> rnd_rat x"
proof -
  let ?u = "ulp_exp x"
  have two: "pow2 (53 + ?u) = of_int (2 ^ 53) * pow2 ?u" "pow2 (52 + ?u) = of_int (2 ^ 52) * pow2 ?u"
    using pow2_nat [of 53] pow2_nat [of 52] by (simp_all add: pow2_add)
  have "x / pow2 ?u \<le> of_int (2 ^ 53)"
    using ulp_exp_upper [of x] assms two by (simp add: divide_le_eq)
  then have "round_half_even (x / pow2 ?u) \<le> 2 ^ 53"
    using round_half_even_mono round_half_even_of_int by metis
  then have "of_int (round_half_even (x / pow2 ?u)) * pow2 ?u \<le> of_int (2 ^ 53) * pow2 ?u"
    by (intro mult_right_mono) (simp_all only: of_int_le_iff pow2_nonneg)
  then show "rnd_rat x \<le> pow2 (53 + ?u)" by (simp add: rnd_rat_def two)
  assume "pow2 (52 + ?u) \<le> x"
  then have "of_int (2 ^ 52) \<le> x / pow2 ?u" using two by (simp add: le_divide_eq)
  then have "2 ^ 52 \<le> round_half_even (x / pow2 ?u)"
    using round_half_even_mono round_half_even_of_int by metis
  then have "of_int (2 ^ 52) * pow2 ?u \<le> of_int (round_half_even (x / pow2 ?u)) * pow2 ?u"
    by (intro mult_right_mono) (simp_all only: of_int_le_iff pow2_nonneg)
  then show "pow2 (52 + ?u) \<le> rnd_rat x" by (simp add: rnd_rat_def two)
qed

lemma rnd_rat_mono_pos:
  assumes "0 < x" and "x \<le> y"
  shows "rnd_rat x \<le> rnd_rat y"
proof (cases "ulp_exp x = ulp_exp y")
  case True
  have "round_half_even (x / pow2 (ulp_exp y)) \<le> round_half_even (y / pow2 (ulp_exp y))"
    using assms(2) by (intro round_half_even_mono divide_right_mono) simp_all
  then have "of_int (round_half_even (x / pow2 (ulp_exp y))) * pow2 (ulp_exp y)
      \<le> of_int (round_half_even (y / pow2 (ulp_exp y))) * pow2 (ulp_exp y)"
    by (intro mult_right_mono) (simp_all only: of_int_le_iff pow2_nonneg)
  then show ?thesis by (simp add: rnd_rat_def True)
next
  case False
  have "ulp_exp x \<le> ulp_exp y"
    using assms ulp_exp_upper [of y] ulp_exp_ge by (intro ulp_exp_small) auto
  then have lt: "ulp_exp x < ulp_exp y" using False by simp
  have y: "0 < y" using assms by simp
  have "rnd_rat x \<le> pow2 (53 + ulp_exp x)" using rnd_rat_binade(1) [OF assms(1)] .
  also have "\<dots> \<le> pow2 (52 + ulp_exp y)" using lt by (intro pow2_mono) simp
  also have "\<dots> \<le> rnd_rat y"
    using rnd_rat_binade(2) [OF y] ulp_exp_lower [of y] ulp_exp_ge [of x] lt y by auto
  finally show ?thesis .
qed

lemma rnd_rat_mono: "x \<le> y \<Longrightarrow> rnd_rat x \<le> rnd_rat y"
proof -
  assume le: "x \<le> y"
  consider "0 < x" | "x \<le> 0" "0 \<le> y" | "y < 0" using le by linarith
  then show ?thesis
  proof cases
    case 1
    then show ?thesis using le by (rule rnd_rat_mono_pos)
  next
    case 2
    then have "rnd_rat x \<le> 0" "0 \<le> rnd_rat y"
      using rnd_rat_nonneg [of "- x"] rnd_rat_nonneg [of y] by (simp_all add: rnd_rat_minus)
    then show ?thesis by simp
  next
    case 3
    then have "rnd_rat (- y) \<le> rnd_rat (- x)" using le by (intro rnd_rat_mono_pos) simp_all
    then show ?thesis by (simp add: rnd_rat_minus)
  qed
qed

text \<open>Finite results: a product or quotient well below the overflow threshold is finite.\<close>

lemma rnd_Fin:
  assumes "\<bar>x\<bar> < pow2 1023"
  shows "rnd x = Fin (rnd_rat x)"
proof -
  have "rnd_rat (pow2 1023) = pow2 1023" using rnd_rat_exact [of 1 1023] by simp
  then have "\<bar>rnd_rat x\<bar> \<le> pow2 1023"
    using rnd_rat_mono [of x "pow2 1023"] rnd_rat_mono [of "- x" "pow2 1023"] assms
    unfolding rnd_rat_minus by linarith
  also have "pow2 1023 < pow2 1024" by (simp add: pow2_def)
  finally have "\<not> pow2 1024 \<le> rnd_rat x" "\<not> rnd_rat x \<le> - pow2 1024" by linarith+
  then show ?thesis by (simp add: rnd_alt)
qed

end
