(* ===== verification/Core_Types.thy ===== *)
theory Core_Types
  imports Binary64
begin

text \<open>
  The data types that every component shares: \<open>src/fmu-core-types.hpp\<close> (points,
  position and battery reports, log levels), \<open>src/fmu-state-types.hpp\<close> (states of the
  flight management unit and the resolution of a command),
  \<open>src/fss/fmu-fss-types.hpp\<close>, \<open>src/smm/smm-command.hpp\<close>,
  \<open>src/mav/imav.hpp\<close> (flight modes) and the display names of \<open>src/logger.hpp\<close>.
  Enumerators keep their C++ names.
\<close>

section \<open>Points\<close>

record point =
  latitude :: dbl
  longitude :: dbl

definition Point_default :: point where
  "Point_default = \<lparr>latitude = Fin 0, longitude = Fin 0\<rparr>"

definition Point_isValid :: "point \<Rightarrow> bool" where
  "Point_isValid p \<longleftrightarrow>
     isfinite (latitude p) \<and> dge (latitude p) (Fin (- 90)) \<and> dle (latitude p) (Fin 90) \<and>
     isfinite (longitude p) \<and> dge (longitude p) (Fin (- 180)) \<and> dle (longitude p) (Fin 180)"

text \<open>\<open>Point::operator==\<close>: a NaN coordinate is not equal to itself.\<close>

definition Point_eq :: "point \<Rightarrow> point \<Rightarrow> bool" where
  "Point_eq p q \<longleftrightarrow> deq (latitude p) (latitude q) \<and> deq (longitude p) (longitude q)"

lemma Point_isValid_Fin:
  "Point_isValid p \<longleftrightarrow> (\<exists>a b. latitude p = Fin a \<and> longitude p = Fin b \<and>
     - 90 \<le> a \<and> a \<le> 90 \<and> - 180 \<le> b \<and> b \<le> 180)"
  by (cases "latitude p"; cases "longitude p") (auto simp: Point_isValid_def)

section \<open>Position and battery reports\<close>

text \<open>\<open>POSITION_FLAG_VALID_COORDS\<close>: the coordinates are backed by a GPS fix.\<close>

definition POSITION_FLAG_VALID_COORDS :: u16 where
  "POSITION_FLAG_VALID_COORDS = 1"

record PositionData =
  pd_p :: point
  pd_alt_m :: dbl
  pd_alt_agl_m :: dbl
  pd_hdg :: u16
  pd_vel_hor :: u16
  pd_vel_ver :: i16
  pd_callsign :: string
  pd_squawk :: u16
  pd_icaoaddress :: u32
  pd_timestamp :: u64
  pd_flags :: u16
  pd_altitude_type :: u8
  pd_emitter_type :: u8

text \<open>The constructor for the own aircraft: the fields of a peer keep their defaults.\<close>

definition PositionData_own ::
  "dbl \<Rightarrow> dbl \<Rightarrow> dbl \<Rightarrow> u16 \<Rightarrow> u16 \<Rightarrow> i16 \<Rightarrow> u16 \<Rightarrow> dbl \<Rightarrow> PositionData" where
  "PositionData_own lat lng alt hdg vh vv fl agl =
     \<lparr>pd_p = \<lparr>latitude = lat, longitude = lng\<rparr>, pd_alt_m = alt, pd_alt_agl_m = agl,
      pd_hdg = hdg, pd_vel_hor = vh, pd_vel_ver = vv, pd_callsign = [], pd_squawk = 0,
      pd_icaoaddress = 0, pd_timestamp = 0, pd_flags = fl, pd_altitude_type = 0,
      pd_emitter_type = 0\<rparr>"

text \<open>The constructor for a peer aircraft: its altitude above ground stays 0.\<close>

definition PositionData_peer ::
  "dbl \<Rightarrow> dbl \<Rightarrow> dbl \<Rightarrow> u16 \<Rightarrow> u16 \<Rightarrow> i16 \<Rightarrow> string \<Rightarrow> u16 \<Rightarrow> u32 \<Rightarrow> u64 \<Rightarrow> u16 \<Rightarrow> u8 \<Rightarrow> u8
   \<Rightarrow> PositionData" where
  "PositionData_peer lat lng alt hdg vh vv cs sq icao ts fl alt_type emit_type =
     \<lparr>pd_p = \<lparr>latitude = lat, longitude = lng\<rparr>, pd_alt_m = alt, pd_alt_agl_m = Fin 0,
      pd_hdg = hdg, pd_vel_hor = vh, pd_vel_ver = vv, pd_callsign = cs, pd_squawk = sq,
      pd_icaoaddress = icao, pd_timestamp = ts, pd_flags = fl, pd_altitude_type = alt_type,
      pd_emitter_type = emit_type\<rparr>"

definition setICAOAddress :: "u32 \<Rightarrow> PositionData \<Rightarrow> PositionData" where
  "setICAOAddress icao pd = pd\<lparr>pd_icaoaddress := icao\<rparr>"

record BatteryData =
  bd_remaining :: i8
  bd_consumed :: i32
  bd_voltage :: dbl

datatype MavCommsStatus = mav_comms_status_ok | mav_comms_status_failure

section \<open>Log levels\<close>

text \<open>The enumerators are ordered from the least to the most verbose level.\<close>

datatype LogLevel = log_error | log_warning | log_info | log_debug

fun LogLevel_rank :: "LogLevel \<Rightarrow> nat" where
  "LogLevel_rank log_error = 0"
| "LogLevel_rank log_warning = 1"
| "LogLevel_rank log_info = 2"
| "LogLevel_rank log_debug = 3"

lemma LogLevel_rank_inject: "LogLevel_rank a = LogLevel_rank b \<longleftrightarrow> a = b"
  by (cases a; cases b) simp_all

instantiation LogLevel :: linorder
begin

definition less_eq_LogLevel :: "LogLevel \<Rightarrow> LogLevel \<Rightarrow> bool" where
  "a \<le> b \<longleftrightarrow> LogLevel_rank a \<le> LogLevel_rank b"

definition less_LogLevel :: "LogLevel \<Rightarrow> LogLevel \<Rightarrow> bool" where
  "a < b \<longleftrightarrow> LogLevel_rank a < LogLevel_rank b"

instance
  by standard (auto simp: less_eq_LogLevel_def less_LogLevel_def LogLevel_rank_inject)

end

section \<open>States and commands\<close>

datatype FMUState =
    fmu_state_manual | fmu_state_searching | fmu_state_goto | fmu_state_altitude_adjust
  | fmu_state_rtl | fmu_state_waiting_for_tasking | fmu_state_hold | fmu_state_low_battery
  | fmu_state_failsafe | fmu_state_disarmed | fmu_state_terminate

datatype FSSCommandOutcome = fss_command_actioned | fss_command_superseded

record FSSCommandResolution =
  outcome :: FSSCommandOutcome
  superseding_state :: "FMUState option"
  transitioned :: bool

datatype FSSCommand =
    fss_cmd_unknown | fss_cmd_manual | fss_cmd_rtl | fss_cmd_hold | fss_cmd_altitude
  | fss_cmd_goto | fss_cmd_continue | fss_cmd_disarm | fss_cmd_terminate

text \<open>The altitude is in feet, as on the wire, at its full width.\<close>

record FSSCommandTarget =
  target_position :: point
  target_altitude :: u32

definition FSSCommandTarget_default :: FSSCommandTarget where
  "FSSCommandTarget_default = \<lparr>target_position = Point_default, target_altitude = 0\<rparr>"

datatype FSSCommsStatus = fss_comms_unknown | fss_comms_okay | fss_comms_failure

datatype SMMCommand = smm_cmd_none | smm_cmd_abandon_search | smm_cmd_mission_complete

datatype flight_mode =
    flight_mode_unknown | flight_mode_manual | flight_mode_rtl | flight_mode_goto | flight_mode_hold

record SMMSettings =
  smm_url :: string
  smm_settings_user :: string
  smm_settings_pass :: string

section \<open>Display names\<close>

fun fmu_state_name :: "FMUState \<Rightarrow> string" where
  "fmu_state_name fmu_state_manual = ''manual''"
| "fmu_state_name fmu_state_searching = ''searching''"
| "fmu_state_name fmu_state_goto = ''goto''"
| "fmu_state_name fmu_state_altitude_adjust = ''altitude_adjust''"
| "fmu_state_name fmu_state_rtl = ''rtl''"
| "fmu_state_name fmu_state_waiting_for_tasking = ''waiting_for_tasking''"
| "fmu_state_name fmu_state_hold = ''hold''"
| "fmu_state_name fmu_state_low_battery = ''low_battery''"
| "fmu_state_name fmu_state_failsafe = ''failsafe''"
| "fmu_state_name fmu_state_disarmed = ''disarmed''"
| "fmu_state_name fmu_state_terminate = ''terminate''"

fun fss_cmd_name :: "FSSCommand \<Rightarrow> string" where
  "fss_cmd_name fss_cmd_unknown = ''unknown''"
| "fss_cmd_name fss_cmd_manual = ''manual''"
| "fss_cmd_name fss_cmd_rtl = ''rtl''"
| "fss_cmd_name fss_cmd_hold = ''hold''"
| "fss_cmd_name fss_cmd_altitude = ''altitude''"
| "fss_cmd_name fss_cmd_goto = ''goto''"
| "fss_cmd_name fss_cmd_continue = ''continue''"
| "fss_cmd_name fss_cmd_disarm = ''disarm''"
| "fss_cmd_name fss_cmd_terminate = ''terminate''"

fun smm_cmd_name :: "SMMCommand \<Rightarrow> string" where
  "smm_cmd_name smm_cmd_none = ''none''"
| "smm_cmd_name smm_cmd_abandon_search = ''abandon_search''"
| "smm_cmd_name smm_cmd_mission_complete = ''mission_complete''"

fun log_level_name :: "LogLevel \<Rightarrow> string" where
  "log_level_name log_error = ''ERROR''"
| "log_level_name log_warning = ''WARNING''"
| "log_level_name log_info = ''INFO''"
| "log_level_name log_debug = ''DEBUG''"

section \<open>Decimal rendering\<close>

text \<open>\<open>std::to_string\<close> on integers.\<close>

fun to_string_nat :: "nat \<Rightarrow> string" where
  "to_string_nat n =
     (if n < 10 then [char_of (48 + n)] else to_string_nat (n div 10) @ [char_of (48 + n mod 10)])"

declare to_string_nat.simps [simp del]

definition to_string_int :: "int \<Rightarrow> string" where
  "to_string_int z = (if z < 0 then CHR ''-'' # to_string_nat (nat (- z)) else to_string_nat (nat z))"

text \<open>The rendering is injective: reading the digits back gives the number.\<close>

definition digits_value :: "string \<Rightarrow> nat" where
  "digits_value s = foldl (\<lambda>acc c. 10 * acc + (of_char c - 48)) 0 s"

lemma digits_value_snoc: "digits_value (s @ [c]) = 10 * digits_value s + (of_char c - 48)"
  by (simp add: digits_value_def)

lemma digits_value_to_string: "digits_value (to_string_nat n) = n"
proof (induction n rule: to_string_nat.induct)
  case (1 n)
  show ?case
  proof (cases "n < 10")
    case True
    then show ?thesis by (simp add: to_string_nat.simps [of n] digits_value_def of_char_of)
  next
    case False
    have "(48 + n mod 10) mod 256 = 48 + n mod 10" by (rule mod_less) simp
    then show ?thesis
      using False 1 by (simp add: to_string_nat.simps [of n] digits_value_snoc of_char_of)
  qed
qed

lemma to_string_nat_inject [simp]: "to_string_nat a = to_string_nat b \<longleftrightarrow> a = b"
  by (metis digits_value_to_string)

end
