(* ===== verification/Units.thy ===== *)
theory Units
  imports Core_Types
begin

text \<open>
  The pure unit conversions and clamps at the protocol boundaries:
  \<open>src/altitude-units.hpp\<close>, \<open>src/smm/search-altitude.hpp\<close>,
  \<open>src/altitude-cap.hpp\<close>, \<open>src/mav/latlon-encoding.hpp\<close>,
  \<open>src/mav/battery-voltage.hpp\<close> and \<open>src/mav/velocity.hpp\<close>, on binary64 values
  with their rounding. A result \<open>None\<close> is a conversion C++ leaves undefined; the lemmas
  say where it cannot happen. The C library's \<open>tan\<close> and \<open>hypot\<close> are arguments.
\<close>

section \<open>Altitude units (altitude-units.hpp)\<close>

definition metres_per_foot :: rat where
  "metres_per_foot = lit (3048 / 10000)"

definition metres_to_feet :: "dbl \<Rightarrow> dbl" where
  "metres_to_feet metres = ddiv_lit metres metres_per_foot"

definition feet_to_metres :: "dbl \<Rightarrow> dbl" where
  "feet_to_metres feet = dmul_lit feet metres_per_foot"

definition INT32_MAX :: int where "INT32_MAX = 2147483647"
definition INT32_MIN :: int where "INT32_MIN = - 2147483648"

definition mav_mm_to_metres :: "i32 \<Rightarrow> dbl" where
  "mav_mm_to_metres millimetres = ddiv_lit (Fin (of_int (sint millimetres))) 1000"

definition metres_to_mav_mm :: "dbl \<Rightarrow> i32 option" where
  "metres_to_mav_mm metres =
     (if \<not> isfinite metres then Some 0
      else let millimetres = dmul_lit metres 1000
        in if dge millimetres (Fin (of_int INT32_MAX)) then Some (word_of_int INT32_MAX)
           else if dle millimetres (Fin (of_int INT32_MIN)) then Some (word_of_int INT32_MIN)
           else map_option word_of_int (lround millimetres))"

section \<open>Altitude cap and search altitude\<close>

definition dbl_of_u16 :: "u16 \<Rightarrow> dbl" where
  "dbl_of_u16 w = Fin (of_int (uint w))"

text \<open>\<open>over_altitude_cap\<close> (altitude-cap.hpp): at the cap is not a breach.\<close>

definition over_altitude_cap :: "dbl \<Rightarrow> u16 \<Rightarrow> bool" where
  "over_altitude_cap altitude_agl_m altitude_cap_m = dgt altitude_agl_m (dbl_of_u16 altitude_cap_m)"

definition half_fov_rad :: "dbl \<Rightarrow> dbl" where
  "half_fov_rad camera_fov_deg =
     (let pi_lit = lit (314159265358979323846 / 10 ^ 20)
      in ddiv_lit (ddiv_lit (dmul_lit camera_fov_deg pi_lit) 180) 2)"

definition raw_search_altitude :: "(dbl \<Rightarrow> dbl) \<Rightarrow> dbl \<Rightarrow> dbl \<Rightarrow> dbl" where
  "raw_search_altitude tan_fn sweep_width camera_fov_deg =
     (if \<not> (dgt camera_fov_deg (Fin 0) \<and> dlt camera_fov_deg (Fin 180)) then Fin 0
      else ddiv sweep_width (dmul_lit (tan_fn (half_fov_rad camera_fov_deg)) 2))"

definition clamp_search_altitude :: "dbl \<Rightarrow> u16 \<Rightarrow> u16 \<Rightarrow> u16 option" where
  "clamp_search_altitude altitude altitude_floor altitude_cap =
     (if dgt altitude (dbl_of_u16 altitude_cap) then Some altitude_cap
      else if dlt altitude (dbl_of_u16 altitude_floor) then Some altitude_floor
      else map_option word_of_int (cast_int 0 65535 altitude))"

definition clamp_command_altitude :: "u32 \<Rightarrow> u16 \<Rightarrow> u16 \<Rightarrow> u16 option" where
  "clamp_command_altitude altitude_ft altitude_floor altitude_cap =
     clamp_search_altitude (feet_to_metres (Fin (of_int (uint altitude_ft)))) altitude_floor altitude_cap"

section \<open>MAVLink encodings\<close>

definition LAT_LNG_COV :: rat where
  "LAT_LNG_COV = lit (1 / 10000000)"

definition degrees_to_degE7 :: "dbl \<Rightarrow> i32 option" where
  "degrees_to_degE7 degrees =
     (if \<not> isfinite degrees then Some 0
      else let degE7 = ddiv_lit degrees LAT_LNG_COV
        in if dle degE7 (Fin (of_int INT32_MIN)) then Some (word_of_int INT32_MIN)
           else if dge degE7 (Fin (of_int INT32_MAX)) then Some (word_of_int INT32_MAX)
           else map_option word_of_int (cast_int INT32_MIN INT32_MAX degE7))"

definition degE7_to_degrees :: "i32 \<Rightarrow> dbl" where
  "degE7_to_degrees degE7 = dmul_lit (Fin (of_int (sint degE7))) LAT_LNG_COV"

text \<open>Cell 0 carries the pack voltage; \<open>0xFFFF\<close> means unknown and reads as 0.\<close>

definition battery_pack_voltage_v :: "u16 \<Rightarrow> dbl" where
  "battery_pack_voltage_v cell0_mv =
     (if cell0_mv = 65535 then Fin 0 else ddiv_lit (dbl_of_u16 cell0_mv) 1000)"

definition horizontal_velocity :: "(dbl \<Rightarrow> dbl \<Rightarrow> dbl) \<Rightarrow> i16 \<Rightarrow> i16 \<Rightarrow> u16 option" where
  "horizontal_velocity hypot_fn vx vy =
     map_option word_of_int (cast_int 0 65535 (hypot_fn (Fin (of_int (sint vx))) (Fin (of_int (sint vy)))))"

section \<open>Rounding error of one operation\<close>

lemma rnd_rat_rel:
  assumes "x = 0 \<or> pow2 (-1022) \<le> \<bar>x\<bar>"
  shows "\<bar>rnd_rat x - x\<bar> \<le> \<bar>x\<bar> / 2 ^ 53"
  using assms rnd_rat_relative [of x] by auto

lemma sint32_bounds: "- 2147483648 \<le> sint (w :: i32)" "sint (w :: i32) \<le> 2147483647"
  using sint_range_size [of w] by (simp_all add: word_size)

lemma abs_of_int_bound:
  assumes "\<bar>z\<bar> \<le> n"
  shows "\<bar>of_int z :: rat\<bar> \<le> of_int n"
  using assms by (metis of_int_abs of_int_le_iff)

text \<open>
  Scaling an integer of at most 32 bits down and up again by one constant leaves an error
  below a quarter.
\<close>

lemma scale_round_trip:
  fixes c :: rat
  assumes n: "\<bar>n\<bar> \<le> 2 ^ 31" and c: "pow2 (- 30) \<le> c" "c \<le> 1"
  shows "rnd (of_int n * c) = Fin (rnd_rat (of_int n * c))"
    and "rnd (rnd_rat (of_int n * c) / c) = Fin (rnd_rat (rnd_rat (of_int n * c) / c))"
    and "\<bar>rnd_rat (rnd_rat (of_int n * c) / c) - of_int n\<bar> < 1/4"
proof -
  let ?x = "of_int n * c" and ?a = "rnd_rat (of_int n * c)"
  have c0: "0 < c" using c(1) pow2_pos [of "- 30"] by linarith
  have n': "\<bar>of_int n :: rat\<bar> \<le> 2147483648" using abs_of_int_bound [OF n] by simp
  have ax: "\<bar>?x\<bar> = \<bar>of_int n\<bar> * c" using c0 by (simp add: abs_mult)
  have x1: "\<bar>?x\<bar> \<le> 2147483648" unfolding ax using mult_mono [OF n' c(2)] c0 by simp
  have big: "(2147483650 :: rat) < pow2 1023" by (simp add: pow2_def)
  have tiny: "pow2 (- 1022) \<le> pow2 (- 30)" by (rule pow2_mono) simp
  have e1: "\<bar>?a - ?x\<bar> \<le> \<bar>?x\<bar> / 2 ^ 53"
  proof (cases "n = 0")
    case False
    then have "1 \<le> \<bar>n\<bar>" by simp
    then have "(1 :: rat) \<le> \<bar>of_int n\<bar>" by (metis of_int_1 of_int_abs of_int_le_iff)
    then have "1 * c \<le> \<bar>of_int n\<bar> * c" using c0 by (intro mult_right_mono) simp_all
    then show ?thesis using tiny c(1) ax by (intro rnd_rat_rel) auto
  qed simp
  show "rnd ?x = Fin ?a" using x1 big by (intro rnd_Fin) linarith
  have d: "\<bar>?a / c - of_int n\<bar> \<le> \<bar>of_int n\<bar> / 2 ^ 53"
  proof -
    have "?a / c - of_int n = (?a - ?x) / c" using c0 by (simp add: field_simps)
    then have "\<bar>?a / c - of_int n\<bar> = \<bar>?a - ?x\<bar> / c" using c0 by (simp add: abs_divide)
    also have "\<dots> \<le> (\<bar>of_int n\<bar> * c / 2 ^ 53) / c"
      using e1 c0 unfolding ax by (intro divide_right_mono) simp_all
    finally show ?thesis using c0 by simp
  qed
  have small: "\<bar>of_int n :: rat\<bar> / 2 ^ 53 \<le> 1 / 16" using n' by simp
  have y1: "\<bar>?a / c\<bar> \<le> 2147483649" using d n' small by linarith
  show "rnd (?a / c) = Fin (rnd_rat (?a / c))" using y1 big by (intro rnd_Fin) linarith
  have e2: "\<bar>rnd_rat (?a / c) - ?a / c\<bar> \<le> \<bar>?a / c\<bar> / 2 ^ 53"
  proof (cases "n = 0")
    case False
    then have "1 \<le> \<bar>n\<bar>" by simp
    then have "(1 :: rat) \<le> \<bar>of_int n\<bar>" by (metis of_int_1 of_int_abs of_int_le_iff)
    then have "1 / 2 \<le> \<bar>?a / c\<bar>" using d small by linarith
    moreover have "pow2 (- 1022) \<le> 1 / 2" using pow2_mono [of "- 1022" "- 1"] by (simp add: pow2_def)
    ultimately show ?thesis by (intro rnd_rat_rel) linarith
  qed simp
  have "\<bar>?a / c\<bar> / 2 ^ 53 \<le> 1 / 8" using y1 by simp
  then show "\<bar>rnd_rat (?a / c) - of_int n\<bar> < 1/4" using e2 d small by linarith
qed

lemma lit_rnd_rat: "\<bar>q\<bar> < pow2 1023 \<Longrightarrow> lit q = rnd_rat q"
  by (simp add: lit_def rnd_Fin)

lemma pow2_m30_le: "pow2 (- 30) \<le> q" if "1 / 2 ^ 30 \<le> q"
  using that by (simp add: pow2_def)

lemma lit_bounds:
  assumes "1 / 2 ^ 30 \<le> q" and "q \<le> 1"
  shows "pow2 (- 30) \<le> lit q" and "lit q \<le> 1"
proof -
  have q: "0 < q" using assms(1) by (rule less_le_trans [rotated]) simp
  have "(1 :: rat) < pow2 1023" by (simp add: pow2_def)
  then have l: "lit q = rnd_rat q" using assms(2) q by (intro lit_rnd_rat) linarith
  have "rnd_rat (of_int 1 * pow2 (- 30)) = of_int 1 * pow2 (- 30)" by (rule rnd_rat_exact) simp_all
  then show "pow2 (- 30) \<le> lit q"
    unfolding l using rnd_rat_mono [OF pow2_m30_le [OF assms(1)]] by simp
  have "rnd_rat (of_int 1 * pow2 0) = of_int 1 * pow2 0" by (rule rnd_rat_exact) simp_all
  then show "lit q \<le> 1" unfolding l using rnd_rat_mono [OF assms(2)] by simp
qed

section \<open>Conversions are defined for every input\<close>

lemma round_away_bounds: "of_int lo \<le> x \<Longrightarrow> x \<le> of_int hi \<Longrightarrow> lo \<le> round_away x \<and> round_away x \<le> hi"
proof -
  assume b: "of_int lo \<le> x" "x \<le> of_int hi"
  show ?thesis
  proof (cases "0 \<le> x")
    case True
    have "of_int lo \<le> x + 1/2" "x + 1/2 < of_int (hi + 1)" using b by simp_all
    then have "lo \<le> \<lfloor>x + 1/2\<rfloor>" "\<lfloor>x + 1/2\<rfloor> < hi + 1" by (simp_all only: le_floor_iff floor_less_iff)
    then show ?thesis using True by (simp add: round_away_def)
  next
    case False
    have "of_int (- hi) \<le> 1/2 - x" "1/2 - x < of_int (1 - lo)" using b by simp_all
    then have "- hi \<le> \<lfloor>1/2 - x\<rfloor>" "\<lfloor>1/2 - x\<rfloor> < 1 - lo" by (simp_all only: le_floor_iff floor_less_iff)
    then show ?thesis using False by (simp add: round_away_def)
  qed
qed

lemma trunc_int_bounds: "of_int lo \<le> x \<Longrightarrow> x \<le> of_int hi \<Longrightarrow> lo \<le> trunc_int x \<and> trunc_int x \<le> hi"
  by (metis trunc_int_mono trunc_int_of_int)

text \<open>The clamps leave the conversions only values that the target type holds.\<close>

lemma lround_between:
  assumes "\<not> y \<le> of_int INT32_MIN" and "\<not> of_int INT32_MAX \<le> y"
  shows "lround (Fin y) = Some (round_away y)"
proof -
  have "INT32_MIN \<le> round_away y \<and> round_away y \<le> INT32_MAX"
    using assms by (intro round_away_bounds) simp_all
  then show ?thesis by (simp add: INT32_MAX_def INT32_MIN_def)
qed

lemma cast_int32_between:
  assumes "\<not> y \<le> of_int INT32_MIN" and "\<not> of_int INT32_MAX \<le> y"
  shows "cast_int INT32_MIN INT32_MAX (Fin y) = Some (trunc_int y)"
  using trunc_int_bounds [of INT32_MIN y INT32_MAX] assms by simp

lemma metres_to_mav_mm_Fin:
  assumes "rnd (x * 1000) = Fin y"
  shows "metres_to_mav_mm (Fin x) =
    Some (word_of_int (if of_int INT32_MAX \<le> y then INT32_MAX
      else if y \<le> of_int INT32_MIN then INT32_MIN else round_away y))"
  using lround_between [of y] by (simp add: metres_to_mav_mm_def assms Let_def del: lround.simps)

lemma degrees_to_degE7_Fin:
  assumes "rnd (x / LAT_LNG_COV) = Fin y"
  shows "degrees_to_degE7 (Fin x) =
    Some (word_of_int (if y \<le> of_int INT32_MIN then INT32_MIN
      else if of_int INT32_MAX \<le> y then INT32_MAX else trunc_int y))"
  using cast_int32_between [of y] by (simp add: degrees_to_degE7_def assms Let_def del: cast_int.simps)

lemma rnd_not_NaN [simp]: "rnd x \<noteq> NaN"
  by (simp add: rnd_alt)

lemma metres_to_mav_mm_Some: "\<exists>w. metres_to_mav_mm a = Some w"
proof (cases a)
  case (Fin x)
  then show ?thesis
    by (cases "rnd (x * 1000)") (simp_all add: metres_to_mav_mm_Fin, simp_all add: metres_to_mav_mm_def dge_def dle_def)
qed (simp_all add: metres_to_mav_mm_def)

lemma degrees_to_degE7_Some: "\<exists>w. degrees_to_degE7 d = Some w"
proof (cases d)
  case (Fin x)
  then show ?thesis
    by (cases "rnd (x / LAT_LNG_COV)") (simp_all add: degrees_to_degE7_Fin, simp_all add: degrees_to_degE7_def dge_def dle_def)
qed (simp_all add: degrees_to_degE7_def)

text \<open>No altitude and no coordinate, finite or not, reaches an undefined conversion on its way to the MAVLink wire.\<close>

lemma mavlink_encodings_defined: "metres_to_mav_mm a \<noteq> None \<and> degrees_to_degE7 d \<noteq> None"
  using metres_to_mav_mm_Some [of a] degrees_to_degE7_Some [of d] by auto

section \<open>Round trips\<close>

lemma trunc_int_near:
  assumes "\<bar>y - of_int n\<bar> < 1/4"
  shows "\<bar>trunc_int y - n\<bar> \<le> 1" and "\<bar>trunc_int y\<bar> \<le> \<bar>n\<bar>"
proof -
  have "\<bar>of_int (trunc_int y) - of_int n\<bar> < (2 :: rat)" using trunc_int_abs(2) [of y] assms by linarith
  then show "\<bar>trunc_int y - n\<bar> \<le> 1" by linarith
  have "\<bar>of_int (trunc_int y)\<bar> < \<bar>of_int n\<bar> + (1 :: rat)" using trunc_int_abs(1) [of y] assms by linarith
  then have "of_int \<bar>trunc_int y\<bar> < (of_int (\<bar>n\<bar> + 1) :: rat)" by simp
  then show "\<bar>trunc_int y\<bar> \<le> \<bar>n\<bar>" by (simp only: of_int_less_iff)
qed

lemma word_of_int_sint32 [simp]: "word_of_int (sint w) = (w :: i32)"
  by simp

lemma sint32_word_of_int:
  "- 2147483648 \<le> z \<Longrightarrow> z \<le> 2147483647 \<Longrightarrow> sint (word_of_int z :: i32) = z"
  unfolding sint_sbintrunc' by (rule signed_take_bit_int_eq_self) simp_all

text \<open>Near the ends of the range the clamps agree with the reading.\<close>

lemma near_int_limits:
  fixes y :: rat
  assumes "\<bar>y - of_int n\<bar> < 1/4" and "INT32_MIN \<le> n" and "n \<le> INT32_MAX"
  shows "of_int INT32_MAX \<le> y \<Longrightarrow> n = INT32_MAX" and "y \<le> of_int INT32_MIN \<Longrightarrow> n = INT32_MIN"
proof -
  assume "of_int INT32_MAX \<le> y"
  then have "of_int INT32_MAX < (of_int n :: rat) + 1" using assms(1) by linarith
  then show "n = INT32_MAX" using assms(3) by linarith
next
  assume "y \<le> of_int INT32_MIN"
  then have "(of_int n :: rat) - 1 < of_int INT32_MIN" using assms(1) by linarith
  then show "n = INT32_MIN" using assms(2) by linarith
qed

text \<open>Converting a millimetre reading of the wire to metres and back returns the reading, for every 32-bit value.\<close>

lemma mav_mm_round_trip: "metres_to_mav_mm (mav_mm_to_metres w) = Some w"
proof -
  let ?n = "sint w"
  have b: "INT32_MIN \<le> ?n" "?n \<le> INT32_MAX" using sint32_bounds [of w] by (simp_all add: INT32_MAX_def INT32_MIN_def)
  then have n: "\<bar>?n\<bar> \<le> 2 ^ 31" by (simp add: INT32_MAX_def INT32_MIN_def)
  have c: "pow2 (- 30) \<le> 1 / 1000" "(1 / 1000 :: rat) \<le> 1" by (rule pow2_m30_le) simp_all
  define a where "a = rnd_rat (of_int ?n * (1 / 1000))"
  define y where "y = rnd_rat (a / (1 / 1000))"
  note rt = scale_round_trip [OF n c, folded a_def, folded y_def]
  have m: "mav_mm_to_metres w = Fin a" using rt(1) by (simp add: mav_mm_to_metres_def)
  have d: "rnd (a * 1000) = Fin y" using rt(2) by simp
  have "round_away y = ?n" using rt(3) by (intro round_away_eqI) linarith
  then have "(if of_int INT32_MAX \<le> y then INT32_MAX
      else if y \<le> of_int INT32_MIN then INT32_MIN else round_away y) = ?n"
    using near_int_limits [OF rt(3) b] by auto
  then show ?thesis unfolding m metres_to_mav_mm_Fin [OF d] by simp
qed

text \<open>C40: decoding a degE7 coordinate and encoding it again loses at most one unit, and always towards zero.\<close>

theorem degE7_round_trip_within_one:
  "\<exists>w'. degrees_to_degE7 (degE7_to_degrees w) = Some w' \<and>
     \<bar>sint w' - sint w\<bar> \<le> 1 \<and> \<bar>sint w'\<bar> \<le> \<bar>sint w\<bar>"
proof -
  let ?n = "sint w"
  have b: "INT32_MIN \<le> ?n" "?n \<le> INT32_MAX" using sint32_bounds [of w] by (simp_all add: INT32_MAX_def INT32_MIN_def)
  then have n: "\<bar>?n\<bar> \<le> 2 ^ 31" by (simp add: INT32_MAX_def INT32_MIN_def)
  have c: "pow2 (- 30) \<le> LAT_LNG_COV" "LAT_LNG_COV \<le> 1"
    unfolding LAT_LNG_COV_def by (rule lit_bounds; simp)+
  define a where "a = rnd_rat (of_int ?n * LAT_LNG_COV)"
  define y where "y = rnd_rat (a / LAT_LNG_COV)"
  note rt = scale_round_trip [OF n c, folded a_def, folded y_def]
  define z where "z = (if y \<le> of_int INT32_MIN then INT32_MIN
      else if of_int INT32_MAX \<le> y then INT32_MAX else trunc_int y)"
  have "degE7_to_degrees w = Fin a" using rt(1) by (simp add: degE7_to_degrees_def)
  then have e: "degrees_to_degE7 (degE7_to_degrees w) = Some (word_of_int z)"
    by (simp add: degrees_to_degE7_Fin [OF rt(2)] z_def)
  have z: "z = ?n \<or> z = trunc_int y" "INT32_MIN \<le> z" "z \<le> INT32_MAX"
    using near_int_limits [OF rt(3) b] b trunc_int_bounds [of INT32_MIN y INT32_MAX] by (auto simp: z_def)
  then have s: "sint (word_of_int z :: i32) = z"
    by (intro sint32_word_of_int) (simp_all add: INT32_MAX_def INT32_MIN_def)
  show ?thesis unfolding e using z(1) trunc_int_near [OF rt(3)] s by auto
qed

section \<open>Evaluating a rounding\<close>

lemma rnd_rat_eqI:
  assumes "pow2 (52 + e) \<le> \<bar>x\<bar>" and "\<bar>x\<bar> < pow2 (53 + e)" and "-1074 \<le> e"
    and "\<bar>x / pow2 e - of_int m\<bar> < 1/2"
  shows "rnd_rat x = of_int m * pow2 e"
proof -
  have u: "ulp_exp x = e" using assms(1-3) by (rule ulp_exp_eqI)
  show ?thesis unfolding rnd_rat_def u using round_half_even_eqI [OF assms(4)] by simp
qed

lemma LAT_LNG_COV_value: "LAT_LNG_COV = 7555786372591432 / 2 ^ 76"
proof -
  have "rnd_rat (1 / 10000000) = of_int 7555786372591432 * pow2 (- 76)"
    by (rule rnd_rat_eqI) (simp_all add: pow2_def)
  moreover have "(1 :: rat) < pow2 1023" by (simp add: pow2_def)
  ultimately show ?thesis
    unfolding LAT_LNG_COV_def by (subst lit_rnd_rat) (simp_all add: pow2_def)
qed

text \<open>The two degE7 conversions are not inverse: 79 decodes to a double that encodes to 78.\<close>

lemma degE7_not_inverse: "degrees_to_degE7 (degE7_to_degrees 79) = Some 78"
proof -
  have big: "(2 :: rat) ^ 40 < pow2 1023" by (simp add: pow2_def)
  have a: "rnd_rat (79 * LAT_LNG_COV) = of_int 4663336901833774 * pow2 (- 69)"
    by (rule rnd_rat_eqI) (simp_all add: pow2_def LAT_LNG_COV_value)
  have "rnd (79 * LAT_LNG_COV) = Fin (rnd_rat (79 * LAT_LNG_COV))"
    by (rule rnd_Fin, rule less_trans [OF _ big]) (simp add: LAT_LNG_COV_value)
  then have d: "degE7_to_degrees 79 = Fin (4663336901833774 / 2 ^ 69)"
    by (simp add: degE7_to_degrees_def a) (simp add: pow2_def)
  let ?y = "4663336901833774 / 2 ^ 69 / LAT_LNG_COV"
  have b: "rnd_rat ?y = of_int 5559130790035455 * pow2 (- 46)"
    by (rule rnd_rat_eqI) (simp_all add: pow2_def LAT_LNG_COV_value)
  have "rnd ?y = Fin (rnd_rat ?y)"
    by (rule rnd_Fin, rule less_trans [OF _ big]) (simp add: LAT_LNG_COV_value)
  then have e: "rnd ?y = Fin (5559130790035455 / 2 ^ 46)" unfolding b by (simp add: pow2_def)
  have "\<lfloor>5559130790035455 / 2 ^ 46 :: rat\<rfloor> = 78" by (rule floor_unique) simp_all
  then have "trunc_int (5559130790035455 / 2 ^ 46) = 78" by (simp add: trunc_int_def)
  then show ?thesis
    unfolding d degrees_to_degE7_Fin [OF e] by (simp add: INT32_MAX_def INT32_MIN_def)
qed

section \<open>Altitude clamps\<close>

declare of_int_uint [simp del] of_int_sint [simp del]

lemma uint16_bounds: "0 \<le> uint (w :: u16)" "uint (w :: u16) \<le> 65535"
  using uint_lt2p [of w] by simp_all

lemma uint16_word_of_int: "0 \<le> z \<Longrightarrow> z \<le> 65535 \<Longrightarrow> uint (word_of_int z :: u16) = z"
  by (simp add: uint_word_of_int)

lemma u16_le_uint: "(a :: u16) \<le> b \<longleftrightarrow> uint a \<le> uint b"
  by (simp add: word_le_def)

text \<open>On a number the clamp is the truncated value pinned between floor and cap.\<close>

lemma clamp_search_altitude_Fin:
  assumes "altitude_floor \<le> altitude_cap"
  shows "\<exists>w. clamp_search_altitude (Fin r) altitude_floor altitude_cap = Some w \<and>
    uint w = max (uint altitude_floor) (min (uint altitude_cap) (trunc_int r))"
proof -
  let ?f = "uint altitude_floor" and ?c = "uint altitude_cap"
  have fc: "?f \<le> ?c" using assms by (simp add: u16_le_uint)
  consider "of_int ?c < r" | "r \<le> of_int ?c" "r < of_int ?f" | "of_int ?f \<le> r" "r \<le> of_int ?c"
    by linarith
  then show ?thesis
  proof cases
    case 1
    then have "?c \<le> trunc_int r" using trunc_int_mono [of "of_int ?c" r] by simp
    then show ?thesis using 1 fc by (simp add: clamp_search_altitude_def dbl_of_u16_def)
  next
    case 2
    then have "trunc_int r \<le> ?f" using trunc_int_mono [of r "of_int ?f"] by simp
    then show ?thesis using 2 fc by (simp add: clamp_search_altitude_def dbl_of_u16_def)
  next
    case 3
    then have t: "?f \<le> trunc_int r" "trunc_int r \<le> ?c" using trunc_int_bounds by blast+
    then have "0 \<le> trunc_int r" "trunc_int r \<le> 65535"
      using uint16_bounds(1) [of altitude_floor] uint16_bounds(2) [of altitude_cap] by linarith+
    then show ?thesis
      using 3 t by (simp add: clamp_search_altitude_def dbl_of_u16_def in_range_def uint16_word_of_int)
  qed
qed

text \<open>Every search altitude that is a number or an infinity is pinned into the range from floor to cap.\<close>

lemma clamp_search_altitude_bounds:
  assumes "altitude_floor \<le> altitude_cap" and "altitude \<noteq> NaN"
  shows "\<exists>w. clamp_search_altitude altitude altitude_floor altitude_cap = Some w \<and>
    altitude_floor \<le> w \<and> w \<le> altitude_cap"
proof (cases altitude)
  case (Fin r)
  then show ?thesis
    using clamp_search_altitude_Fin [OF assms(1), of r] assms(1) by (auto simp: u16_le_uint)
qed (use assms in \<open>auto simp: clamp_search_altitude_def dbl_of_u16_def dgt_def\<close>)

lemma rnd_small_Fin: "\<bar>x\<bar> \<le> 2 ^ 64 \<Longrightarrow> rnd x = Fin (rnd_rat x)"
proof -
  assume "\<bar>x\<bar> \<le> 2 ^ 64"
  also have "(2 :: rat) ^ 64 < pow2 1023" by (simp add: pow2_def)
  finally show ?thesis by (rule rnd_Fin)
qed

lemma metres_per_foot_bounds: "0 \<le> metres_per_foot" "metres_per_foot \<le> 1"
proof -
  have "pow2 (- 30) \<le> metres_per_foot" "metres_per_foot \<le> 1"
    unfolding metres_per_foot_def by (rule lit_bounds; simp)+
  then show "0 \<le> metres_per_foot" "metres_per_foot \<le> 1" using pow2_pos [of "- 30"] by linarith+
qed

lemma uint32_lt: "uint (w :: u32) < 4294967296"
  using uint_lt2p [of w] by simp

lemma feet_to_metres_u32:
  "feet_to_metres (Fin (of_int (uint (w :: u32)))) = Fin (rnd_rat (of_int (uint w) * metres_per_foot))"
proof -
  have "of_int (uint w) \<le> (4294967296 :: rat)"
    using uint32_lt [of w] by (metis less_imp_le of_int_le_iff of_int_numeral)
  then have "of_int (uint w) * metres_per_foot \<le> 4294967296 * 1"
    using metres_per_foot_bounds by (intro mult_mono) simp_all
  moreover have "0 \<le> of_int (uint w) * metres_per_foot"
    using metres_per_foot_bounds by simp
  ultimately have "\<bar>of_int (uint w) * metres_per_foot\<bar> \<le> 2 ^ 64" by simp
  then show ?thesis by (simp add: feet_to_metres_def rnd_small_Fin)
qed

text \<open>A commanded altitude of any 32-bit number of feet ends between floor and cap, and an aircraft flying exactly that altitude is not over the cap.\<close>

lemma clamp_command_altitude_safe:
  assumes "altitude_floor \<le> altitude_cap"
  shows "\<exists>w. clamp_command_altitude ft altitude_floor altitude_cap = Some w \<and>
    altitude_floor \<le> w \<and> w \<le> altitude_cap \<and> \<not> over_altitude_cap (dbl_of_u16 w) altitude_cap"
proof -
  from clamp_search_altitude_Fin [OF assms, of "rnd_rat (of_int (uint ft) * metres_per_foot)"]
  obtain w where w: "clamp_command_altitude ft altitude_floor altitude_cap = Some w"
    "uint w = max (uint altitude_floor)
       (min (uint altitude_cap) (trunc_int (rnd_rat (of_int (uint ft) * metres_per_foot))))"
    by (auto simp: clamp_command_altitude_def feet_to_metres_u32)
  then have "altitude_floor \<le> w" "w \<le> altitude_cap"
    using assms by (auto simp: u16_le_uint)
  then show ?thesis using w(1) by (auto simp: over_altitude_cap_def dbl_of_u16_def u16_le_uint)
qed

lemma clamp_command_altitude_safe_witness:
  "\<exists>w. clamp_command_altitude 4294967295 10 122 = Some w \<and> 10 \<le> w \<and> w \<le> 122 \<and>
     \<not> over_altitude_cap (dbl_of_u16 w) 122"
  by (rule clamp_command_altitude_safe) simp

text \<open>A higher altitude command never results in a lower commanded altitude: the feet are not wrapped before the clamp.\<close>

lemma clamp_command_altitude_mono:
  assumes "altitude_floor \<le> altitude_cap" and "ft \<le> ft'"
  shows "\<exists>w w'. clamp_command_altitude ft altitude_floor altitude_cap = Some w \<and>
    clamp_command_altitude ft' altitude_floor altitude_cap = Some w' \<and> w \<le> w'"
proof -
  have "uint ft \<le> uint ft'" using assms(2) by (simp add: word_le_def)
  then have "of_int (uint ft) * metres_per_foot \<le> of_int (uint ft') * metres_per_foot"
    using metres_per_foot_bounds(1) by (intro mult_right_mono) simp_all
  then have "trunc_int (rnd_rat (of_int (uint ft) * metres_per_foot))
      \<le> trunc_int (rnd_rat (of_int (uint ft') * metres_per_foot))"
    by (intro trunc_int_mono rnd_rat_mono)
  then show ?thesis
    using clamp_search_altitude_Fin [OF assms(1), of "rnd_rat (of_int (uint ft) * metres_per_foot)"]
      clamp_search_altitude_Fin [OF assms(1), of "rnd_rat (of_int (uint ft') * metres_per_foot)"]
    by (auto simp: clamp_command_altitude_def feet_to_metres_u32 u16_le_uint)
qed

lemma clamp_command_altitude_mono_witness:
  "\<exists>w w'. clamp_command_altitude 100 10 122 = Some w \<and> clamp_command_altitude 4294967295 10 122 = Some w' \<and> w \<le> w'"
  by (rule clamp_command_altitude_mono) simp_all

end
