(* ===== verification/Mav_Modes.thy ===== *)
theory Mav_Modes
  imports Units
begin

text \<open>
  What the autopilot connection knows about the vehicle: the flight mode that implements a
  command on an airframe (\<open>src/mav/mode-resolve.hpp\<close>), the failsafe parameters the autopilot
  is expected to hold (\<open>src/mav/failsafe-params.hpp\<close>), the table of systems heard on the link
  (\<open>src/mav/mav-sys.cpp\<close>, \<open>src/mav/internal.hpp\<close>) and the tuning parameters
  (\<open>src/mav/mav-params.hpp\<close>). The numbers of the MAVLink headers are an argument.
\<close>

section \<open>Constants of the MAVLink headers\<close>

record mavlink_consts =
  MAV_TYPE_FIXED_WING :: u8
  MAV_TYPE_QUADROTOR :: u8
  MAV_TYPE_COAXIAL :: u8
  MAV_TYPE_HELICOPTER :: u8
  MAV_TYPE_HEXAROTOR :: u8
  MAV_TYPE_OCTOROTOR :: u8
  MAV_TYPE_TRICOPTER :: u8
  MAV_TYPE_GROUND_ROVER :: u8
  PLANE_MODE_RTL :: u8
  PLANE_MODE_FLY_BY_WIRE_B :: u8
  PLANE_MODE_LOITER :: u8
  PLANE_MODE_AUTO :: u8
  COPTER_MODE_RTL :: u8
  COPTER_MODE_STABILIZE :: u8
  COPTER_MODE_POSHOLD :: u8
  COPTER_MODE_AUTO :: u8
  ROVER_MODE_RTL :: u8
  ROVER_MODE_MANUAL :: u8
  ROVER_MODE_HOLD :: u8
  ROVER_MODE_AUTO :: u8
  GPS_FIX_TYPE_NO_GPS :: u8
  GPS_FIX_TYPE_2D_FIX :: u8
  MAV_MISSION_ACCEPTED :: u8

definition is_copter_type :: "mavlink_consts \<Rightarrow> u8 \<Rightarrow> bool" where
  "is_copter_type K t =
     (t \<in> {MAV_TYPE_QUADROTOR K, MAV_TYPE_COAXIAL K, MAV_TYPE_HELICOPTER K, MAV_TYPE_HEXAROTOR K,
           MAV_TYPE_OCTOROTOR K, MAV_TYPE_TRICOPTER K})"

section \<open>Mode of a command\<close>

datatype MavModeCommand = mode_rtl | mode_manual | mode_hold | mode_auto

definition resolve_mav_mode :: "mavlink_consts \<Rightarrow> u8 \<Rightarrow> MavModeCommand \<Rightarrow> u8 option" where
  "resolve_mav_mode K autopilot_type command =
     (case command of
        mode_rtl \<Rightarrow>
          if autopilot_type = MAV_TYPE_FIXED_WING K then Some (PLANE_MODE_RTL K)
          else if is_copter_type K autopilot_type then Some (COPTER_MODE_RTL K)
          else if autopilot_type = MAV_TYPE_GROUND_ROVER K then Some (ROVER_MODE_RTL K)
          else None
      | mode_manual \<Rightarrow>
          if autopilot_type = MAV_TYPE_FIXED_WING K then Some (PLANE_MODE_FLY_BY_WIRE_B K)
          else if is_copter_type K autopilot_type then Some (COPTER_MODE_STABILIZE K)
          else if autopilot_type = MAV_TYPE_GROUND_ROVER K then Some (ROVER_MODE_MANUAL K)
          else None
      | mode_hold \<Rightarrow>
          if autopilot_type = MAV_TYPE_FIXED_WING K then Some (PLANE_MODE_LOITER K)
          else if is_copter_type K autopilot_type then Some (COPTER_MODE_POSHOLD K)
          else if autopilot_type = MAV_TYPE_GROUND_ROVER K then Some (ROVER_MODE_HOLD K)
          else None
      | mode_auto \<Rightarrow>
          if autopilot_type = MAV_TYPE_FIXED_WING K then Some (PLANE_MODE_AUTO K)
          else if is_copter_type K autopilot_type then Some (COPTER_MODE_AUTO K)
          else if autopilot_type = MAV_TYPE_GROUND_ROVER K then Some (ROVER_MODE_AUTO K)
          else None)"

fun mav_mode_command_name :: "MavModeCommand \<Rightarrow> string" where
  "mav_mode_command_name mode_rtl = ''RTL''"
| "mav_mode_command_name mode_manual = ''manual''"
| "mav_mode_command_name mode_hold = ''hold''"
| "mav_mode_command_name mode_auto = ''auto''"

section \<open>Failsafe parameters\<close>

datatype terminate_action = terminate_none | terminate_disarm | terminate_terminate

datatype vehicle_family = family_plane | family_copter | family_rover

definition resolve_vehicle_family :: "mavlink_consts \<Rightarrow> u8 \<Rightarrow> vehicle_family option" where
  "resolve_vehicle_family K autopilot_type =
     (if autopilot_type = MAV_TYPE_FIXED_WING K then Some family_plane
      else if is_copter_type K autopilot_type then Some family_copter
      else if autopilot_type = MAV_TYPE_GROUND_ROVER K then Some family_rover
      else None)"

definition gcs_failsafe_param_name :: "vehicle_family \<Rightarrow> string" where
  "gcs_failsafe_param_name family = (if family = family_plane then ''FS_GCS_ENABL'' else ''FS_GCS_ENABLE'')"

definition resolve_gcs_failsafe_param_name :: "mavlink_consts \<Rightarrow> u8 \<Rightarrow> string option" where
  "resolve_gcs_failsafe_param_name K autopilot_type =
     map_option gcs_failsafe_param_name (resolve_vehicle_family K autopilot_type)"

definition fmu_gcs_sys_id :: u8 where
  "fmu_gcs_sys_id = 200"

definition fs_options_continue_in_auto_bit :: u32 where
  "fs_options_continue_in_auto_bit = push_bit 1 1"

text \<open>
  A \<open>float\<close> is read as the double of the same value. The verdict \<open>None\<close> is a conversion to
  \<open>uint32_t\<close> outside its range. The text of the warning is not modelled.
\<close>

record FailsafeParamCheck =
  fp_name :: string
  fp_accept :: "dbl \<Rightarrow> bool option"

definition check_of :: "string \<Rightarrow> (dbl \<Rightarrow> bool option) \<Rightarrow> FailsafeParamCheck" where
  "check_of nm acc = \<lparr>fp_name = nm, fp_accept = acc\<rparr>"

definition is_nonzero :: "dbl \<Rightarrow> bool option" where
  "is_nonzero v = Some (\<not> deq v (Fin 0))"

definition is_one_of :: "rat list \<Rightarrow> dbl \<Rightarrow> bool option" where
  "is_one_of xs v = Some (\<exists>x\<in>set xs. deq v (Fin x))"

definition fs_options_ok :: "dbl \<Rightarrow> bool option" where
  "fs_options_ok v =
     map_option (\<lambda>i. and (word_of_int i) fs_options_continue_in_auto_bit = 0) (cast_int 0 4294967295 v)"

definition expected_failsafe_params :: "mavlink_consts \<Rightarrow> u8 \<Rightarrow> terminate_action \<Rightarrow> FailsafeParamCheck list" where
  "expected_failsafe_params K autopilot_type action =
     (if action = terminate_terminate
      then [check_of ''AFS_ENABLE'' is_nonzero, check_of ''AFS_TERM_ACTION'' is_nonzero] else []) @
     (case resolve_vehicle_family K autopilot_type of
        None \<Rightarrow> []
      | Some family \<Rightarrow>
          (case family of
             family_plane \<Rightarrow>
               [check_of (gcs_failsafe_param_name family) (is_one_of [1, 2]),
                check_of ''FS_LONG_ACTN'' (is_one_of [1])]
           | family_copter \<Rightarrow>
               [check_of (gcs_failsafe_param_name family) (is_one_of [1, 3]),
                check_of ''FS_OPTIONS'' fs_options_ok]
           | family_rover \<Rightarrow>
               [check_of (gcs_failsafe_param_name family) (is_one_of [1]),
                check_of ''FS_ACTION'' (is_one_of [1, 3])]) @
          [check_of ''SYSID_MYGCS'' (is_one_of [of_int (uint fmu_gcs_sys_id)])])"

section \<open>Fixed-width fields\<close>

definition pack_fixed_width_field :: "nat \<Rightarrow> string \<Rightarrow> string" where
  "pack_fixed_width_field dest_len nm =
     take (min (length nm) dest_len) nm @ replicate (dest_len - min (length nm) dest_len) (CHR 0x00)"

text \<open>A reader that copies the field into a buffer one longer sees it up to the first NUL.\<close>

definition field_text :: "string \<Rightarrow> string" where
  "field_text field = takeWhile (\<lambda>c. c \<noteq> CHR 0x00) field"

section \<open>Systems heard on the link\<close>

record mav_sys =
  ms_sysid :: u8
  ms_components :: "u8 list"
  ms_autopilot_type :: u8
  ms_flight_mode :: u8
  ms_setup :: bool
  ms_failsafe_checked :: bool
  ms_failsafe_checked_type :: u8

definition mav_sys_new :: "u8 \<Rightarrow> mav_sys" where
  "mav_sys_new t_sysid =
     \<lparr>ms_sysid = t_sysid, ms_components = [], ms_autopilot_type = 0, ms_flight_mode = 0, ms_setup = False,
      ms_failsafe_checked = False, ms_failsafe_checked_type = 0\<rparr>"

definition findComponent :: "u8 \<Rightarrow> mav_sys \<Rightarrow> mav_sys" where
  "findComponent t_compid s =
     (if t_compid \<in> set (ms_components s) then s else s\<lparr>ms_components := ms_components s @ [t_compid]\<rparr>)"

definition resetSetup :: "mav_sys \<Rightarrow> mav_sys" where
  "resetSetup s = s\<lparr>ms_setup := False, ms_failsafe_checked := False\<rparr>"

definition checkedFailsafeFor :: "u8 \<Rightarrow> mav_sys \<Rightarrow> bool" where
  "checkedFailsafeFor t s = (ms_failsafe_checked s \<and> ms_failsafe_checked_type s = t)"

definition markFailsafeCheckedFor :: "u8 \<Rightarrow> mav_sys \<Rightarrow> mav_sys" where
  "markFailsafeCheckedFor t s = s\<lparr>ms_failsafe_checked_type := t, ms_failsafe_checked := True\<rparr>"

fun findExistingSystem :: "u8 \<Rightarrow> mav_sys list \<Rightarrow> mav_sys option" where
  "findExistingSystem t_sysid [] = None"
| "findExistingSystem t_sysid (s # ss) =
     (if ms_sysid s = t_sysid then Some s else findExistingSystem t_sysid ss)"

text \<open>The list once the system exists, and an update of the object that was found.\<close>

definition findSystem :: "u8 \<Rightarrow> mav_sys list \<Rightarrow> mav_sys list" where
  "findSystem t_sysid ss =
     (if findExistingSystem t_sysid ss = None then ss @ [mav_sys_new t_sysid] else ss)"

fun onSystem :: "u8 \<Rightarrow> (mav_sys \<Rightarrow> mav_sys) \<Rightarrow> mav_sys list \<Rightarrow> mav_sys list" where
  "onSystem t_sysid f [] = []"
| "onSystem t_sysid f (s # ss) =
     (if ms_sysid s = t_sysid then f s # ss else s # onSystem t_sysid f ss)"

definition resetAllSetup :: "mav_sys list \<Rightarrow> mav_sys list" where
  "resetAllSetup ss = map resetSetup ss"

section \<open>Tuning parameters\<close>

record MavParams =
  mp_goto_altitude_m :: u16
  mp_altitude_floor_m :: u16
  mp_altitude_cap_m :: u16
  mp_position_stream_interval_us :: u32
  mp_battery_stream_interval_us :: u32
  mp_mav_connect_timeout_ms :: u32
  mp_mav_send_timeout_ms :: u32

definition MavParams_default :: MavParams where
  "MavParams_default =
     \<lparr>mp_goto_altitude_m = 50, mp_altitude_floor_m = 10, mp_altitude_cap_m = 122,
      mp_position_stream_interval_us = 200000, mp_battery_stream_interval_us = 1000000,
      mp_mav_connect_timeout_ms = 5000, mp_mav_send_timeout_ms = 2000\<rparr>"

section \<open>Lemmas\<close>

lemma findExistingSystem_findSystem:
  "findExistingSystem i (findSystem j ss) =
   (if findExistingSystem j ss = None \<and> i = j then Some (mav_sys_new j) else findExistingSystem i ss)"
proof -
  have "findExistingSystem i (ss @ [s]) =
        (case findExistingSystem i ss of None \<Rightarrow> if ms_sysid s = i then Some s else None | Some x \<Rightarrow> Some x)" for s
    by (induction ss) auto
  then show ?thesis by (auto simp: findSystem_def mav_sys_new_def split: option.splits)
qed

lemma findExistingSystem_sysid: "findExistingSystem i ss = Some s \<Longrightarrow> ms_sysid s = i"
  by (induction ss) (auto split: if_splits)

lemma findExistingSystem_onSystem:
  assumes "\<And>s. ms_sysid (f s) = ms_sysid s"
  shows "findExistingSystem i (onSystem j f ss) =
         (if i = j then map_option f (findExistingSystem i ss) else findExistingSystem i ss)"
  by (induction ss) (auto simp: assms)

lemma findExistingSystem_resetAllSetup [simp]:
  "findExistingSystem i (resetAllSetup ss) = map_option resetSetup (findExistingSystem i ss)"
  by (induction ss) (auto simp: resetAllSetup_def resetSetup_def)

text \<open>The airframes that can be commanded are exactly those whose failsafe set is known.\<close>

lemma resolve_mav_mode_iff: "resolve_mav_mode K t cmd = None \<longleftrightarrow> resolve_vehicle_family K t = None"
  by (cases cmd) (auto simp: resolve_mav_mode_def resolve_vehicle_family_def)

lemma field_text_pack:
  assumes "CHR 0x00 \<notin> set nm"
  shows "field_text (pack_fixed_width_field n nm) = take n nm"
proof -
  have "takeWhile (\<lambda>c. c \<noteq> CHR 0x00) (take n nm @ replicate k (CHR 0x00)) = take n nm" for k
    using assms by (cases k) (auto simp: takeWhile_append2 takeWhile_tail dest: in_set_takeD)
  moreover have "take (min (length nm) n) nm = take n nm" by (simp add: min_def)
  ultimately show ?thesis by (simp only: field_text_def pack_fixed_width_field_def)
qed

lemma length_pack_fixed_width_field [simp]: "length (pack_fixed_width_field n nm) = n"
  by (simp add: pack_fixed_width_field_def min_def)

definition failsafe_names_ok :: "FailsafeParamCheck list \<Rightarrow> bool" where
  "failsafe_names_ok ps =
     (distinct (map fp_name ps) \<and>
      (\<forall>p\<in>set ps. length (fp_name p) \<le> 16 \<and> CHR 0x00 \<notin> set (fp_name p)))"

lemma expected_failsafe_params_names: "failsafe_names_ok (expected_failsafe_params K t action)"
  by (cases "resolve_vehicle_family K t"; cases action)
     (auto simp: failsafe_names_ok_def expected_failsafe_params_def check_of_def gcs_failsafe_param_name_def
       split: vehicle_family.splits)

end
