(* ===== verification/Mav_Link.thy ===== *)
theory Mav_Link
  imports FMU_Prelude
begin

text \<open>
  The decisions about the link to the autopilot that are pure functions of the clock,
  \<open>src/mav/mav-comms.hpp\<close>: whether the link is up, whether its socket is to be retired, whether
  the autopilot restarted; and the backoff of \<open>mav_connection::attemptReconnect\<close>
  (\<open>src/mav/mavlink.cpp\<close>).
\<close>

section \<open>Decisions\<close>

definition mav_comms_is_up :: "bool \<Rightarrow> u64 \<Rightarrow> u64 \<Rightarrow> u64 \<Rightarrow> bool" where
  "mav_comms_is_up fd_open now last_heartbeat_ts timeout_ms =
     (if \<not> fd_open then False
      else if now < last_heartbeat_ts then True
      else now - last_heartbeat_ts \<le> timeout_ms)"

definition mav_link_should_retire :: "bool \<Rightarrow> u64 \<Rightarrow> u64 \<Rightarrow> u64 \<Rightarrow> u64 \<Rightarrow> bool" where
  "mav_link_should_retire fd_open now last_heartbeat_ts connected_since_ts timeout_ms =
     (if \<not> fd_open then False
      else let last_contact = max last_heartbeat_ts connected_since_ts
        in if now < last_contact then False else now - last_contact > timeout_ms)"

definition autopilot_restart_margin_ms :: u32 where
  "autopilot_restart_margin_ms = 3000"

definition autopilot_restarted :: "u32 \<Rightarrow> u32 \<Rightarrow> u32 \<Rightarrow> bool" where
  "autopilot_restarted last_time_boot_ms now_time_boot_ms margin_ms =
     (if last_time_boot_ms = 0 \<or> now_time_boot_ms = 0 \<or> now_time_boot_ms \<ge> last_time_boot_ms then False
      else last_time_boot_ms - now_time_boot_ms > margin_ms)"

text \<open>How long the reconnector waits before the dial after \<open>retry_count\<close> dials that failed.\<close>

definition reconnect_backoff_ms :: "u16 \<Rightarrow> u64" where
  "reconnect_backoff_ms retry_count =
     (if retry_count = 0 then 1000
      else if retry_count = 1 then 2 * 1000
      else if retry_count = 2 then 4 * 1000
      else if retry_count = 3 then 8 * 1000
      else if retry_count = 4 then 15 * 1000
      else 30 * 1000)"

definition reconnect_due :: "u16 \<Rightarrow> u64 \<Rightarrow> bool" where
  "reconnect_due retry_count elapsed_time = (elapsed_time > reconnect_backoff_ms retry_count)"

section \<open>Lemmas\<close>

text \<open>On a clock that has not gone back the differences are the elapsed times.\<close>

lemma mav_comms_is_up_iff:
  assumes "hb \<le> now"
  shows "mav_comms_is_up fd now hb timeout \<longleftrightarrow> fd \<and> unat now \<le> unat hb + unat timeout"
  using assms by (auto simp: mav_comms_is_up_def word_le_nat_alt word_less_nat_alt unat_sub)

lemma mav_link_should_retire_iff:
  assumes "hb \<le> now" and "since \<le> now"
  shows "mav_link_should_retire fd now hb since timeout \<longleftrightarrow>
         fd \<and> unat hb + unat timeout < unat now \<and> unat since + unat timeout < unat now"
proof -
  have "max hb since \<le> now" using assms by simp
  moreover have "unat (max hb since) = max (unat hb) (unat since)"
    by (simp add: max_def word_le_nat_alt)
  ultimately show ?thesis
    by (auto simp: mav_link_should_retire_def Let_def word_le_nat_alt word_less_nat_alt unat_sub)
qed

text \<open>A socket that is retired was down before: the retirement needs the stronger evidence.\<close>

lemma retired_is_down:
  "mav_link_should_retire fd now hb since timeout \<Longrightarrow> \<not> mav_comms_is_up fd now hb timeout \<or> now < hb \<or> \<not> fd"
  by (auto simp: mav_link_should_retire_def mav_comms_is_up_def Let_def max_def word_le_nat_alt word_less_nat_alt
        unat_sub split: if_splits)

lemma autopilot_restarted_iff:
  "autopilot_restarted prev now margin \<longleftrightarrow>
     prev \<noteq> 0 \<and> now \<noteq> 0 \<and> unat now + unat margin < unat prev"
  by (auto simp: autopilot_restarted_def word_le_nat_alt word_less_nat_alt unat_sub)

lemma reconnect_backoff_ge: "1000 \<le> reconnect_backoff_ms n"
  by (simp add: reconnect_backoff_ms_def)

lemma reconnect_due_elapsed:
  assumes "reconnect_due n (now - prev)" and "prev \<le> now"
  shows "unat prev + 1000 < unat now"
proof -
  have "unat (reconnect_backoff_ms n) < unat now - unat prev"
    using assms by (simp add: reconnect_due_def word_less_nat_alt unat_sub)
  moreover have "1000 \<le> unat (reconnect_backoff_ms n)"
    using reconnect_backoff_ge [of n] by (simp add: word_le_nat_alt)
  ultimately show ?thesis by linarith
qed

end
