(* ===== verification/Mission_Plan.thy ===== *)
theory Mission_Plan
  imports FMU_Prelude
begin

text \<open>
  The layout of an uploaded mission, \<open>src/mav/mission-plan.hpp\<close>: which item answers a
  sequence number, how many items are advertised, and the two maps between search points and
  sequence numbers. A \<open>size_t\<close> is a 64-bit word.
\<close>

section \<open>The plan\<close>

type_synonym size_t = "64 word"

datatype MissionItemKind = kind_takeoff | kind_search_point | kind_goto_point | kind_rtl

datatype MissionPlanMode = plan_search | plan_go_to

record MissionItem =
  mi_kind :: MissionItemKind
  mi_point_index :: size_t

definition MissionItem_of :: "MissionItemKind \<Rightarrow> MissionItem" where
  "MissionItem_of k = \<lparr>mi_kind = k, mi_point_index = 0\<rparr>"

definition search_first_point_seq :: u16 where
  "search_first_point_seq = 2"

text \<open>The addition is in \<open>int\<close>; the cast keeps its low 16 bits.\<close>

definition search_point_mission_seq :: "int \<Rightarrow> u16" where
  "search_point_mission_seq point_index = word_of_int (point_index + uint search_first_point_seq)"

text \<open>Its caller guards the precondition asserted there.\<close>

definition next_search_point_after_reached_seq :: "u16 \<Rightarrow> int option" where
  "next_search_point_after_reached_seq sq =
     (if sq \<ge> search_first_point_seq then Some (uint sq - uint search_first_point_seq + 1) else None)"

definition mission_item_for :: "u16 \<Rightarrow> size_t \<Rightarrow> MissionPlanMode \<Rightarrow> MissionItem" where
  "mission_item_for sq num_points mode =
     (case mode of
        plan_go_to \<Rightarrow> if sq \<ge> 2 then MissionItem_of kind_rtl else MissionItem_of kind_goto_point
      | plan_search \<Rightarrow>
          if sq \<le> 1 then MissionItem_of kind_takeoff
          else if ucast sq > num_points + 1 then MissionItem_of kind_rtl
          else \<lparr>mi_kind = kind_search_point, mi_point_index = ucast sq - 2\<rparr>)"

definition mission_count_for :: "size_t \<Rightarrow> MissionPlanMode \<Rightarrow> size_t" where
  "mission_count_for num_points mode = (case mode of plan_go_to \<Rightarrow> 3 | plan_search \<Rightarrow> num_points + 3)"

section \<open>The mission an autopilot downloads\<close>

text \<open>It asks for the sequence numbers below the count it was sent, in order.\<close>

definition mission_items :: "size_t \<Rightarrow> MissionPlanMode \<Rightarrow> u16 \<Rightarrow> MissionItem list" where
  "mission_items num_points mode cnt = map (\<lambda>i. mission_item_for (of_nat i) num_points mode) [0..<unat cnt]"

definition search_mission :: "nat \<Rightarrow> MissionItem list" where
  "search_mission n =
     replicate 2 (MissionItem_of kind_takeoff) @
     map (\<lambda>i. \<lparr>mi_kind = kind_search_point, mi_point_index = of_nat i\<rparr>) [0..<n] @
     [MissionItem_of kind_rtl]"

lemma mission_item_for_go_to:
  "mission_item_for sq n plan_go_to = MissionItem_of (if sq \<ge> 2 then kind_rtl else kind_goto_point)"
  by (simp add: mission_item_for_def)

lemma unat_of_nat_u16: "i < 65536 \<Longrightarrow> unat (of_nat i :: u16) = i"
  by (simp add: unat_of_nat)

lemma unat_of_nat_size: "i < 2 ^ 64 \<Longrightarrow> unat (of_nat i :: size_t) = i"
  by (simp add: unat_of_nat)

lemma ucast_of_nat_u16: "i < 65536 \<Longrightarrow> (ucast (of_nat i :: u16) :: size_t) = of_nat i"
  by (simp add: unsigned_of_nat take_bit_nat_eq_self)

lemma ucast_of_nat_down: "(ucast (of_nat i :: size_t) :: u16) = of_nat i"
  by (simp add: word_unat_eq_iff unsigned_ucast_eq unsigned_of_nat)

lemmas plan_mode_simps = MissionPlanMode.case

lemma mission_item_for_search:
  assumes "i < 65536" and "n < 65536"
  shows "mission_item_for (of_nat i) (of_nat n) plan_search =
         (if i \<le> 1 then MissionItem_of kind_takeoff
          else if i > n + 1 then MissionItem_of kind_rtl
          else \<lparr>mi_kind = kind_search_point, mi_point_index = of_nat (i - 2)\<rparr>)"
proof -
  have "unat (of_nat n + 1 :: size_t) = n + 1"
    using assms unat_of_nat_size [of "n + 1"] by (simp add: add.commute)
  hence "(of_nat i :: size_t) > of_nat n + 1 \<longleftrightarrow> i > n + 1"
    using assms by (simp add: word_less_nat_alt unat_of_nat_size)
  moreover have "(of_nat i :: u16) \<le> 1 \<longleftrightarrow> i \<le> 1"
    by (simp add: word_le_nat_alt unat_of_nat_u16 assms)
  moreover have "(of_nat i :: size_t) - 2 = of_nat (i - 2)" if "\<not> i \<le> 1"
    using that by (simp add: of_nat_diff)
  ultimately show ?thesis
    unfolding mission_item_for_def by (simp only: ucast_of_nat_u16 [OF assms(1)] plan_mode_simps) simp
qed

lemma unat_ucast_size: "unat (ucast (sq :: u16) :: size_t) = unat sq"
proof -
  have "unat sq < 65536" using unsigned_less [of sq] by simp
  then show ?thesis using unat_of_nat_size [of "unat sq"] by simp
qed

lemma mission_item_for_index:
  assumes "mi_kind (mission_item_for sq (of_nat n) plan_search) = kind_search_point" and "n < 2 ^ 31"
  shows "unat (mi_point_index (mission_item_for sq (of_nat n) plan_search)) < n"
proof -
  have n: "unat (of_nat n + 1 :: size_t) = n + 1"
    using assms(2) unat_of_nat_size [of "n + 1"] by (simp add: add.commute)
  from assms(1) have s: "\<not> sq \<le> 1" "\<not> ucast sq > (of_nat n + 1 :: size_t)"
    by (auto simp: mission_item_for_def MissionItem_of_def split: if_splits)
  have u: "unat (ucast sq :: size_t) = unat sq"
    by (rule unat_ucast_size)
  have "2 \<le> unat sq" using s(1) by (simp add: word_le_nat_alt)
  moreover have "unat sq \<le> n + 1" using s(2) n u by (simp add: word_less_nat_alt)
  moreover have "unat (ucast sq - 2 :: size_t) = unat sq - 2"
    using \<open>2 \<le> unat sq\<close> u by (simp add: unat_sub word_le_nat_alt)
  ultimately show ?thesis using s by (simp add: mission_item_for_def)
qed

lemma mission_count_for_search:
  assumes "n < 65536"
  shows "(ucast (mission_count_for (of_nat n) plan_search) :: u16) = of_nat (n + 3)"
proof -
  have "mission_count_for (of_nat n) plan_search = (of_nat (n + 3) :: size_t)"
    by (simp add: mission_count_for_def)
  thus ?thesis by (simp only: ucast_of_nat_down)
qed

lemma mission_items_search:
  assumes "n + 3 < 65536"
  shows "mission_items (of_nat n) plan_search (of_nat (n + 3)) = search_mission n"
proof (rule nth_equalityI)
  have cnt: "unat (of_nat (n + 3) :: u16) = n + 3" using assms by (rule unat_of_nat_u16)
  show len: "length (mission_items (of_nat n) plan_search (of_nat (n + 3))) = length (search_mission n)"
    by (simp add: mission_items_def search_mission_def cnt del: of_nat_add)
  fix i
  assume "i < length (mission_items (of_nat n) plan_search (of_nat (n + 3)))"
  hence i: "i < n + 3" by (simp add: mission_items_def cnt del: of_nat_add)
  hence "mission_items (of_nat n) plan_search (of_nat (n + 3)) ! i =
         mission_item_for (of_nat i) (of_nat n) plan_search"
    by (simp add: mission_items_def cnt del: of_nat_add)
  thus "mission_items (of_nat n) plan_search (of_nat (n + 3)) ! i = search_mission n ! i"
    using i assms
    by (auto simp: mission_item_for_search search_mission_def nth_append nth_Cons' numeral_2_eq_2)
qed

lemma search_point_mission_seq_range:
  assumes "0 \<le> i" and "i + 2 < 65536"
  shows "uint (search_point_mission_seq i) = i + 2"
  unfolding search_point_mission_seq_def search_first_point_seq_def uint_word_of_int
  using assms by simp

text \<open>C15: an autopilot that downloads the advertised number of items gets the whole search, each point once and in order after the two setup items, and the return to launch last; resuming at a point jumps to the item of that point, and reaching that item makes the next point the resume point.\<close>

theorem search_mission_complete:
  assumes "n + 3 < 65536"
  shows "mission_items (of_nat n) plan_search (ucast (mission_count_for (of_nat n) plan_search)) = search_mission n \<and>
         (\<forall>i<n. mission_item_for (search_point_mission_seq (int i)) (of_nat n) plan_search =
                 \<lparr>mi_kind = kind_search_point, mi_point_index = of_nat i\<rparr> \<and>
                next_search_point_after_reached_seq (search_point_mission_seq (int i)) = Some (int i + 1))"
proof (intro conjI allI impI)
  show "mission_items (of_nat n) plan_search (ucast (mission_count_for (of_nat n) plan_search)) = search_mission n"
    using assms mission_count_for_search [of n] mission_items_search [of n] by simp
  fix i
  assume "i < n"
  hence r: "uint (search_point_mission_seq (int i)) = int i + 2"
    using assms by (intro search_point_mission_seq_range) auto
  hence w: "search_point_mission_seq (int i) = of_nat (i + 2)"
    by (metis of_int_of_nat_eq of_nat_add of_nat_numeral word_of_int_uint)
  show "mission_item_for (search_point_mission_seq (int i)) (of_nat n) plan_search =
        \<lparr>mi_kind = kind_search_point, mi_point_index = of_nat i\<rparr>"
    using mission_item_for_search [of "i + 2" n] assms \<open>i < n\<close> w by simp
  show "next_search_point_after_reached_seq (search_point_mission_seq (int i)) = Some (int i + 1)"
    using r by (simp add: next_search_point_after_reached_seq_def search_first_point_seq_def word_le_def)
qed

theorem search_mission_complete_witness:
  "map mi_kind (mission_items (of_nat 2) plan_search (ucast (mission_count_for (of_nat 2) plan_search))) =
     [kind_takeoff, kind_takeoff, kind_search_point, kind_search_point, kind_rtl]"
  using search_mission_complete [of 2] by (simp add: search_mission_def MissionItem_of_def numeral_2_eq_2)

text \<open>With more points the advertised count, cast to 16 bits, no longer covers the mission.\<close>

lemma mission_count_wraps: "(ucast (mission_count_for (of_nat 65533) plan_search) :: u16) = 0"
  using mission_count_for_search [of 65533] by simp

end
