(* ===== verification/Work_Queue.thy ===== *)
theory Work_Queue
  imports FMU_Prelude
begin

text \<open>
  The contract of the task queues of the worker threads: a task is appended, may replace
  queued tasks that it makes obsolete, or may be absorbed by one that is already queued.
  The workers of \<open>src/fss/fss.cpp\<close> and \<open>src/smm/smm.cpp\<close> rely on it. A history of the
  queue interleaves the enqueues of any thread with the dequeues of the worker: each holds
  the queue mutex, so it is one step.
\<close>

datatype 'a queue_op = Enq 'a | Deq

fun queue_step :: "('a \<Rightarrow> 'a list \<Rightarrow> 'a list) \<Rightarrow> 'a queue_op \<Rightarrow> 'a list \<Rightarrow> 'a list \<times> 'a list" where
  "queue_step enq (Enq x) q = (enq x q, [])"
| "queue_step enq Deq q = (case q of [] \<Rightarrow> ([], []) | x # q' \<Rightarrow> (q', [x]))"

text \<open>The queue after a history, and the tasks the worker took, oldest first.\<close>

fun queue_run :: "('a \<Rightarrow> 'a list \<Rightarrow> 'a list) \<Rightarrow> 'a list \<Rightarrow> 'a queue_op list \<Rightarrow> 'a list \<times> 'a list" where
  "queue_run enq q [] = (q, [])"
| "queue_run enq q (op # ops) =
     (case queue_step enq op q of (q1, out) \<Rightarrow> (case queue_run enq q1 ops of (q2, out') \<Rightarrow> (q2, out @ out')))"

fun enqueued :: "'a queue_op list \<Rightarrow> 'a list" where
  "enqueued [] = []"
| "enqueued (Enq x # ops) = x # enqueued ops"
| "enqueued (Deq # ops) = enqueued ops"

lemma length_filter_filter: "length (filter P (filter Q xs)) \<le> length (filter P xs)"
  by (induction xs) simp_all

locale task_queue =
  fixes enq :: "'a \<Rightarrow> 'a list \<Rightarrow> 'a list"
    and replaces :: "'a \<Rightarrow> 'a \<Rightarrow> bool"
    and absorbed :: "'a \<Rightarrow> 'a list \<Rightarrow> bool"
    and durable :: "'a \<Rightarrow> bool"
  assumes enq_eq: "enq x q = (if absorbed x q then q else filter (\<lambda>y. \<not> replaces x y) q @ [x])"
    and durable_kept: "durable y \<Longrightarrow> \<not> replaces x y"
    and durable_taken: "durable x \<Longrightarrow> \<not> absorbed x q"
begin

lemma durable_enq: "filter durable (enq x q) = filter durable q @ filter durable [x]"
proof -
  have "filter durable (filter (\<lambda>y. \<not> replaces x y) q) = filter durable q"
    by (auto simp: durable_kept intro!: filter_cong)
  then show ?thesis using durable_taken by (auto simp: enq_eq)
qed

text \<open>Durable tasks leave the queue in the order they entered, none lost and none twice.\<close>

lemma durable_step:
  "filter durable (snd (queue_step enq op q) @ fst (queue_step enq op q)) =
     filter durable q @ filter durable (enqueued [op])"
  by (cases op) (auto simp: durable_enq split: list.splits)

lemma durable_fifo:
  "filter durable (snd (queue_run enq q ops) @ fst (queue_run enq q ops)) = filter durable (q @ enqueued ops)"
proof (induction ops arbitrary: q)
  case (Cons op ops)
  let ?q1 = "fst (queue_step enq op q)" and ?out = "snd (queue_step enq op q)"
  have "enqueued (op # ops) = enqueued [op] @ enqueued ops" by (cases op) simp_all
  then have "filter durable (q @ enqueued (op # ops)) = filter durable (?out @ ?q1) @ filter durable (enqueued ops)"
    using durable_step [of op q] by (simp only: filter_append append.assoc [symmetric])
  also have "\<dots> = filter durable ?out @ filter durable (?q1 @ enqueued ops)" by simp
  finally show ?case using Cons.IH [of ?q1] by (simp add: case_prod_unfold)
qed simp

text \<open>Nothing leaves the queue that did not enter it.\<close>

lemma enq_subset: "set (enq x q) \<subseteq> insert x (set q)"
  by (auto simp: enq_eq)

lemma run_subset:
  "set (snd (queue_run enq q ops)) \<union> set (fst (queue_run enq q ops)) \<subseteq> set q \<union> set (enqueued ops)"
proof (induction ops arbitrary: q)
  case (Cons op ops)
  show ?case
  proof (cases op)
    case (Enq x)
    then show ?thesis using Cons.IH [of "enq x q"] enq_subset [of x q] by (auto simp: case_prod_unfold)
  next
    case Deq
    then show ?thesis using Cons.IH [of "tl q"] by (auto simp: case_prod_unfold split: list.splits)
  qed
qed simp

end

text \<open>A class of tasks of which at most one may wait in the queue.\<close>

locale single_task_queue = task_queue +
  fixes single :: "'a \<Rightarrow> bool"
  assumes single_enq: "single x \<Longrightarrow> \<not> absorbed x q \<Longrightarrow> filter single (filter (\<lambda>y. \<not> replaces x y) q) = []"
begin

lemma single_kept: "length (filter single q) \<le> 1 \<Longrightarrow> length (filter single (enq x q)) \<le> 1"
proof -
  assume q: "length (filter single q) \<le> 1"
  have "length (filter single (filter (\<lambda>y. \<not> replaces x y) q)) \<le> length (filter single q)"
    by (rule length_filter_filter)
  then show ?thesis using q single_enq [of x q] by (cases "absorbed x q"; cases "single x") (simp_all add: enq_eq)
qed

lemma single_run:
  "length (filter single q) \<le> 1 \<Longrightarrow> length (filter single (fst (queue_run enq q ops))) \<le> 1"
proof (induction ops arbitrary: q)
  case (Cons op ops)
  have "length (filter single (fst (queue_step enq op q))) \<le> 1"
    using Cons.prems single_kept by (cases op) (auto split: list.splits if_splits)
  then show ?case using Cons.IH by (simp add: case_prod_unfold)
qed simp

end

section \<open>Coalescing\<close>

text \<open>
  What a coalescing queue may do to a class of tasks: the tasks that come through are those
  that went in, in order, and one is left out only if it is of the class and a later one of
  the class went in.
\<close>

inductive coalesced :: "('a \<Rightarrow> bool) \<Rightarrow> 'a list \<Rightarrow> 'a list \<Rightarrow> bool" for p where
  Nothing: "coalesced p [] []"
| Through: "coalesced p ys xs \<Longrightarrow> coalesced p (x # ys) (x # xs)"
| Superseded: "p x \<Longrightarrow> list_ex p xs \<Longrightarrow> coalesced p ys xs \<Longrightarrow> coalesced p ys (x # xs)"

lemma coalesced_append: "coalesced p ys xs \<Longrightarrow> coalesced p (ys @ [x]) (xs @ [x])"
  by (induction rule: coalesced.induct) (auto intro: coalesced.intros)

text \<open>A new task of the class may push every waiting one out.\<close>

lemma coalesced_push:
  assumes "coalesced p zs xs" and "p x"
  shows "zs = ks @ qs \<Longrightarrow> coalesced p (ks @ filter (\<lambda>y. \<not> p y) qs @ [x]) (xs @ [x])"
  using assms(1)
proof (induction arbitrary: ks qs rule: coalesced.induct)
  case (Through ys xs y)
  show ?case
  proof (cases ks)
    case Nil
    then have "qs = y # ys" using Through.prems by simp
    then show ?thesis using Nil Through.IH [of "[]" ys] assms(2) by (auto intro: coalesced.intros)
  next
    case (Cons k ks')
    then show ?thesis using Through.prems Through.IH [of ks' qs] by (auto intro: coalesced.Through)
  qed
qed (auto intro: coalesced.intros)

lemma coalesced_others: "coalesced p ys xs \<Longrightarrow> filter (\<lambda>y. \<not> p y) ys = filter (\<lambda>y. \<not> p y) xs"
  by (induction rule: coalesced.induct) simp_all

lemma coalesced_last:
  "coalesced p ys xs \<Longrightarrow> (filter p ys = [] \<longleftrightarrow> filter p xs = []) \<and> (filter p ys = [] \<or> last (filter p ys) = last (filter p xs))"
  by (induction rule: coalesced.induct) (auto simp: list_ex_iff filter_empty_conv)

text \<open>
  A worker that was told to stop still runs every task that is queued, then returns. The
  loop of the code is this recursion over the queue.
\<close>

lemma queue_run_drain: "queue_run enq q (replicate (length q) Deq) = ([], q)"
  by (induction q) (auto simp: case_prod_unfold)

end
