(* ===== verification/Smm_Worker.thy ===== *)
theory Smm_Worker
  imports Units Work_Queue
begin

text \<open>
  The search client: \<open>src/smm/smm.cpp\<close>, \<open>src/smm/smm.hpp\<close>, \<open>src/smm/smm-types.hpp\<close> and
  \<open>src/smm/search-acquire.hpp\<close>. The public methods run on the event loop and only flip the
  searching role or enqueue a task; a worker thread runs the tasks. A worker task is long, so
  the worker has a program counter, \<open>smm_at\<close>: it stops before each access to state that the
  event loop shares (the task queue, the searching role, the held search, the published count)
  and inside each call of the server, and the event loop may run at every such point. The
  library \<open>smm-asset\<close> is not part of the repository: its answers are the environment of a
  step. A search object is shared through \<open>shared_ptr\<close> and is named by its position in a
  store. Log lines are not modelled.
\<close>

section \<open>Searches\<close>

record SMMSearch =
  ss_points :: "point list"
  ss_current_point :: int
  ss_altitude :: "u16 option"
  ss_handle :: "nat option"
  ss_valid :: bool

definition parse_waypoints :: "point list \<Rightarrow> point list \<times> bool" where
  "parse_waypoints wps =
     fold (\<lambda>wp (pts, all_valid). (pts @ [wp], all_valid \<and> Point_isValid wp)) wps ([], True)"

text \<open>The waypoints are \<open>None\<close> when their fetch failed. An altitude \<open>None\<close> is undefined.\<close>

definition SMMSearch_new ::
  "(dbl \<Rightarrow> dbl) \<Rightarrow> nat \<Rightarrow> point list option \<Rightarrow> dbl \<Rightarrow> u16 \<Rightarrow> u16 \<Rightarrow> dbl \<Rightarrow> SMMSearch" where
  "SMMSearch_new tan_fn t_search waypoints sweep_width alt_cap alt_floor fov_deg =
     (let (pts, ok) =
            (case waypoints of
               None \<Rightarrow> ([], False)
             | Some wps \<Rightarrow> if length wps > 0 then parse_waypoints wps else ([], False))
      in \<lparr>ss_points = pts, ss_current_point = 0,
          ss_altitude = clamp_search_altitude (raw_search_altitude tan_fn sweep_width fov_deg) alt_floor alt_cap,
          ss_handle = Some t_search, ss_valid = ok\<rparr>)"

definition getPointsCount :: "SMMSearch \<Rightarrow> int" where
  "getPointsCount ss = int (length (ss_points ss))"

text \<open>Reports whether the search is complete, and the handle completed and destroyed if so.\<close>

definition SMMSearch_reachedPoint :: "int \<Rightarrow> SMMSearch \<Rightarrow> SMMSearch \<times> nat option" where
  "SMMSearch_reachedPoint pt ss =
     (case ss_handle ss of
        Some h \<Rightarrow> if pt \<ge> getPointsCount ss then (ss\<lparr>ss_handle := None\<rparr>, Some h)
                  else (ss\<lparr>ss_current_point := pt\<rparr>, None)
      | None \<Rightarrow> (ss\<lparr>ss_current_point := pt\<rparr>, None))"

section \<open>Tasks and state\<close>

datatype SmmTask =
    ConnectTask string string string string
  | ReportPositionTask PositionData
  | ReachedPointTask int
  | SearchTask point
  | RetryPendingTask point

fun is_ReportPositionTask :: "SmmTask \<Rightarrow> bool" where
  "is_ReportPositionTask (ReportPositionTask _) = True" | "is_ReportPositionTask _ = False"

fun is_RetryPendingTask :: "SmmTask \<Rightarrow> bool" where
  "is_RetryPendingTask (RetryPendingTask _) = True" | "is_RetryPendingTask _ = False"

datatype smm_asset_command =
    SMM_COMMAND_UNKNOWN | SMM_COMMAND_NONE | SMM_COMMAND_CIRCLE | SMM_COMMAND_RTL | SMM_COMMAND_GOTO
  | SMM_COMMAND_CONTINUE | SMM_COMMAND_ABANDON_SEARCH | SMM_COMMAND_MISSION_COMPLETE

text \<open>
  Where the worker thread is. \<open>At_publish\<close> and \<open>At_store_points\<close> are the two writes of
  \<open>publishSearch\<close>, with the code that called it; the others are the wait for a task, the
  calls of the server (\<open>At_report\<close>, \<open>At_fetch\<close>, \<open>At_waypoints\<close>, \<open>At_accept\<close>) and the
  reads of the searching role (\<open>At_maybe\<close>, \<open>At_fetched\<close>, \<open>At_candidate\<close>, \<open>At_refused\<close>);
  at \<open>At_commit\<close> the role has been read for the last time and the accept is about to be asked for.
  The counter of an acquire is its number of retries.
\<close>

datatype publish_from = From_abandon PositionData u64 | From_complete | From_acquire nat

datatype worker_at =
    At_wait
  | At_returned
  | At_publish "nat option" int publish_from
  | At_store_points int publish_from
  | At_report PositionData u64
  | At_maybe point
  | At_fetch point nat
  | At_fetched "nat option" point nat
  | At_waypoints nat point nat
  | At_candidate nat nat point nat
  | At_commit nat nat point nat
  | At_accept nat nat point nat
  | At_refused nat nat point nat

text \<open>The asset is its index in the list of assets of the connection.\<close>

record SMM =
  smm_conn :: bool
  smm_host :: string
  smm_user :: string
  smm_pass :: string
  smm_asset_name :: string
  smm_altitude_cap :: u16
  smm_altitude_floor :: u16
  smm_camera_fov_deg :: dbl
  current_search :: "nat option"
  current_search_points :: int
  assets_list :: "string list option"
  asset :: "nat option"
  position_report_last_ts :: u64
  position_report_interval_ms :: u64
  search_active :: bool
  search_retry_ts :: u64
  last_seen_operator_command :: smm_asset_command
  load_search_cb :: bool
  rtl_cb :: bool
  operator_command_cb :: bool
  smm_queue :: "SmmTask list"
  smm_worker_running :: bool
  smm_at :: worker_at
  searches :: "SMMSearch list"

definition SMM_init :: "u16 \<Rightarrow> u16 \<Rightarrow> dbl \<Rightarrow> u64 \<Rightarrow> SMM" where
  "SMM_init alt_cap alt_floor fov_deg interval_ms =
     \<lparr>smm_conn = False, smm_host = [], smm_user = [], smm_pass = [], smm_asset_name = [],
      smm_altitude_cap = alt_cap, smm_altitude_floor = alt_floor, smm_camera_fov_deg = fov_deg,
      current_search = None, current_search_points = 0, assets_list = None, asset = None,
      position_report_last_ts = 0, position_report_interval_ms = interval_ms, search_active = False,
      search_retry_ts = 0, last_seen_operator_command = SMM_COMMAND_UNKNOWN, load_search_cb = False,
      rtl_cb = False, operator_command_cb = False, smm_queue = [], smm_worker_running = True, smm_at = At_wait,
      searches = []\<rparr>"

definition registerLoadSearchCB :: "bool \<Rightarrow> SMM \<Rightarrow> SMM" where
  "registerLoadSearchCB cb s = s\<lparr>load_search_cb := cb\<rparr>"

definition registerRtlCB :: "bool \<Rightarrow> SMM \<Rightarrow> SMM" where
  "registerRtlCB cb s = s\<lparr>rtl_cb := cb\<rparr>"

definition registerOperatorCommandCB :: "bool \<Rightarrow> SMM \<Rightarrow> SMM" where
  "registerOperatorCommandCB cb s = s\<lparr>operator_command_cb := cb\<rparr>"

text \<open>What the worker asks of the library and reports through its callbacks.\<close>

datatype smm_out =
    Smm_rtl
  | Smm_load nat
  | Smm_operator SMMCommand
  | Smm_fetch dbl dbl
  | Smm_accept nat
  | Smm_destroy nat
  | Smm_complete nat
  | Smm_report_position dbl dbl "i32 option" int
  | Smm_free_assets
  | Smm_close

section \<open>Operations of the event loop\<close>

definition smm_enqueue_task :: "SmmTask \<Rightarrow> SmmTask list \<Rightarrow> SmmTask list" where
  "smm_enqueue_task task q =
     (if is_ReportPositionTask task then filter (\<lambda>t. \<not> is_ReportPositionTask t) q @ [task]
      else if is_RetryPendingTask task \<and> list_ex is_RetryPendingTask q then q
      else q @ [task])"

definition smm_enqueue :: "SmmTask \<Rightarrow> SMM \<Rightarrow> SMM" where
  "smm_enqueue task s = s\<lparr>smm_queue := smm_enqueue_task task (smm_queue s)\<rparr>"

definition SMM_connect :: "string \<Rightarrow> string \<Rightarrow> string \<Rightarrow> string \<Rightarrow> SMM \<Rightarrow> SMM" where
  "SMM_connect t_host t_user t_pass t_asset_name s = smm_enqueue (ConnectTask t_host t_user t_pass t_asset_name) s"

definition SMM_reportPosition :: "PositionData \<Rightarrow> SMM \<Rightarrow> SMM" where
  "SMM_reportPosition t_pd s = smm_enqueue (ReportPositionTask t_pd) s"

definition SMM_retryPendingSearch :: "point \<Rightarrow> SMM \<Rightarrow> SMM" where
  "SMM_retryPendingSearch current_pos s = smm_enqueue (RetryPendingTask current_pos) s"

definition SMM_search :: "point \<Rightarrow> SMM \<Rightarrow> SMM" where
  "SMM_search current_pos s = smm_enqueue (SearchTask current_pos) (s\<lparr>search_active := True\<rparr>)"

definition SMM_cancelSearch :: "SMM \<Rightarrow> SMM" where
  "SMM_cancelSearch s = s\<lparr>search_active := False\<rparr>"

text \<open>What the destructor does before it joins the worker.\<close>

definition SMM_stop :: "SMM \<Rightarrow> SMM" where
  "SMM_stop s = s\<lparr>smm_worker_running := False\<rparr>"

definition SMM_reachedPoint :: "int \<Rightarrow> SMM \<Rightarrow> SMM" where
  "SMM_reachedPoint pt s = smm_enqueue (ReachedPointTask pt) s"

definition currentSearchPoints :: "SMM \<Rightarrow> int" where
  "currentSearchPoints s = current_search_points s"

datatype loop_op =
    Loop_connect string string string string
  | Loop_reportPosition PositionData
  | Loop_retryPendingSearch point
  | Loop_search point
  | Loop_cancelSearch
  | Loop_reachedPoint int
  | Loop_stop

fun loop_step :: "loop_op \<Rightarrow> SMM \<Rightarrow> SMM" where
  "loop_step (Loop_connect h u w a) s = SMM_connect h u w a s"
| "loop_step (Loop_reportPosition pd) s = SMM_reportPosition pd s"
| "loop_step (Loop_retryPendingSearch pos) s = SMM_retryPendingSearch pos s"
| "loop_step (Loop_search pos) s = SMM_search pos s"
| "loop_step Loop_cancelSearch s = SMM_cancelSearch s"
| "loop_step (Loop_reachedPoint pt) s = SMM_reachedPoint pt s"
| "loop_step Loop_stop s = SMM_stop s"

section \<open>Acquiring a search\<close>

datatype SearchAcquireAction = acquire_backoff | acquire_disconnected_rtl | acquire_fetch

definition search_acquire_action :: "bool \<Rightarrow> u64 \<Rightarrow> u64 \<Rightarrow> SearchAcquireAction" where
  "search_acquire_action asset_present retry_ts now =
     (if retry_ts > now then acquire_backoff
      else if \<not> asset_present then acquire_disconnected_rtl
      else acquire_fetch)"

definition search_retry_interval_ms :: u64 where
  "search_retry_interval_ms = 5000"

definition hasHeldSearch :: "SMM \<Rightarrow> bool" where
  "hasHeldSearch s = (current_search s \<noteq> None)"

text \<open>
  The held search is written under its lock, the count that the event loop reads without the
  lock is stored afterwards: two steps of the worker.
\<close>

definition publishSearch :: "nat option \<Rightarrow> publish_from \<Rightarrow> SMM \<Rightarrow> SMM" where
  "publishSearch acquired from s =
     s\<lparr>smm_at := At_publish acquired (case acquired of Some i \<Rightarrow> getPointsCount (searches s ! i) | None \<Rightarrow> 0) from\<rparr>"

definition publish_search_locked :: "nat option \<Rightarrow> int \<Rightarrow> publish_from \<Rightarrow> SMM \<Rightarrow> SMM" where
  "publish_search_locked acquired points from s =
     s\<lparr>current_search := acquired, smm_at := At_store_points points from\<rparr>"

definition report_rtl :: "SMM \<Rightarrow> smm_out list" where
  "report_rtl s = (if rtl_cb s then [Smm_rtl] else [])"

definition start_fetch :: "point \<Rightarrow> nat \<Rightarrow> SMM \<Rightarrow> SMM \<times> smm_out list" where
  "start_fetch current_pos retries s =
     (s\<lparr>smm_at := At_fetch current_pos retries\<rparr>, [Smm_fetch (latitude current_pos) (longitude current_pos)])"

definition tryAcquireSearch :: "u64 \<Rightarrow> point \<Rightarrow> SMM \<Rightarrow> SMM \<times> smm_out list" where
  "tryAcquireSearch curr_ts current_pos s =
     (case search_acquire_action (asset s \<noteq> None) (search_retry_ts s) curr_ts of
        acquire_backoff \<Rightarrow> (s\<lparr>smm_at := At_wait\<rparr>, [])
      | acquire_disconnected_rtl \<Rightarrow>
          (s\<lparr>search_retry_ts := curr_ts + search_retry_interval_ms, smm_at := At_wait\<rparr>, report_rtl s)
      | acquire_fetch \<Rightarrow> start_fetch current_pos 0 s)"

text \<open>The role is read after the fetch, before anything is built.\<close>

definition acquire_fetched :: "u64 \<Rightarrow> nat option \<Rightarrow> point \<Rightarrow> nat \<Rightarrow> SMM \<Rightarrow> SMM \<times> smm_out list" where
  "acquire_fetched now new_search current_pos retries s =
     (if \<not> search_active s
      then (s\<lparr>smm_at := At_wait\<rparr>, case new_search of Some h \<Rightarrow> [Smm_destroy h] | None \<Rightarrow> [])
      else (case new_search of
              None \<Rightarrow> (s\<lparr>search_retry_ts := now + search_retry_interval_ms, smm_at := At_wait\<rparr>, report_rtl s)
            | Some h \<Rightarrow> (s\<lparr>smm_at := At_waypoints h current_pos retries\<rparr>, [])))"

text \<open>The candidate object is appended to the store.\<close>

definition acquire_build ::
  "(dbl \<Rightarrow> dbl) \<Rightarrow> point list option \<Rightarrow> dbl \<Rightarrow> nat \<Rightarrow> point \<Rightarrow> nat \<Rightarrow> SMM \<Rightarrow> SMM" where
  "acquire_build tan_fn waypoints sweep_width h current_pos retries s =
     s\<lparr>searches := searches s @ [SMMSearch_new tan_fn h waypoints sweep_width
          (smm_altitude_cap s) (smm_altitude_floor s) (smm_camera_fov_deg s)],
       smm_at := At_candidate h (length (searches s)) current_pos retries\<rparr>"

text \<open>The read of the role that guards the commitment, and the commitment.\<close>

definition acquire_check :: "nat \<Rightarrow> nat \<Rightarrow> point \<Rightarrow> nat \<Rightarrow> SMM \<Rightarrow> SMM" where
  "acquire_check h i current_pos retries s =
     (if search_active s \<and> ss_valid (searches s ! i)
      then s\<lparr>smm_at := At_commit h i current_pos retries\<rparr>
      else s\<lparr>smm_at := At_refused h i current_pos retries\<rparr>)"

definition commitSearch :: "nat \<Rightarrow> nat \<Rightarrow> point \<Rightarrow> nat \<Rightarrow> SMM \<Rightarrow> SMM \<times> smm_out list" where
  "commitSearch h i current_pos retries s = (s\<lparr>smm_at := At_accept h i current_pos retries\<rparr>, [Smm_accept h])"

definition acquire_answered :: "bool \<Rightarrow> nat \<Rightarrow> nat \<Rightarrow> point \<Rightarrow> nat \<Rightarrow> SMM \<Rightarrow> SMM" where
  "acquire_answered accepted h i current_pos retries s =
     (if accepted then publishSearch (Some i) (From_acquire i) s
      else s\<lparr>smm_at := At_refused h i current_pos retries\<rparr>)"

text \<open>When the candidate is dropped its handle is destroyed.\<close>

definition acquire_refused :: "u64 \<Rightarrow> nat \<Rightarrow> point \<Rightarrow> nat \<Rightarrow> SMM \<Rightarrow> SMM \<times> smm_out list" where
  "acquire_refused now h current_pos retries s =
     (if \<not> search_active s then (s\<lparr>smm_at := At_wait\<rparr>, [Smm_destroy h])
      else if retries + 1 \<ge> 3
      then (s\<lparr>search_retry_ts := now + search_retry_interval_ms, smm_at := At_wait\<rparr>, report_rtl s @ [Smm_destroy h])
      else (case start_fetch current_pos (retries + 1) s of (s1, out) \<Rightarrow> (s1, Smm_destroy h # out)))"

definition maybeAcquire :: "u64 \<Rightarrow> point \<Rightarrow> SMM \<Rightarrow> SMM \<times> smm_out list" where
  "maybeAcquire curr_ts current_pos s =
     (if search_active s \<and> \<not> hasHeldSearch s then tryAcquireSearch curr_ts current_pos s
      else (s\<lparr>smm_at := At_wait\<rparr>, []))"

section \<open>Worker tasks\<close>

text \<open>What the clock and the library answer at one step.\<close>

record smm_env =
  se_tan :: "dbl \<Rightarrow> dbl"
  se_now :: u64
  se_last_command :: smm_asset_command
  se_state_connected :: bool
  se_connects :: bool
  se_logged_in :: bool
  se_assets :: "string list option"
  se_search :: "nat option"
  se_waypoints :: "point list option"
  se_sweep_width :: dbl
  se_accepted :: bool

definition SMM_disconnect :: "SMM \<Rightarrow> SMM \<times> smm_out list" where
  "SMM_disconnect s =
     (let (s1, o1) = (if assets_list s \<noteq> None
                      then (s\<lparr>asset := None, assets_list := None\<rparr>, [Smm_free_assets]) else (s, []));
          (s2, o2) = (if smm_conn s1 then (s1\<lparr>smm_conn := False\<rparr>, [Smm_close]) else (s1, []))
      in (s2, o1 @ o2))"

text \<open>\<open>strcmp\<close> reads up to the first NUL.\<close>

definition c_str :: "string \<Rightarrow> string" where
  "c_str s = takeWhile (\<lambda>c. c \<noteq> CHR 0x00) s"

fun find_asset :: "string \<Rightarrow> string list \<Rightarrow> nat \<Rightarrow> nat option" where
  "find_asset name [] i = None"
| "find_asset name (a # rest) i = (if c_str a = c_str name then Some i else find_asset name rest (i + 1))"

definition SMM_do_connect :: "smm_env \<Rightarrow> SMM \<Rightarrow> SMM \<times> smm_out list" where
  "SMM_do_connect env s =
     (let s1 = s\<lparr>smm_conn := se_connects env\<rparr>
      in if \<not> smm_conn s1 then (s1, [])
         else if \<not> se_logged_in env then SMM_disconnect s1
         else (case se_assets env of
                 Some names \<Rightarrow>
                   let s2 = s1\<lparr>assets_list := Some names\<rparr>
                   in (case find_asset (smm_asset_name s2) names 0 of
                         Some i \<Rightarrow> (s2\<lparr>asset := Some i\<rparr>, [])
                       | None \<Rightarrow> if asset s2 = None then SMM_disconnect s2 else (s2, []))
               | None \<Rightarrow> SMM_disconnect s1))"

definition doConnect :: "smm_env \<Rightarrow> string \<Rightarrow> string \<Rightarrow> string \<Rightarrow> string \<Rightarrow> SMM \<Rightarrow> SMM \<times> smm_out list" where
  "doConnect env t_host t_user t_pass t_asset_name s =
     (let (s1, o1) =
            (if smm_conn s \<and> (smm_host s \<noteq> t_host \<or> smm_user s \<noteq> t_user \<or> smm_pass s \<noteq> t_pass \<or>
                 smm_asset_name s \<noteq> t_asset_name \<or> \<not> se_state_connected env)
             then SMM_disconnect s else (s, []))
      in if \<not> smm_conn s1
         then (case SMM_do_connect env (s1\<lparr>smm_host := t_host, smm_user := t_user, smm_pass := t_pass,
                   smm_asset_name := t_asset_name\<rparr>) of (s2, o2) \<Rightarrow> (s2, o1 @ o2))
         else (s1, o1))"

text \<open>The altitude of a report: \<open>lround\<close> of the metres, cast to 32 bits.\<close>

definition smm_report_altitude :: "dbl \<Rightarrow> i32 option" where
  "smm_report_altitude alt_m = (if isfinite alt_m then map_option word_of_int (lround alt_m) else Some 0)"

definition start_report :: "PositionData \<Rightarrow> u64 \<Rightarrow> SMM \<Rightarrow> SMM \<times> smm_out list" where
  "start_report t_pd curr_ts s =
     (s\<lparr>smm_at := At_report t_pd curr_ts\<rparr>,
      [Smm_report_position (latitude (pd_p t_pd)) (longitude (pd_p t_pd))
         (smm_report_altitude (pd_alt_m t_pd)) (uint (pd_hdg t_pd) div 100)])"

text \<open>
  An abandon goes on in \<open>publishSearch\<close>, whose second write then comes back to the report;
  every other command goes on with the report at once.
\<close>

definition checkOperatorCommand ::
  "smm_asset_command \<Rightarrow> PositionData \<Rightarrow> u64 \<Rightarrow> SMM \<Rightarrow> SMM \<times> smm_out list" where
  "checkOperatorCommand cmd t_pd curr_ts s =
     (if cmd = last_seen_operator_command s then start_report t_pd curr_ts s
      else let s1 = s\<lparr>last_seen_operator_command := cmd\<rparr>
        in case cmd of
             SMM_COMMAND_ABANDON_SEARCH \<Rightarrow> (publishSearch None (From_abandon t_pd curr_ts) s1, [])
           | SMM_COMMAND_MISSION_COMPLETE \<Rightarrow>
               (case start_report t_pd curr_ts s1 of (s2, out) \<Rightarrow>
                  (s2, (if operator_command_cb s1 then [Smm_operator smm_cmd_mission_complete] else []) @ out))
           | _ \<Rightarrow> start_report t_pd curr_ts s1)"

definition doReportPosition :: "smm_env \<Rightarrow> PositionData \<Rightarrow> SMM \<Rightarrow> SMM \<times> smm_out list" where
  "doReportPosition env t_pd s =
     (if asset s \<noteq> None \<and> position_report_last_ts s + position_report_interval_ms s \<le> se_now env
      then checkOperatorCommand (se_last_command env) t_pd (se_now env) s
      else (s\<lparr>smm_at := At_maybe (pd_p t_pd)\<rparr>, []))"

definition report_answered :: "PositionData \<Rightarrow> u64 \<Rightarrow> SMM \<Rightarrow> SMM" where
  "report_answered t_pd curr_ts s = s\<lparr>position_report_last_ts := curr_ts, smm_at := At_maybe (pd_p t_pd)\<rparr>"

definition doSearch :: "smm_env \<Rightarrow> point \<Rightarrow> SMM \<Rightarrow> SMM \<times> smm_out list" where
  "doSearch env current_pos s =
     (let s1 = s\<lparr>search_retry_ts := 0\<rparr>
      in case current_search s1 of
           Some i \<Rightarrow> (s1\<lparr>smm_at := At_wait\<rparr>, if load_search_cb s1 then [Smm_load i] else [])
         | None \<Rightarrow> tryAcquireSearch (se_now env) current_pos s1)"

definition doReachedPoint :: "int \<Rightarrow> SMM \<Rightarrow> SMM \<times> smm_out list" where
  "doReachedPoint pt s =
     (case current_search s of
        None \<Rightarrow> (s\<lparr>smm_at := At_wait\<rparr>, [])
      | Some i \<Rightarrow>
          (case SMMSearch_reachedPoint pt (searches s ! i) of
             (ss, done) \<Rightarrow>
               let s1 = s\<lparr>searches := (searches s)[i := ss]\<rparr>
               in (case done of
                     Some h \<Rightarrow> (publishSearch None From_complete s1, [Smm_complete h, Smm_destroy h])
                   | None \<Rightarrow> (s1\<lparr>smm_at := At_wait\<rparr>, []))))"

text \<open>The second write of \<open>publishSearch\<close> and what its caller does next.\<close>

definition publish_points :: "int \<Rightarrow> publish_from \<Rightarrow> SMM \<Rightarrow> SMM \<times> smm_out list" where
  "publish_points points from s =
     (let s1 = s\<lparr>current_search_points := points\<rparr>
      in case from of
           From_abandon t_pd curr_ts \<Rightarrow>
             (case start_report t_pd curr_ts (s1\<lparr>search_retry_ts := 0\<rparr>) of (s2, out) \<Rightarrow>
                (s2, (if operator_command_cb s1 then [Smm_operator smm_cmd_abandon_search] else []) @ out))
         | From_complete \<Rightarrow> (s1\<lparr>smm_at := At_wait\<rparr>, report_rtl s1)
         | From_acquire i \<Rightarrow>
             (s1\<lparr>search_retry_ts := 0, smm_at := At_wait\<rparr>, if load_search_cb s1 then [Smm_load i] else []))"

fun SMM_run_task :: "smm_env \<Rightarrow> SmmTask \<Rightarrow> SMM \<Rightarrow> SMM \<times> smm_out list" where
  "SMM_run_task env (ConnectTask h u w a) s = doConnect env h u w a s"
| "SMM_run_task env (ReportPositionTask pd) s = doReportPosition env pd s"
| "SMM_run_task env (ReachedPointTask pt) s = doReachedPoint pt s"
| "SMM_run_task env (SearchTask pos) s = doSearch env pos s"
| "SMM_run_task env (RetryPendingTask pos) s = (s\<lparr>smm_at := At_maybe pos\<rparr>, [])"

text \<open>The worker at its wait: it returns, waits on, or takes a task and begins it.\<close>

definition SMM_worker_turn :: "smm_env \<Rightarrow> SMM \<Rightarrow> SMM \<times> smm_out list" where
  "SMM_worker_turn env s =
     (case smm_queue s of
        [] \<Rightarrow> if smm_worker_running s then (s, []) else (s\<lparr>smm_at := At_returned\<rparr>, [])
      | task # q \<Rightarrow> SMM_run_task env task (s\<lparr>smm_queue := q\<rparr>))"

text \<open>One step of the worker, from wherever it is to its next access of shared state or call.\<close>

definition SMM_worker_step :: "smm_env \<Rightarrow> SMM \<Rightarrow> SMM \<times> smm_out list" where
  "SMM_worker_step env s =
     (case smm_at s of
        At_wait \<Rightarrow> SMM_worker_turn env s
      | At_returned \<Rightarrow> (s, [])
      | At_publish acquired points from \<Rightarrow> (publish_search_locked acquired points from s, [])
      | At_store_points points from \<Rightarrow> publish_points points from s
      | At_report t_pd curr_ts \<Rightarrow> (report_answered t_pd curr_ts s, [])
      | At_maybe pos \<Rightarrow> maybeAcquire (se_now env) pos s
      | At_fetch pos k \<Rightarrow> (s\<lparr>smm_at := At_fetched (se_search env) pos k\<rparr>, [])
      | At_fetched new_search pos k \<Rightarrow> acquire_fetched (se_now env) new_search pos k s
      | At_waypoints h pos k \<Rightarrow>
          (acquire_build (se_tan env) (se_waypoints env) (se_sweep_width env) h pos k s, [])
      | At_candidate h i pos k \<Rightarrow> (acquire_check h i pos k s, [])
      | At_commit h i pos k \<Rightarrow> commitSearch h i pos k s
      | At_accept h i pos k \<Rightarrow> (acquire_answered (se_accepted env) h i pos k s, [])
      | At_refused h i pos k \<Rightarrow> acquire_refused (se_now env) h pos k s)"

text \<open>What the destructor does once the worker has been joined.\<close>

definition SMM_joined :: "SMM \<Rightarrow> SMM \<times> smm_out list" where
  "SMM_joined s = (case SMM_disconnect s of (s1, out) \<Rightarrow> (s1\<lparr>current_search := None\<rparr>, out))"

text \<open>A history: operations of the event loop and steps of the worker, in any order.\<close>

datatype smm_event = Smm_loop loop_op | Smm_worker smm_env

fun smm_step :: "smm_event \<Rightarrow> SMM \<Rightarrow> SMM \<times> smm_out list" where
  "smm_step (Smm_loop op) s = (loop_step op s, [])"
| "smm_step (Smm_worker env) s = SMM_worker_step env s"

fun smm_run :: "smm_event list \<Rightarrow> SMM \<Rightarrow> SMM \<times> smm_out list" where
  "smm_run [] s = (s, [])"
| "smm_run (e # es) s =
     (case smm_step e s of (s1, out) \<Rightarrow> (case smm_run es s1 of (s2, out') \<Rightarrow> (s2, out @ out')))"

text \<open>The application registers the three callbacks before any activity.\<close>

definition SMM_started :: "u16 \<Rightarrow> u16 \<Rightarrow> dbl \<Rightarrow> u64 \<Rightarrow> SMM" where
  "SMM_started alt_cap alt_floor fov_deg interval_ms =
     registerOperatorCommandCB True (registerRtlCB True (registerLoadSearchCB True
       (SMM_init alt_cap alt_floor fov_deg interval_ms)))"

section \<open>The queue keeps its contract\<close>

interpretation smm_reports: single_task_queue smm_enqueue_task
    "\<lambda>x y. is_ReportPositionTask x \<and> is_ReportPositionTask y" "\<lambda>x q. is_RetryPendingTask x \<and> list_ex is_RetryPendingTask q"
    "\<lambda>t. \<not> is_ReportPositionTask t \<and> \<not> is_RetryPendingTask t" is_ReportPositionTask
proof unfold_locales
  fix x y :: SmmTask and q :: "SmmTask list"
  have "\<not> (is_ReportPositionTask x \<and> is_RetryPendingTask x)" by (cases x) simp_all
  then show "smm_enqueue_task x q = (if is_RetryPendingTask x \<and> list_ex is_RetryPendingTask q then q
      else filter (\<lambda>y. \<not> (is_ReportPositionTask x \<and> is_ReportPositionTask y)) q @ [x])"
    by (auto simp: smm_enqueue_task_def)
qed auto

interpretation smm_retries: single_task_queue smm_enqueue_task
    "\<lambda>x y. is_ReportPositionTask x \<and> is_ReportPositionTask y" "\<lambda>x q. is_RetryPendingTask x \<and> list_ex is_RetryPendingTask q"
    "\<lambda>t. \<not> is_ReportPositionTask t \<and> \<not> is_RetryPendingTask t" is_RetryPendingTask
proof unfold_locales
  fix x :: SmmTask and q :: "SmmTask list"
  assume "is_RetryPendingTask x" "\<not> (is_RetryPendingTask x \<and> list_ex is_RetryPendingTask q)"
  then show "filter is_RetryPendingTask (filter (\<lambda>y. \<not> (is_ReportPositionTask x \<and> is_ReportPositionTask y)) q) = []"
    by (auto simp: filter_empty_conv list_ex_iff)
qed

text \<open>C23: the search worker's queue holds at most one position report and one retry, so it cannot build a backlog while a request is slow, and it delivers every connect, search and reached-point task once and in order.\<close>

theorem smm_queue_bounded_and_complete:
  "length (filter is_ReportPositionTask (fst (queue_run smm_enqueue_task [] ops))) \<le> 1 \<and>
   length (filter is_RetryPendingTask (fst (queue_run smm_enqueue_task [] ops))) \<le> 1 \<and>
   filter (\<lambda>t. \<not> is_ReportPositionTask t \<and> \<not> is_RetryPendingTask t)
     (snd (queue_run smm_enqueue_task [] ops) @ fst (queue_run smm_enqueue_task [] ops)) =
   filter (\<lambda>t. \<not> is_ReportPositionTask t \<and> \<not> is_RetryPendingTask t) (enqueued ops)"
  using smm_reports.single_run [of "[]" ops] smm_retries.single_run [of "[]" ops]
    smm_reports.durable_fifo [of "[]" ops] by simp

section \<open>Searches are valid\<close>

lemma parse_waypoints_fold:
  "fold (\<lambda>wp (pts, all_valid). (pts @ [wp], all_valid \<and> Point_isValid wp)) wps (pts, b) =
     (pts @ wps, b \<and> list_all Point_isValid wps)"
  by (induction wps arbitrary: pts b) auto

lemma parse_waypoints_eq: "parse_waypoints wps = (wps, list_all Point_isValid wps)"
  by (simp add: parse_waypoints_def parse_waypoints_fold)

lemma SMMSearch_new_simps [simp]:
  "ss_handle (SMMSearch_new tn h w sw c f fov) = Some h"
  "ss_valid (SMMSearch_new tn h w sw c f fov) \<longleftrightarrow> (\<exists>wps. w = Some wps \<and> wps \<noteq> [] \<and> list_all Point_isValid wps)"
  "ss_points (SMMSearch_new tn h w sw c f fov) = (case w of Some wps \<Rightarrow> wps | None \<Rightarrow> [])"
  by (auto simp: SMMSearch_new_def parse_waypoints_eq Let_def split: option.splits)

lemma raw_search_altitude_number:
  assumes "tan_fn (half_fov_rad fov) = Fin t" and "pow2 (- 1022) \<le> t"
  shows "raw_search_altitude tan_fn (Fin w) fov \<noteq> NaN"
proof (cases "rnd (t * 2)")
  case (Fin y)
  have p: "0 < t" using assms(2) pow2_pos [of "- 1022"] by linarith
  have "\<bar>rnd_rat (t * 2) - t * 2\<bar> \<le> \<bar>t * 2\<bar> / 2 ^ 53"
    using assms(2) p by (intro rnd_rat_rel) simp
  moreover have "\<bar>t * 2\<bar> / 2 ^ 53 < t * 2" using p by simp
  ultimately have "rnd_rat (t * 2) \<noteq> 0" by linarith
  moreover have "y = rnd_rat (t * 2)" using Fin by (simp add: rnd_alt split: if_splits)
  ultimately show ?thesis using Fin assms(1) by (simp add: raw_search_altitude_def)
qed (use assms(1) in \<open>simp_all add: raw_search_altitude_def\<close>)

text \<open>A search is flown between floor and cap: for every finite sweep width and every field of view whose half angle has a positive tangent, the altitude derived for a new search is defined and in range.\<close>

lemma SMMSearch_altitude_safe:
  assumes "alt_floor \<le> alt_cap" and "tan_fn (half_fov_rad fov) = Fin t" and "pow2 (- 1022) \<le> t"
  shows "\<exists>a. ss_altitude (SMMSearch_new tan_fn h wps (Fin w) alt_cap alt_floor fov) = Some a \<and>
    alt_floor \<le> a \<and> a \<le> alt_cap"
  using clamp_search_altitude_bounds [OF assms(1) raw_search_altitude_number [where tan_fn = tan_fn, OF assms(2,3)]]
  by (simp add: SMMSearch_new_def case_prod_unfold Let_def)

lemma SMMSearch_altitude_safe_witness:
  "\<exists>a. ss_altitude (SMMSearch_new (\<lambda>_. Fin 1) 4 None (Fin 30) 122 10 (Fin 90)) = Some a \<and> 10 \<le> a \<and> a \<le> 122"
proof (rule SMMSearch_altitude_safe)
  show "pow2 (- 1022) \<le> 1" using pow2_mono [of "- 1022" 0] by simp
qed simp_all

text \<open>The queue of the worker is a run of the contract's queue: each operation enqueues, and each turn that finds a task dequeues.\<close>

fun smm_queue_ops :: "smm_event \<Rightarrow> SMM \<Rightarrow> SmmTask queue_op list" where
  "smm_queue_ops (Smm_loop (Loop_connect h u w a)) s = [Enq (ConnectTask h u w a)]"
| "smm_queue_ops (Smm_loop (Loop_reportPosition pd)) s = [Enq (ReportPositionTask pd)]"
| "smm_queue_ops (Smm_loop (Loop_retryPendingSearch pos)) s = [Enq (RetryPendingTask pos)]"
| "smm_queue_ops (Smm_loop (Loop_search pos)) s = [Enq (SearchTask pos)]"
| "smm_queue_ops (Smm_loop (Loop_reachedPoint pt)) s = [Enq (ReachedPointTask pt)]"
| "smm_queue_ops (Smm_loop _) s = []"
| "smm_queue_ops (Smm_worker env) s = (if smm_at s = At_wait then [Deq] else [])"

section \<open>The shared state of the worker\<close>

text \<open>
  A held search is usable: it has waypoints, all valid, and a live handle on the server.
  \<open>held_points\<close> is the count that the event loop ought to read.
\<close>

definition search_usable :: "SMMSearch \<Rightarrow> bool" where
  "search_usable ss \<longleftrightarrow> ss_points ss \<noteq> [] \<and> list_all Point_isValid (ss_points ss) \<and> ss_handle ss \<noteq> None"

definition points_of :: "nat option \<Rightarrow> SMM \<Rightarrow> int" where
  "points_of held s = (case held of Some i \<Rightarrow> getPointsCount (searches s ! i) | None \<Rightarrow> 0)"

abbreviation held_points :: "SMM \<Rightarrow> int" where
  "held_points s \<equiv> points_of (current_search s) s"

definition usable_in :: "nat option \<Rightarrow> SMM \<Rightarrow> bool" where
  "usable_in held s = pred_option (\<lambda>i. i < length (searches s) \<and> search_usable (searches s ! i)) held"

text \<open>The state that the event loop cannot change.\<close>

definition same_search :: "SMM \<Rightarrow> SMM \<Rightarrow> bool" where
  "same_search s t \<longleftrightarrow> current_search t = current_search s \<and> searches t = searches s \<and>
     current_search_points t = current_search_points s"

lemma smm_enqueue_frame [simp]:
  "current_search (smm_enqueue t s) = current_search s" "searches (smm_enqueue t s) = searches s"
  "current_search_points (smm_enqueue t s) = current_search_points s" "smm_at (smm_enqueue t s) = smm_at s"
  "search_active (smm_enqueue t s) = search_active s" "smm_queue (smm_enqueue t s) = smm_enqueue_task t (smm_queue s)"
  by (simp_all add: smm_enqueue_def)

lemmas loop_defs = SMM_connect_def SMM_reportPosition_def SMM_retryPendingSearch_def SMM_search_def
  SMM_cancelSearch_def SMM_reachedPoint_def SMM_stop_def

lemma loop_step_frame [simp]: "same_search s (loop_step op s)" "smm_at (loop_step op s) = smm_at s"
  by (cases op; simp add: loop_defs same_search_def)+

lemma same_search_upd [simp]:
  "same_search s (s\<lparr>smm_at := a\<rparr>)" "same_search s (s\<lparr>search_retry_ts := x, smm_at := a\<rparr>)"
  "same_search s (s\<lparr>smm_queue := q\<rparr>)" "same_search s s"
  by (simp_all add: same_search_def)

lemma same_search_trans: "same_search s t \<Longrightarrow> same_search t u \<Longrightarrow> same_search s u"
  by (simp add: same_search_def)

lemma same_search_disconnect [simp]: "same_search s (fst (SMM_disconnect s))" "smm_at (fst (SMM_disconnect s)) = smm_at s"
  "search_active (fst (SMM_disconnect s)) = search_active s" "smm_queue (fst (SMM_disconnect s)) = smm_queue s"
  by (simp_all add: same_search_def SMM_disconnect_def case_prod_unfold Let_def)

lemma same_search_connect [simp]:
  "same_search s (fst (doConnect env h u w a s))" "smm_at (fst (doConnect env h u w a s)) = smm_at s"
  "search_active (fst (doConnect env h u w a s)) = search_active s" "smm_queue (fst (doConnect env h u w a s)) = smm_queue s"
  by (auto simp: doConnect_def SMM_do_connect_def SMM_disconnect_def same_search_def case_prod_unfold Let_def
      split: option.splits)

lemmas step_defs = commitSearch_def SMM_worker_step_def SMM_worker_turn_def doReportPosition_def checkOperatorCommand_def
  start_report_def report_answered_def doSearch_def doReachedPoint_def tryAcquireSearch_def start_fetch_def
  acquire_fetched_def acquire_build_def acquire_check_def commitSearch_def acquire_answered_def acquire_refused_def
  maybeAcquire_def publishSearch_def publish_search_locked_def publish_points_def report_rtl_def

lemma queue_frame [simp]:
  "smm_queue (fst (tryAcquireSearch ts pos s)) = smm_queue s"
  "smm_queue (fst (checkOperatorCommand cmd pd ts s)) = smm_queue s"
  "smm_queue (fst (SMM_run_task env task s)) = smm_queue s"
proof -
  show a: "smm_queue (fst (tryAcquireSearch ts pos s)) = smm_queue s" for ts pos s
    by (simp add: tryAcquireSearch_def start_fetch_def split: SearchAcquireAction.splits)
  show c: "smm_queue (fst (checkOperatorCommand cmd pd ts s)) = smm_queue s" for cmd pd ts s
    by (cases cmd) (simp_all add: checkOperatorCommand_def start_report_def publishSearch_def Let_def)
  show "smm_queue (fst (SMM_run_task env task s)) = smm_queue s"
    by (cases task) (auto simp: a c doReportPosition_def doSearch_def doReachedPoint_def publishSearch_def
        Let_def case_prod_unfold split: option.splits)
qed

lemma worker_queue:
  "smm_queue (fst (SMM_worker_step env s)) = (if smm_at s = At_wait then tl (smm_queue s) else smm_queue s)"
  by (cases "smm_at s") (auto simp: SMM_worker_step_def SMM_worker_turn_def start_report_def report_answered_def
      start_fetch_def acquire_fetched_def acquire_build_def acquire_check_def commitSearch_def acquire_answered_def acquire_refused_def
      maybeAcquire_def publishSearch_def publish_search_locked_def publish_points_def Let_def
      split: list.splits option.splits publish_from.splits)

fun smm_ops :: "smm_event list \<Rightarrow> SMM \<Rightarrow> SmmTask queue_op list" where
  "smm_ops [] s = []"
| "smm_ops (e # es) s = smm_queue_ops e s @ smm_ops es (fst (smm_step e s))"

lemma queue_run_append: "fst (queue_run enq q (xs @ ys)) = fst (queue_run enq (fst (queue_run enq q xs)) ys)"
  by (induction xs arbitrary: q) (simp_all add: case_prod_unfold)

lemma queue_ops_step:
  "smm_queue (fst (smm_step e s)) = fst (queue_run smm_enqueue_task (smm_queue s) (smm_queue_ops e s))"
proof (cases e)
  case (Smm_loop op)
  then show ?thesis by (cases op) (simp_all add: loop_defs)
next
  case (Smm_worker env)
  then show ?thesis by (simp add: worker_queue split: list.splits)
qed

text \<open>So the bounds of the queue hold at every point of every history of the search client.\<close>

lemma smm_queue_is_run:
  "smm_queue (fst (smm_run es s)) = fst (queue_run smm_enqueue_task (smm_queue s) (smm_ops es s))"
  by (induction es arbitrary: s) (simp_all add: queue_ops_step queue_run_append case_prod_unfold)

section \<open>The invariant\<close>

definition settled :: "SMM \<Rightarrow> bool" where
  "settled s \<longleftrightarrow> usable_in (current_search s) s \<and> current_search_points s = held_points s"

text \<open>
  A completed search has lost its handle and is still the held one until the worker takes
  the lock; between its two writes the held search is new and the count is not.
\<close>

fun at_inv :: "worker_at \<Rightarrow> SMM \<Rightarrow> bool" where
  "at_inv (At_publish acquired n from) s \<longleftrightarrow>
     n = points_of acquired s \<and> usable_in acquired s \<and> current_search_points s = held_points s \<and>
     (usable_in (current_search s) s \<or> acquired = None \<and> from = From_complete \<and>
        pred_option (\<lambda>i. i < length (searches s) \<and> ss_points (searches s ! i) \<noteq> [] \<and>
          list_all Point_isValid (ss_points (searches s ! i))) (current_search s))"
| "at_inv (At_store_points n from) s \<longleftrightarrow> n = held_points s \<and> usable_in (current_search s) s"
| "at_inv (At_fetch pos k) s \<longleftrightarrow> settled s \<and> k < 3"
| "at_inv (At_fetched r pos k) s \<longleftrightarrow> settled s \<and> k < 3"
| "at_inv (At_waypoints h pos k) s \<longleftrightarrow> settled s \<and> k < 3"
| "at_inv (At_candidate h i pos k) s \<longleftrightarrow> settled s \<and> k < 3 \<and> i < length (searches s) \<and>
     (search_usable (searches s ! i) \<or> \<not> ss_valid (searches s ! i))"
| "at_inv (At_commit h i pos k) s \<longleftrightarrow> settled s \<and> k < 3 \<and> usable_in (Some i) s"
| "at_inv (At_accept h i pos k) s \<longleftrightarrow> settled s \<and> k < 3 \<and> usable_in (Some i) s"
| "at_inv (At_refused h i pos k) s \<longleftrightarrow> settled s \<and> k < 3"
| "at_inv _ s \<longleftrightarrow> settled s"

definition smm_inv :: "SMM \<Rightarrow> bool" where
  "smm_inv s = at_inv (smm_at s) s"

lemma usable_in_cong: "same_search s t \<Longrightarrow> usable_in x t = usable_in x s"
  by (simp add: usable_in_def same_search_def)

lemma points_of_cong: "same_search s t \<Longrightarrow> points_of x t = points_of x s"
  by (cases x) (simp_all add: points_of_def same_search_def)

lemma settled_cong:
  assumes "same_search s t" shows "settled t = settled s"
proof -
  have "current_search t = current_search s" "current_search_points t = current_search_points s"
    using assms by (simp_all add: same_search_def)
  then show ?thesis using usable_in_cong [OF assms] points_of_cong [OF assms] by (simp add: settled_def)
qed

lemma at_inv_cong:
  assumes "same_search s t" shows "at_inv a t = at_inv a s"
proof -
  have "current_search t = current_search s" "current_search_points t = current_search_points s"
    "searches t = searches s" using assms by (simp_all add: same_search_def)
  then show ?thesis
    using usable_in_cong [OF assms] points_of_cong [OF assms] settled_cong [OF assms] by (cases a) simp_all
qed

lemma smm_inv_moved: "same_search s t \<Longrightarrow> at_inv (smm_at t) s \<Longrightarrow> smm_inv t"
  using at_inv_cong by (simp add: smm_inv_def)

text \<open>Each piece of the worker, from a settled state.\<close>

lemma tryAcquireSearch_inv [inv_intros]: "settled s \<Longrightarrow> smm_inv (fst (tryAcquireSearch ts pos s))"
  by (rule smm_inv_moved [of s])
    (auto simp: tryAcquireSearch_def start_fetch_def split: SearchAcquireAction.splits)

lemma maybeAcquire_inv [inv_intros]: "settled s \<Longrightarrow> smm_inv (fst (maybeAcquire ts pos s))"
  by (auto simp: maybeAcquire_def tryAcquireSearch_inv intro: smm_inv_moved [of s])

lemma publish_inv [inv_intros]: "settled s \<Longrightarrow> usable_in acquired s \<Longrightarrow> smm_inv (publishSearch acquired from s)"
  by (rule smm_inv_moved [of s]) (simp_all add: publishSearch_def points_of_def settled_def)

lemma start_report_inv [inv_intros]: "settled s \<Longrightarrow> smm_inv (fst (start_report pd ts s))"
  by (rule smm_inv_moved [of s]) (simp_all add: start_report_def)

lemma checkOperatorCommand_inv [inv_intros]: "settled s \<Longrightarrow> smm_inv (fst (checkOperatorCommand cmd pd ts s))"
proof -
  assume s: "settled s"
  have seen: "settled (s\<lparr>last_seen_operator_command := cmd\<rparr>)"
    using s settled_cong [of s "s\<lparr>last_seen_operator_command := cmd\<rparr>"] by (simp add: same_search_def)
  show ?thesis
    using start_report_inv [OF s] start_report_inv [OF seen] publish_inv [OF seen, of None]
    by (cases cmd) (simp_all add: checkOperatorCommand_def Let_def case_prod_unfold usable_in_def)
qed

lemma doReportPosition_inv [inv_intros]: "settled s \<Longrightarrow> smm_inv (fst (doReportPosition env pd s))"
  by (auto simp: doReportPosition_def checkOperatorCommand_inv intro: smm_inv_moved [of s])

lemma doSearch_inv [inv_intros]: "settled s \<Longrightarrow> smm_inv (fst (doSearch env pos s))"
proof -
  assume s: "settled s"
  have u: "settled (s\<lparr>search_retry_ts := 0\<rparr>)"
    using s settled_cong [of s "s\<lparr>search_retry_ts := 0\<rparr>"] by (simp add: same_search_def)
  show ?thesis
    using tryAcquireSearch_inv [OF u] s
    by (auto simp: doSearch_def Let_def intro: smm_inv_moved [of s] split: option.splits)
qed

lemma doReachedPoint_inv [inv_intros]: "settled s \<Longrightarrow> smm_inv (fst (doReachedPoint pt s))"
proof -
  assume s: "settled s"
  show ?thesis
  proof (cases "current_search s")
    case None
    then show ?thesis using s by (auto simp: doReachedPoint_def intro: smm_inv_moved [of s])
  next
    case (Some i)
    define ss where "ss = fst (SMMSearch_reachedPoint pt (searches s ! i))"
    have i: "i < length (searches s)" "search_usable (searches s ! i)"
      "current_search_points s = getPointsCount (searches s ! i)"
      using s Some by (simp_all add: settled_def usable_in_def points_of_def)
    have pts: "ss_points ss = ss_points (searches s ! i)"
      by (simp add: ss_def SMMSearch_reachedPoint_def split: option.splits)
    show ?thesis
    proof (cases "snd (SMMSearch_reachedPoint pt (searches s ! i))")
      case None
      then have "ss_handle ss = ss_handle (searches s ! i)"
        by (simp add: ss_def SMMSearch_reachedPoint_def split: option.splits if_splits)
      then have "settled (s\<lparr>searches := (searches s)[i := ss]\<rparr>)"
        using Some i pts by (simp add: settled_def usable_in_def points_of_def search_usable_def getPointsCount_def)
      then show ?thesis
        using Some None ss_def by (auto simp: doReachedPoint_def case_prod_unfold Let_def
            intro: smm_inv_moved [of "s\<lparr>searches := (searches s)[i := ss]\<rparr>"])
    next
      case (Some h)
      then show ?thesis
        using \<open>current_search s = Some i\<close> i pts ss_def
        by (simp add: doReachedPoint_def publishSearch_def smm_inv_def points_of_def usable_in_def
            search_usable_def getPointsCount_def case_prod_unfold Let_def)
    qed
  qed
qed

lemma SMM_run_task_inv: "settled s \<Longrightarrow> smm_at s = At_wait \<Longrightarrow> smm_inv (fst (SMM_run_task env task s))"
  by (cases task) (auto simp: inv_intros intro: smm_inv_moved [of s])

lemma acquire_build_inv:
  assumes "settled s" and "k < 3"
  shows "smm_inv (acquire_build tn w sw h pos k s)"
proof -
  have "usable_in (current_search s) (acquire_build tn w sw h pos k s)"
    "points_of (current_search s) (acquire_build tn w sw h pos k s) = held_points s"
    using assms(1) by (auto simp: settled_def usable_in_def acquire_build_def points_of_def nth_append
        split: option.splits)
  then show ?thesis
    using assms by (auto simp: smm_inv_def acquire_build_def settled_def nth_append search_usable_def)
qed

lemma publish_locked_inv:
  "at_inv (At_publish acquired n from) s \<Longrightarrow> smm_inv (publish_search_locked acquired n from s)"
  by (auto simp: smm_inv_def publish_search_locked_def points_of_def usable_in_def split: option.splits)

lemma publish_points_inv:
  assumes "at_inv (At_store_points n from) s"
  shows "smm_inv (fst (publish_points n from s))" "current_search_points (fst (publish_points n from s)) = n"
    "points_of (current_search (fst (publish_points n from s))) (fst (publish_points n from s)) = n"
proof -
  let ?s1 = "s\<lparr>current_search_points := n\<rparr>"
  have set: "settled ?s1" using assms by (simp add: settled_def usable_in_def points_of_def split: option.splits)
  then have set0: "settled (?s1\<lparr>search_retry_ts := 0\<rparr>)"
    using settled_cong [of ?s1 "?s1\<lparr>search_retry_ts := 0\<rparr>"] by (simp add: same_search_def)
  have eq: "same_search ?s1 (fst (publish_points n from s))"
    by (cases "from") (simp_all add: publish_points_def start_report_def same_search_def Let_def)
  moreover have "at_inv (smm_at (fst (publish_points n from s))) ?s1"
    using set by (cases "from") (simp_all add: publish_points_def start_report_def Let_def)
  ultimately show "smm_inv (fst (publish_points n from s))" by (rule smm_inv_moved)
  show "current_search_points (fst (publish_points n from s)) = n"
    using eq by (simp add: same_search_def)
  then show "points_of (current_search (fst (publish_points n from s))) (fst (publish_points n from s)) = n"
    using set settled_cong [OF eq] by (simp add: settled_def)
qed

lemma SMM_worker_step_inv [inv_intros]: "smm_inv s \<Longrightarrow> smm_inv (fst (SMM_worker_step env s))"
proof (cases "smm_at s")
  case At_wait
  assume "smm_inv s"
  then have "settled s" using At_wait by (simp add: smm_inv_def)
  moreover have "settled (s\<lparr>smm_queue := q\<rparr>) = settled s" for q by (rule settled_cong) simp
  ultimately have "settled s" "\<And>q. settled (s\<lparr>smm_queue := q\<rparr>)" by simp_all
  then show ?thesis
    using At_wait SMM_run_task_inv smm_inv_moved [of s "s\<lparr>smm_at := At_returned\<rparr>"] \<open>smm_inv s\<close>
    by (simp add: SMM_worker_step_def SMM_worker_turn_def split: list.splits)
next
  case (At_publish acquired n "from")
  assume "smm_inv s"
  then show ?thesis using At_publish publish_locked_inv by (simp add: smm_inv_def SMM_worker_step_def)
next
  case (At_store_points n "from")
  assume "smm_inv s"
  then show ?thesis using At_store_points publish_points_inv(1) by (simp add: smm_inv_def SMM_worker_step_def)
next
  case (At_accept h i pos k)
  assume "smm_inv s"
  then show ?thesis using At_accept publish_inv [of s "Some i"]
    by (cases "se_accepted env") (simp_all add: smm_inv_def SMM_worker_step_def acquire_answered_def settled_cong [of s "s\<lparr>smm_at := At_refused h i pos k\<rparr>"])
next
  case (At_report pd ts)
  assume "smm_inv s"
  then show ?thesis using At_report
    by (intro smm_inv_moved [of s]) (simp_all add: smm_inv_def SMM_worker_step_def report_answered_def same_search_def)
next
  case (At_maybe pos)
  assume "smm_inv s"
  then show ?thesis using At_maybe maybeAcquire_inv by (simp add: smm_inv_def SMM_worker_step_def)
next
  case (At_waypoints h pos k)
  assume "smm_inv s"
  then show ?thesis using At_waypoints acquire_build_inv by (simp add: smm_inv_def SMM_worker_step_def)
next
  case (At_fetched r pos k)
  assume "smm_inv s"
  then show ?thesis using At_fetched
    by (intro smm_inv_moved [of s]) (simp_all add: smm_inv_def SMM_worker_step_def acquire_fetched_def split: option.splits)
next
  case (At_candidate h i pos k)
  assume "smm_inv s"
  then show ?thesis using At_candidate
    by (intro smm_inv_moved [of s]) (auto simp: smm_inv_def SMM_worker_step_def acquire_check_def commitSearch_def usable_in_def)
next
  case (At_commit h i pos k)
  assume "smm_inv s"
  then show ?thesis using At_commit
    by (intro smm_inv_moved [of s]) (simp_all add: smm_inv_def SMM_worker_step_def commitSearch_def)
next
  case (At_refused h i pos k)
  assume "smm_inv s"
  then show ?thesis using At_refused
    by (intro smm_inv_moved [of s]) (auto simp: smm_inv_def SMM_worker_step_def acquire_refused_def start_fetch_def)
next
  case (At_fetch pos k)
  assume "smm_inv s"
  then show ?thesis using At_fetch by (intro smm_inv_moved [of s]) (simp_all add: smm_inv_def SMM_worker_step_def)
next
  case At_returned
  assume "smm_inv s"
  then show ?thesis using At_returned by (simp add: SMM_worker_step_def)
qed

lemma smm_step_inv [inv_intros]: "smm_inv s \<Longrightarrow> smm_inv (fst (smm_step e s))"
  using at_inv_cong [OF loop_step_frame(1)] by (cases e) (auto simp: smm_inv_def intro: SMM_worker_step_inv [unfolded smm_inv_def])

lemma smm_run_inv: "smm_inv s \<Longrightarrow> smm_inv (fst (smm_run es s))"
  by (induction es arbitrary: s) (simp_all add: smm_step_inv case_prod_unfold)

lemma SMM_started_inv: "smm_inv (SMM_started alt_cap alt_floor fov interval)"
  by (simp add: smm_inv_def settled_def usable_in_def points_of_def SMM_started_def SMM_init_def
      registerLoadSearchCB_def registerRtlCB_def registerOperatorCommandCB_def)

text \<open>C0: at every point of every history of the event loop and the worker, also in the middle of a worker task, the held search has waypoints that are all valid coordinates, and a live handle on the server except while the worker is dropping it because it completed; and the count that the event loop reads without a lock is the number of waypoints of the held search, 0 with none held, except between the two writes of \<open>publishSearch\<close>, where the next step of the worker makes it so.\<close>

theorem held_search_usable:
  "let s = fst (smm_run es (SMM_started alt_cap alt_floor fov interval)) in
     (case current_search s of
        None \<Rightarrow> True
      | Some i \<Rightarrow> i < length (searches s) \<and> ss_points (searches s ! i) \<noteq> [] \<and>
          list_all Point_isValid (ss_points (searches s ! i)) \<and>
          (ss_handle (searches s ! i) \<noteq> None \<or> smm_at s = At_publish None 0 From_complete)) \<and>
     (currentSearchPoints s = held_points s \<or>
      (\<exists>from. smm_at s = At_store_points (held_points s) from \<and>
         (\<forall>env. currentSearchPoints (fst (SMM_worker_step env s)) = held_points s \<and>
                held_points (fst (SMM_worker_step env s)) = held_points s)))"
proof -
  define s where "s = fst (smm_run es (SMM_started alt_cap alt_floor fov interval))"
  have i: "at_inv (smm_at s) s" using smm_run_inv [OF SMM_started_inv] by (simp add: s_def smm_inv_def)
  have held: "case current_search s of None \<Rightarrow> True
      | Some i \<Rightarrow> i < length (searches s) \<and> ss_points (searches s ! i) \<noteq> [] \<and>
          list_all Point_isValid (ss_points (searches s ! i)) \<and>
          (ss_handle (searches s ! i) \<noteq> None \<or> smm_at s = At_publish None 0 From_complete)"
    using i by (cases "smm_at s")
      (auto simp: settled_def usable_in_def search_usable_def points_of_def split: option.splits)
  show ?thesis
  proof (cases "smm_at s")
    case (At_store_points n "from")
    then have n: "n = held_points s" using i by simp
    have "currentSearchPoints (fst (SMM_worker_step env s)) = n"
      "held_points (fst (SMM_worker_step env s)) = n" for env
      using At_store_points publish_points_inv(2,3) i by (simp_all add: SMM_worker_step_def currentSearchPoints_def)
    then show ?thesis using At_store_points n held by (auto simp: s_def [symmetric] Let_def)
  qed (use i held in \<open>simp_all add: s_def [symmetric] Let_def settled_def currentSearchPoints_def\<close>)
qed

definition sample_smm_env :: smm_env where
  "sample_smm_env = \<lparr>se_tan = (\<lambda>_. Fin 1), se_now = 5000, se_last_command = SMM_COMMAND_NONE,
     se_state_connected = True, se_connects = True, se_logged_in = True, se_assets = Some [''uav''],
     se_search = Some 4, se_waypoints = Some [Point_default], se_sweep_width = Fin 30, se_accepted = True\<rparr>"

text \<open>The events up to the candidate of a granted search, before the read of the role that guards its accept.\<close>

definition to_candidate :: "smm_event list" where
  "to_candidate = [Smm_loop (Loop_connect [] [] [] ''uav''), Smm_worker sample_smm_env,
     Smm_loop (Loop_search Point_default), Smm_worker sample_smm_env, Smm_worker sample_smm_env,
     Smm_worker sample_smm_env, Smm_worker sample_smm_env]"

lemmas sample_run = to_candidate_def sample_smm_env_def SMM_started_def SMM_init_def registerLoadSearchCB_def
  registerRtlCB_def registerOperatorCommandCB_def smm_enqueue_def smm_enqueue_task_def doConnect_def
  SMM_do_connect_def c_str_def search_acquire_action_def loop_defs step_defs

lemma to_candidate_at:
  "smm_at (fst (smm_run to_candidate (SMM_started 122 10 (Fin 90) 1000))) = At_candidate 4 0 Point_default 0"
  by (simp add: sample_run)

text \<open>The window is real: the event loop can read the count of no search while a search is held.\<close>

lemma stale_points_readable:
  "let s = fst (smm_run (to_candidate @ replicate 4 (Smm_worker sample_smm_env)) (SMM_started 122 10 (Fin 90) 1000))
   in current_search s = Some 0 \<and> currentSearchPoints s = 0 \<and> held_points s = 1"
  by (simp add: sample_run numeral_eq_Suc Let_def currentSearchPoints_def points_of_def getPointsCount_def
      Point_isValid_def Point_default_def)

theorem held_search_usable_witness:
  "\<exists>i from. current_search (fst (smm_run (to_candidate @ replicate 4 (Smm_worker sample_smm_env))
       (SMM_started 122 10 (Fin 90) 1000))) = Some i \<and>
     ss_points (searches (fst (smm_run (to_candidate @ replicate 4 (Smm_worker sample_smm_env))
       (SMM_started 122 10 (Fin 90) 1000))) ! i) \<noteq> [] \<and>
     smm_at (fst (smm_run (to_candidate @ replicate 4 (Smm_worker sample_smm_env))
       (SMM_started 122 10 (Fin 90) 1000))) = At_store_points 1 from"
proof -
  let ?s = "fst (smm_run (to_candidate @ replicate 4 (Smm_worker sample_smm_env)) (SMM_started 122 10 (Fin 90) 1000))"
  have "current_search ?s = Some 0 \<and> currentSearchPoints ?s = 0 \<and> held_points ?s = 1"
    by (rule stale_points_readable [unfolded Let_def])
  then have "current_search ?s = Some 0" "currentSearchPoints ?s = 0" "held_points ?s = 1" by blast+
  then show ?thesis
    using held_search_usable [of "to_candidate @ replicate 4 (Smm_worker sample_smm_env)" 122 10 "Fin 90" 1000]
    by (auto simp: Let_def)
qed

section \<open>The searching role\<close>

fun is_accept :: "smm_out \<Rightarrow> bool" where
  "is_accept (Smm_accept _) = True" | "is_accept _ = False"

fun grants :: "smm_event \<Rightarrow> bool" where
  "grants (Smm_loop (Loop_search _)) = True" | "grants _ = False"

text \<open>The search whose accept has been asked for, or that is accepted and not yet published.\<close>

definition in_flight :: "SMM \<Rightarrow> nat option" where
  "in_flight s = (case smm_at s of
     At_commit h i pos k \<Rightarrow> Some i | At_accept h i pos k \<Rightarrow> Some i | At_publish acquired n from \<Rightarrow> acquired | _ \<Rightarrow> None)"

text \<open>The accept for which the role has been read and that has not been asked for yet.\<close>

definition decided :: "SMM \<Rightarrow> smm_out list" where
  "decided s = (case smm_at s of At_commit h i pos k \<Rightarrow> [Smm_accept h] | _ \<Rightarrow> [])"

lemma decided_in_flight: "in_flight s = None \<Longrightarrow> decided s = []"
  by (simp add: in_flight_def decided_def split: worker_at.splits)

lemma decided_single: "xs @ ys = decided s \<Longrightarrow> xs = [] \<or> xs = decided s"
  by (auto simp: decided_def append_eq_Cons_conv split: worker_at.splits)

definition commits_nothing :: "SMM \<Rightarrow> SMM \<times> smm_out list \<Rightarrow> bool" where
  "commits_nothing s r \<longleftrightarrow> filter is_accept (snd r) @ decided (fst r) \<in> {[], decided s} \<and> \<not> search_active (fst r) \<and>
     current_search (fst r) \<in> {None, current_search s, in_flight s} \<and> in_flight (fst r) \<in> {None, in_flight s}"

lemma worker_active [simp]: "search_active (fst (SMM_worker_step env s)) = search_active s"
proof -
  have task: "search_active (fst (SMM_run_task env task t)) = search_active t" for task t
  proof (cases task)
    case (ReportPositionTask pd)
    then show ?thesis
      by (cases "se_last_command env") (simp_all add: step_defs Let_def)
  qed (auto simp: step_defs Let_def case_prod_unfold split: option.splits SearchAcquireAction.splits)
  show ?thesis
    by (cases "smm_at s") (auto simp: task SMM_worker_step_def SMM_worker_turn_def start_report_def report_answered_def
      start_fetch_def acquire_fetched_def acquire_build_def acquire_check_def commitSearch_def acquire_answered_def acquire_refused_def
      maybeAcquire_def tryAcquireSearch_def publishSearch_def publish_search_locked_def publish_points_def Let_def
      split: list.splits option.splits publish_from.splits SearchAcquireAction.splits)
qed

lemma task_revoked:
  "filter is_accept (snd (SMM_run_task env task s)) = []"
  "current_search (fst (SMM_run_task env task s)) = current_search s"
  "smm_at s = At_wait \<Longrightarrow> in_flight (fst (SMM_run_task env task s)) = None"
proof -
  have c: "filter is_accept (snd (doConnect env h u w a s)) = []" for h u w a
    by (auto simp: doConnect_def SMM_do_connect_def SMM_disconnect_def case_prod_unfold Let_def split: option.splits)
  have cs: "current_search (fst (doConnect env h u w a s)) = current_search s" for h u w a
    using same_search_connect(1) [of s env h u w a] by (simp add: same_search_def)
  have r: "filter is_accept (snd (doReportPosition env pd s)) = [] \<and>
      current_search (fst (doReportPosition env pd s)) = current_search s \<and>
      (smm_at s = At_wait \<longrightarrow> in_flight (fst (doReportPosition env pd s)) = None)" for pd
    by (cases "se_last_command env") (simp_all add: doReportPosition_def checkOperatorCommand_def start_report_def
        publishSearch_def in_flight_def Let_def)
  have f: "smm_at s = At_wait \<Longrightarrow> (case smm_at (fst (doReportPosition env pd s)) of
      At_publish acquired n from \<Rightarrow> acquired | At_commit h i pos k \<Rightarrow> Some i
      | At_accept h i pos k \<Rightarrow> Some i | _ \<Rightarrow> None) = None" for pd
    using r by (simp add: in_flight_def)
  note d = c cs r f doSearch_def doReachedPoint_def tryAcquireSearch_def start_fetch_def report_rtl_def
    publishSearch_def in_flight_def Let_def case_prod_unfold
  show "filter is_accept (snd (SMM_run_task env task s)) = []"
    by (cases task) (auto simp: d split: option.splits SearchAcquireAction.splits)
  show "current_search (fst (SMM_run_task env task s)) = current_search s"
    by (cases task) (auto simp: d split: option.splits SearchAcquireAction.splits)
  show "smm_at s = At_wait \<Longrightarrow> in_flight (fst (SMM_run_task env task s)) = None"
    by (cases task) (auto simp: d split: option.splits SearchAcquireAction.splits)
qed

lemma worker_revoked:
  assumes "\<not> search_active s" shows "commits_nothing s (SMM_worker_step env s)"
proof -
  have "filter is_accept (snd (SMM_worker_step env s)) @ decided (fst (SMM_worker_step env s)) \<in> {[], decided s} \<and>
      current_search (fst (SMM_worker_step env s)) \<in> {None, current_search s, in_flight s} \<and>
      in_flight (fst (SMM_worker_step env s)) \<in> {None, in_flight s}"
  proof (cases "smm_at s")
    case At_wait
    have "in_flight s = None" "in_flight (s\<lparr>smm_at := At_returned\<rparr>) = None" using At_wait by (simp_all add: in_flight_def)
    then show ?thesis
      using At_wait by (auto simp: SMM_worker_step_def SMM_worker_turn_def task_revoked decided_in_flight split: list.splits)
  next
    case (At_store_points n "from")
    then show ?thesis
      by (cases "from") (simp_all add: SMM_worker_step_def publish_points_def start_report_def report_rtl_def
          in_flight_def decided_def Let_def)
  next
    case (At_maybe pos)
    then show ?thesis using assms by (simp add: SMM_worker_step_def maybeAcquire_def in_flight_def decided_def)
  qed (use assms in \<open>simp_all add: SMM_worker_step_def report_answered_def acquire_fetched_def acquire_build_def
      acquire_check_def commitSearch_def acquire_answered_def acquire_refused_def publishSearch_def publish_search_locked_def
      in_flight_def decided_def split: option.splits\<close>)
  then show ?thesis using assms by (simp add: commits_nothing_def)
qed

lemma loop_revoked: "\<not> search_active s \<Longrightarrow> \<not> grants (Smm_loop op) \<Longrightarrow> commits_nothing s (smm_step (Smm_loop op) s)"
  by (cases op) (simp_all add: commits_nothing_def in_flight_def decided_def loop_defs)

lemma commits_nothing_trans:
  assumes one: "commits_nothing s (s1, out1)" and two: "commits_nothing s1 (s2, out2)"
  shows "commits_nothing s (s2, out1 @ out2)"
proof -
  let ?a1 = "filter is_accept out1" and ?a2 = "filter is_accept out2"
  have a1: "?a1 @ decided s1 \<in> {[], decided s}" and a2: "?a2 @ decided s2 \<in> {[], decided s1}"
    using one two by (simp_all add: commits_nothing_def)
  have "?a1 = [] \<or> ?a1 = decided s" using a1 decided_single [of ?a1 "decided s1" s] by blast
  then have "?a1 @ ?a2 @ decided s2 \<in> {[], decided s}" using a1 a2 by auto
  then show ?thesis using one two by (auto simp: commits_nothing_def)
qed

lemma run_revoked:
  "list_all (\<lambda>e. \<not> grants e) es \<Longrightarrow> \<not> search_active s \<Longrightarrow> commits_nothing s (smm_run es s)"
proof (induction es arbitrary: s)
  case (Cons e es)
  have one: "commits_nothing s (smm_step e s)"
    using Cons.prems worker_revoked loop_revoked by (cases e) auto
  then have two: "commits_nothing (fst (smm_step e s)) (smm_run es (fst (smm_step e s)))"
    using Cons by (simp add: commits_nothing_def)
  show ?case
    using commits_nothing_trans [of s "fst (smm_step e s)" "snd (smm_step e s)"] one two
    by (simp add: case_prod_unfold)
qed (simp add: commits_nothing_def)

text \<open>C25: the searching role decides, also in the middle of an acquire. From the moment the event loop revokes the role, wherever the worker is then, and for as long as the role is not granted again, the worker asks the server to accept no search, whatever the server answers and however the worker and the event loop interleave, but at most the one for which it had already read the role and was about to ask; and the search it ends up holding is the one it held at the revocation, or the one whose accept had been asked for or was about to be, or none.\<close>

theorem revoked_role_commits_nothing:
  assumes "list_all (\<lambda>e. \<not> grants e) es"
  shows "filter is_accept (snd (smm_run es (SMM_cancelSearch s))) \<in> {[], decided s} \<and>
    current_search (fst (smm_run es (SMM_cancelSearch s))) \<in> {None, current_search s, in_flight s}"
proof -
  have "filter is_accept (snd (smm_run es (SMM_cancelSearch s))) @ decided (fst (smm_run es (SMM_cancelSearch s)))
      \<in> {[], decided s} \<and>
      current_search (fst (smm_run es (SMM_cancelSearch s))) \<in> {None, current_search s, in_flight s}"
    using run_revoked [OF assms, of "SMM_cancelSearch s"]
    by (simp add: commits_nothing_def SMM_cancelSearch_def in_flight_def decided_def)
  then show ?thesis using decided_single [of "filter is_accept (snd (smm_run es (SMM_cancelSearch s)))"] by auto
qed

text \<open>The role is revoked after the candidate is built, just before the read that guards its accept; without the revocation the same steps accept and hold it.\<close>

lemma granted_role_commits:
  "let r = smm_run (replicate 4 (Smm_worker sample_smm_env))
       (fst (smm_run to_candidate (SMM_started 122 10 (Fin 90) 1000)))
   in snd r = [Smm_accept 4] \<and> current_search (fst r) = Some 0"
  by (simp add: sample_run numeral_eq_Suc Let_def Point_isValid_def Point_default_def)

theorem revoked_role_commits_nothing_witness:
  "filter is_accept (snd (smm_run (replicate 4 (Smm_worker sample_smm_env))
     (SMM_cancelSearch (fst (smm_run to_candidate (SMM_started 122 10 (Fin 90) 1000)))))) = [] \<and>
   current_search (fst (smm_run (replicate 4 (Smm_worker sample_smm_env))
     (SMM_cancelSearch (fst (smm_run to_candidate (SMM_started 122 10 (Fin 90) 1000)))))) = None"
proof -
  let ?s = "fst (smm_run to_candidate (SMM_started 122 10 (Fin 90) 1000))"
  have "list_all (\<lambda>e. \<not> grants e) (replicate 4 (Smm_worker sample_smm_env))" by (simp add: list_all_iff)
  moreover have "current_search ?s = None" by (simp add: sample_run)
  moreover have "in_flight ?s = None" by (simp add: in_flight_def to_candidate_at)
  moreover from this have "decided ?s = []" by (rule decided_in_flight)
  ultimately show ?thesis
    using revoked_role_commits_nothing [of "replicate 4 (Smm_worker sample_smm_env)" ?s] by auto
qed

section \<open>A task ends\<close>

text \<open>The steps of the worker until it is back at its wait: a server that keeps offering searches it then refuses is asked three times at most.\<close>

fun steps_left :: "worker_at \<Rightarrow> nat" where
  "steps_left (At_publish acquired n (From_abandon pd ts)) = 28"
| "steps_left (At_publish acquired n from) = 2"
| "steps_left (At_store_points n (From_abandon pd ts)) = 27"
| "steps_left (At_store_points n from) = 1"
| "steps_left (At_report pd ts) = 26"
| "steps_left (At_maybe pos) = 25"
| "steps_left (At_fetch pos k) = 8 * (3 - k)"
| "steps_left (At_fetched r pos k) = 8 * (3 - k) - 1"
| "steps_left (At_waypoints h pos k) = 8 * (3 - k) - 2"
| "steps_left (At_candidate h i pos k) = 8 * (3 - k) - 3"
| "steps_left (At_commit h i pos k) = 8 * (3 - k) - 4"
| "steps_left (At_accept h i pos k) = 8 * (3 - k) - 5"
| "steps_left (At_refused h i pos k) = 8 * (3 - k) - 6"
| "steps_left _ = 0"

lemma tryAcquireSearch_steps: "steps_left (smm_at (fst (tryAcquireSearch ts pos s))) \<le> 24"
  by (simp add: tryAcquireSearch_def start_fetch_def split: SearchAcquireAction.splits)

lemma worker_progress:
  assumes "smm_inv s" and "0 < steps_left (smm_at s)"
  shows "steps_left (smm_at (fst (SMM_worker_step env s))) < steps_left (smm_at s)"
proof (cases "smm_at s")
  case (At_publish acquired n "from")
  then show ?thesis by (cases "from") (simp_all add: SMM_worker_step_def publish_search_locked_def)
next
  case (At_store_points n "from")
  then show ?thesis by (cases "from") (simp_all add: SMM_worker_step_def publish_points_def start_report_def Let_def)
next
  case (At_maybe pos)
  then show ?thesis using tryAcquireSearch_steps [of "se_now env" pos s]
    by (simp add: SMM_worker_step_def maybeAcquire_def)
qed (use assms in \<open>auto simp: smm_inv_def SMM_worker_step_def report_answered_def acquire_fetched_def acquire_build_def
      acquire_check_def commitSearch_def acquire_answered_def acquire_refused_def start_fetch_def publishSearch_def
      split: option.splits\<close>)

fun is_worker_event :: "smm_event \<Rightarrow> bool" where
  "is_worker_event (Smm_worker _) = True" | "is_worker_event _ = False"

text \<open>Wherever the worker is, and whatever the event loop does meanwhile, it is back at its wait, or has returned, within 28 of its steps.\<close>

lemma worker_task_ends:
  "smm_inv s \<Longrightarrow> steps_left (smm_at s) \<le> length (filter is_worker_event es) \<Longrightarrow>
   \<exists>p q. es = p @ q \<and> steps_left (smm_at (fst (smm_run p s))) = 0"
proof (induction es arbitrary: s)
  case (Cons e es)
  show ?case
  proof (cases "steps_left (smm_at s) = 0")
    case True
    then have "steps_left (smm_at (fst (smm_run [] s))) = 0" by simp
    then show ?thesis by blast
  next
    case False
    have "steps_left (smm_at (fst (smm_step e s))) \<le> length (filter is_worker_event es)"
    proof (cases e)
      case (Smm_worker env)
      then have "steps_left (smm_at (fst (smm_step e s))) < steps_left (smm_at s)"
        using worker_progress [OF Cons.prems(1)] False by simp
      then show ?thesis using Cons.prems(2) Smm_worker by simp
    qed (use Cons.prems in simp)
    then obtain p q where "es = p @ q" "steps_left (smm_at (fst (smm_run p (fst (smm_step e s))))) = 0"
      using Cons.IH [OF smm_step_inv [OF Cons.prems(1)]] by blast
    then show ?thesis by (intro exI [of _ "e # p"] exI [of _ q]) (simp add: case_prod_unfold)
  qed
qed (auto intro: exI [of _ "[]"])

lemma steps_left_bounded: "steps_left a \<le> 28"
  by (cases a rule: steps_left.cases) simp_all

text \<open>The operator commands the worker passes on never include \<open>smm_cmd_none\<close>.\<close>

lemma operator_command_never_none: "Smm_operator smm_cmd_none \<notin> set (snd (SMM_worker_step env s))"
proof -
  have c: "Smm_operator smm_cmd_none \<notin> set (snd (doConnect env h u w a s))" for h u w a s
    by (auto simp: doConnect_def SMM_do_connect_def SMM_disconnect_def case_prod_unfold Let_def split: option.splits)
  have r: "Smm_operator smm_cmd_none \<notin> set (snd (doReportPosition env pd s))" for pd s
    by (cases "se_last_command env") (simp_all add: doReportPosition_def checkOperatorCommand_def start_report_def Let_def)
  have t: "Smm_operator smm_cmd_none \<notin> set (snd (SMM_run_task env task s))" for task s
    by (cases task) (auto simp: c r doSearch_def doReachedPoint_def tryAcquireSearch_def start_fetch_def report_rtl_def
        Let_def case_prod_unfold split: option.splits SearchAcquireAction.splits)
  show ?thesis
    by (cases "smm_at s") (auto simp: t SMM_worker_step_def SMM_worker_turn_def start_report_def acquire_fetched_def
        acquire_check_def commitSearch_def acquire_refused_def maybeAcquire_def tryAcquireSearch_def publish_points_def start_fetch_def
        report_rtl_def Let_def split: list.splits option.splits publish_from.splits SearchAcquireAction.splits)
qed

end
