(* ===== verification/Mav_Connection.thy ===== *)
theory Mav_Connection
  imports Mav_Modes Mav_Link Mission_Plan Smm_Worker
begin

text \<open>
  The connection to the autopilot, \<open>src/mav/mavlink.cpp\<close> and \<open>src/mav/internal.hpp\<close>: its
  state, what it sends, the mode commands, the mission upload and its acknowledgement, and
  the handling of received messages. The trace \<open>mc_out\<close> is what the connection has done to
  the outside so far: messages written or failed, callbacks, log lines, socket calls. The
  operating system, the clock and the search objects are an environment argument.
\<close>

section \<open>Messages\<close>

definition SYS_ID :: u8 where "SYS_ID = 200"
definition COMP_ID :: u8 where "COMP_ID = 1"
definition TARGET_SYS_ID :: u8 where "TARGET_SYS_ID = 1"
definition TARGET_COMP_ID :: u8 where "TARGET_COMP_ID = 1"
definition MISSION_TARGET_SYS_ID :: u8 where "MISSION_TARGET_SYS_ID = 0"

text \<open>
  A number that is only written to the wire is a constructor here; a \<open>float\<close> parameter is
  the integer it is converted from.
\<close>

datatype mav_cmd =
    MAV_CMD_COMPONENT_ARM_DISARM | MAV_CMD_DO_FLIGHTTERMINATION | MAV_CMD_DO_CHANGE_ALTITUDE
  | MAV_CMD_SET_MESSAGE_INTERVAL

datatype stream_id = ID_GLOBAL_POSITION_INT | ID_BATTERY_STATUS | ID_GPS_RAW_INT

datatype cmd_param = P_num int | P_FRAME_GLOBAL_RELATIVE_ALT | P_stream stream_id

datatype nav_cmd = MAV_CMD_NAV_RETURN_TO_LAUNCH | MAV_CMD_NAV_WAYPOINT | MAV_CMD_NAV_TAKEOFF

record mission_item_int =
  it_seq :: u16
  it_command :: nav_cmd
  it_current :: bool
  it_autocontinue :: bool
  it_param1 :: int
  it_param2 :: int
  it_yaw :: dbl
  it_x :: i32
  it_y :: i32
  it_z :: u16
  it_mission_type :: u8

record adsb_vehicle =
  av_icao :: u32
  av_lat :: i32
  av_lon :: i32
  av_altitude_type :: u8
  av_altitude :: i32
  av_heading :: u16
  av_hor_velocity :: u16
  av_ver_velocity :: i16
  av_callsign :: string
  av_emitter_type :: u8
  av_tslc :: u8
  av_flags :: u16
  av_squawk :: u16

datatype mav_msg =
    Msg_heartbeat
  | Msg_set_mode u8 u8
  | Msg_command_long u8 u8 mav_cmd "cmd_param list"
  | Msg_mission_count u8 u8 u16
  | Msg_mission_item u8 u8 mission_item_int
  | Msg_mission_set_current u8 u8 u16
  | Msg_param_request_read u8 u8 string
  | Msg_adsb_vehicle adsb_vehicle

datatype mav_log =
    Log_link_down bool
  | Log_goto_upload_lost
  | Log_retire
  | Log_unresolved MavModeCommand
  | Log_upload_invalidated string
  | Log_upload_superseded
  | Log_goto_count_failed
  | Log_search_count_failed
  | Log_count_truncated nat
  | Log_stale_ack
  | Log_failsafe_param string dbl
  | Log_not_autopilot u8
  | Log_restart_detected
  | Log_send_failed
  | Log_status_text string
  | Log_unhandled nat
  | Log_no_address
  | Log_trying_more nat
  | Log_terminate_none

datatype mav_out =
    Sent mav_msg
  | Send_failed mav_msg
  | Mav_log mav_log
  | Cb_position PositionData
  | Cb_battery BatteryData
  | Cb_reached int
  | Cb_comms MavCommsStatus
  | Cb_autopilot_restart
  | Sock_dial u64
  | Sock_shutdown nat
  | Sock_close nat

text \<open>A received message: the sender and the fields that the connection reads.\<close>

record global_position_int =
  gp_time_boot_ms :: u32
  gp_lat :: i32
  gp_lon :: i32
  gp_alt :: i32
  gp_relative_alt :: i32
  gp_hdg :: u16
  gp_vx :: i16
  gp_vy :: i16
  gp_vz :: i16

datatype mav_payload =
    In_heartbeat u8 u32
  | In_global_position_int global_position_int
  | In_battery_status i32 i8 u16
  | In_mission_item_reached u16
  | In_mission_request u8 u8 u16 u8
  | In_mission_request_int u8 u8 u16 u8
  | In_mission_ack u8 u8 u8
  | In_gps_raw_int u8
  | In_system_time u32
  | In_param_value string dbl
  | In_expected
  | In_statustext string
  | In_unhandled nat

record mav_in =
  in_sysid :: u8
  in_compid :: u8
  in_payload :: mav_payload

section \<open>State and environment\<close>

record mav_connection =
  mc_fd :: "nat option"
  mc_last_tried :: u64
  mc_retry_count :: u16
  mc_broken :: bool
  mc_stopping :: bool
  mc_started :: bool
  mc_recv_thread :: bool
  mc_last_heartbeat_ts :: u64
  mc_connected_since_ts :: u64
  mc_comms_ok :: bool
  mc_comms_cb :: bool
  mc_restart_cb :: bool
  mc_position_cb :: bool
  mc_battery_cb :: bool
  mc_reached_cb :: bool
  mc_systems :: "mav_sys list"
  mc_last_position :: point
  mc_search :: "nat option"
  mc_search_loading :: bool
  mc_search_loaded :: bool
  mc_goto_position :: point
  mc_goto_active :: bool
  mc_goto_ack_pending :: bool
  mc_gps_fix_type :: u8
  mc_last_time_boot_ms :: u32
  mc_pending_mode :: "MavModeCommand option"
  mc_params :: MavParams
  mc_term_action :: terminate_action
  mc_out :: "mav_out list"

definition mav_connection_init :: "mavlink_consts \<Rightarrow> MavParams \<Rightarrow> terminate_action \<Rightarrow> mav_connection" where
  "mav_connection_init K t_params t_term_action =
     \<lparr>mc_fd = None, mc_last_tried = 0, mc_retry_count = 0, mc_broken = False, mc_stopping = False,
      mc_started = False, mc_recv_thread = False, mc_last_heartbeat_ts = 0, mc_connected_since_ts = 0,
      mc_comms_ok = True, mc_comms_cb = False, mc_restart_cb = False, mc_position_cb = False,
      mc_battery_cb = False, mc_reached_cb = False, mc_systems = [], mc_last_position = Point_default,
      mc_search = None, mc_search_loading = False, mc_search_loaded = False,
      mc_goto_position = Point_default, mc_goto_active = False, mc_goto_ack_pending = False,
      mc_gps_fix_type = GPS_FIX_TYPE_NO_GPS K, mc_last_time_boot_ms = 0, mc_pending_mode = None,
      mc_params = t_params, mc_term_action = t_term_action, mc_out = []\<rparr>"

text \<open>
  \<open>me_send k off\<close> is what the \<open>send\<close> call returns for the bytes from offset \<open>off\<close> when the
  trace has length \<open>k\<close>. \<open>me_search\<close> reads a search object. \<open>me_endpoints\<close> are the addresses
  the name resolves to, each with the descriptor if the connect to it succeeds.
\<close>

record mav_os =
  me_consts :: mavlink_consts
  me_now :: u64
  me_dial_ts :: u64
  me_connected_ts :: u64
  me_send :: "nat \<Rightarrow> nat \<Rightarrow> int"
  me_frame_len :: "mav_msg \<Rightarrow> nat"
  me_search :: "nat \<Rightarrow> SMMSearch"
  me_hypot :: "dbl \<Rightarrow> dbl \<Rightarrow> dbl"
  me_endpoints :: "nat option list"

definition emit :: "mav_out \<Rightarrow> mav_connection \<Rightarrow> mav_connection" where
  "emit x c = c\<lparr>mc_out := mc_out c @ [x]\<rparr>"

definition log_line :: "mav_log \<Rightarrow> mav_connection \<Rightarrow> mav_connection" where
  "log_line l c = emit (Mav_log l) c"

section \<open>Sending\<close>

text \<open>The write loop: each positive return of \<open>send\<close> moves the offset on.\<close>

function send_loop :: "(nat \<Rightarrow> int) \<Rightarrow> nat \<Rightarrow> nat \<Rightarrow> bool" where
  "send_loop os_send to_send sent =
     (if sent < to_send
      then let transfered = os_send sent
        in if transfered \<le> 0 then False else send_loop os_send to_send (sent + nat transfered)
      else True)"
  by pat_completeness auto
termination by (relation "measure (\<lambda>(_, to_send, sent). to_send - sent)") auto

declare send_loop.simps [simp del]

definition sendMavLinkMsgLocked :: "mav_os \<Rightarrow> mav_msg \<Rightarrow> mav_connection \<Rightarrow> mav_connection \<times> bool" where
  "sendMavLinkMsgLocked env msg c =
     (if mc_fd c = None then (c, False)
      else if send_loop (me_send env (length (mc_out c))) (me_frame_len env msg) 0
      then (emit (Sent msg) c, True)
      else ((log_line Log_send_failed (emit (Send_failed msg) c))\<lparr>mc_broken := True\<rparr>, False))"

definition sendHeartBeat :: "mav_os \<Rightarrow> mav_connection \<Rightarrow> mav_connection" where
  "sendHeartBeat env c = fst (sendMavLinkMsgLocked env Msg_heartbeat c)"

definition sendADSB :: "mav_os \<Rightarrow> PositionData \<Rightarrow> string \<Rightarrow> u8 \<Rightarrow> mav_connection \<Rightarrow> mav_connection option" where
  "sendADSB env pd callsign tslc c =
     (case (degrees_to_degE7 (latitude (pd_p pd)), degrees_to_degE7 (longitude (pd_p pd)),
            metres_to_mav_mm (pd_alt_m pd)) of
        (Some lat, Some lng, Some alt) \<Rightarrow>
          Some (fst (sendMavLinkMsgLocked env (Msg_adsb_vehicle
            \<lparr>av_icao = pd_icaoaddress pd, av_lat = lat, av_lon = lng, av_altitude_type = pd_altitude_type pd,
             av_altitude = alt, av_heading = pd_hdg pd, av_hor_velocity = pd_vel_hor pd,
             av_ver_velocity = pd_vel_ver pd, av_callsign = callsign, av_emitter_type = pd_emitter_type pd,
             av_tslc = tslc, av_flags = pd_flags pd, av_squawk = pd_squawk pd\<rparr>) c))
      | _ \<Rightarrow> None)"

definition setFlightMode :: "mav_os \<Rightarrow> u8 \<Rightarrow> mav_connection \<Rightarrow> mav_connection \<times> bool" where
  "setFlightMode env fmode c = sendMavLinkMsgLocked env (Msg_set_mode TARGET_SYS_ID fmode) c"

definition setCurrentWP :: "mav_os \<Rightarrow> u16 \<Rightarrow> mav_connection \<Rightarrow> mav_connection" where
  "setCurrentWP env sq c =
     fst (sendMavLinkMsgLocked env (Msg_mission_set_current MISSION_TARGET_SYS_ID TARGET_COMP_ID sq) c)"

definition requestStream :: "mav_os \<Rightarrow> u8 \<Rightarrow> u8 \<Rightarrow> stream_id \<Rightarrow> u32 \<Rightarrow> mav_connection \<Rightarrow> mav_connection" where
  "requestStream env sysid compid command interval c =
     fst (sendMavLinkMsgLocked env
       (Msg_command_long sysid compid MAV_CMD_SET_MESSAGE_INTERVAL
          [P_stream command, P_num (uint interval), P_num 0, P_num 0, P_num 0, P_num 0, P_num 1]) c)"

definition command_long :: "mav_os \<Rightarrow> mav_cmd \<Rightarrow> cmd_param list \<Rightarrow> mav_connection \<Rightarrow> mav_connection \<times> bool" where
  "command_long env cmd ps c =
     sendMavLinkMsgLocked env (Msg_command_long TARGET_SYS_ID TARGET_COMP_ID cmd ps) c"

section \<open>Mode commands\<close>

datatype UploadDropCause = cause_takeover | cause_supersede

definition invalidateInFlightUploadLocked :: "mav_connection \<Rightarrow> mav_connection \<times> bool" where
  "invalidateInFlightUploadLocked c =
     (c\<lparr>mc_search := (if mc_search_loading c then None else mc_search c),
        mc_goto_active := False, mc_goto_ack_pending := False,
        mc_search_loading := False, mc_search_loaded := False\<rparr>,
      mc_goto_ack_pending c \<or> mc_search_loading c)"

definition logUploadInvalidated :: "string \<Rightarrow> mav_connection \<Rightarrow> mav_connection" where
  "logUploadInvalidated action_name c = log_line (Log_upload_invalidated action_name) c"

definition logUploadSuperseded :: "mav_connection \<Rightarrow> mav_connection" where
  "logUploadSuperseded c = log_line Log_upload_superseded c"

definition logUploadDropped :: "MavModeCommand \<Rightarrow> UploadDropCause \<Rightarrow> mav_connection \<Rightarrow> mav_connection" where
  "logUploadDropped command cause c =
     (if cause = cause_supersede then logUploadSuperseded c
      else logUploadInvalidated (mav_mode_command_name command) c)"

definition warnUnresolvedMode :: "MavModeCommand \<Rightarrow> mav_connection \<Rightarrow> mav_connection" where
  "warnUnresolvedMode command c = log_line (Log_unresolved command) c"

definition autopilot_type_of :: "mav_connection \<Rightarrow> u8" where
  "autopilot_type_of c =
     (case findExistingSystem TARGET_SYS_ID (mc_systems c) of Some s \<Rightarrow> ms_autopilot_type s | None \<Rightarrow> 0)"

text \<open>The two critical regions: the command is deferred, or it is done and the deferral cleared.\<close>

definition mode_region :: "MavModeCommand option \<Rightarrow> bool \<Rightarrow> mav_connection \<Rightarrow> mav_connection \<times> bool" where
  "mode_region pending clear_search_loaded c =
     (let c1 = c\<lparr>mc_pending_mode := pending\<rparr>
      in if clear_search_loaded then invalidateInFlightUploadLocked c1 else (c1, False))"

definition setResolvedMode ::
  "mav_os \<Rightarrow> MavModeCommand \<Rightarrow> bool \<Rightarrow> UploadDropCause \<Rightarrow> mav_connection \<Rightarrow> mav_connection \<times> bool" where
  "setResolvedMode env command clear_search_loaded cause c =
     (case resolve_mav_mode (me_consts env) (autopilot_type_of c) command of
        None \<Rightarrow>
          (case mode_region (Some command) clear_search_loaded c of (c1, upload_invalidated) \<Rightarrow>
             let c2 = warnUnresolvedMode command c1
             in ((if upload_invalidated then logUploadDropped command cause c2 else c2), False))
      | Some fmode \<Rightarrow>
          (case setFlightMode env fmode c of (c1, sent) \<Rightarrow>
           case mode_region None clear_search_loaded c1 of (c2, upload_invalidated) \<Rightarrow>
             ((if upload_invalidated then logUploadDropped command cause c2 else c2), sent)))"

definition replay_region :: "MavModeCommand \<Rightarrow> mav_connection \<Rightarrow> mav_connection" where
  "replay_region command c =
     (let c1 = (if mc_pending_mode c = Some command then c\<lparr>mc_pending_mode := None\<rparr> else c)
      in if command \<noteq> mode_auto then c1\<lparr>mc_search_loaded := False\<rparr> else c1)"

definition replayPendingMode :: "mav_os \<Rightarrow> u8 \<Rightarrow> mav_connection \<Rightarrow> mav_connection" where
  "replayPendingMode env autopilot_type c =
     (case mc_pending_mode c of
        None \<Rightarrow> c
      | Some command \<Rightarrow>
          (case resolve_mav_mode (me_consts env) autopilot_type command of
             None \<Rightarrow> c
           | Some fmode \<Rightarrow> replay_region command (fst (setFlightMode env fmode c))))"

definition commandRTL :: "mav_os \<Rightarrow> mav_connection \<Rightarrow> mav_connection \<times> bool" where
  "commandRTL env = setResolvedMode env mode_rtl True cause_takeover"

definition commandRTLForUpload :: "mav_os \<Rightarrow> mav_connection \<Rightarrow> mav_connection \<times> bool" where
  "commandRTLForUpload env = setResolvedMode env mode_rtl True cause_supersede"

definition commandManual :: "mav_os \<Rightarrow> mav_connection \<Rightarrow> mav_connection \<times> bool" where
  "commandManual env = setResolvedMode env mode_manual True cause_takeover"

definition commandHold :: "mav_os \<Rightarrow> mav_connection \<Rightarrow> mav_connection \<times> bool" where
  "commandHold env = setResolvedMode env mode_hold True cause_takeover"

definition commandAuto :: "mav_os \<Rightarrow> mav_connection \<Rightarrow> mav_connection" where
  "commandAuto env c = fst (setResolvedMode env mode_auto False cause_takeover c)"

text \<open>The commands that are not modes: one message, then the upload is invalidated.\<close>

definition takeover_command :: "mav_os \<Rightarrow> mav_cmd \<Rightarrow> cmd_param list \<Rightarrow> string \<Rightarrow> mav_connection \<Rightarrow> mav_connection \<times> bool" where
  "takeover_command env cmd ps action_name c =
     (case command_long env cmd ps c of (c1, sent) \<Rightarrow>
      case invalidateInFlightUploadLocked c1 of (c2, upload_invalidated) \<Rightarrow>
        ((if upload_invalidated then logUploadInvalidated action_name c2 else c2), sent))"

definition commandDisARM :: "mav_os \<Rightarrow> mav_connection \<Rightarrow> mav_connection \<times> bool" where
  "commandDisARM env =
     takeover_command env MAV_CMD_COMPONENT_ARM_DISARM
       [P_num 0, P_num 0, P_num 0, P_num 0, P_num 0, P_num 0, P_num 0] ''disarm''"

definition commandForceDisARM :: "mav_os \<Rightarrow> mav_connection \<Rightarrow> mav_connection \<times> bool" where
  "commandForceDisARM env =
     takeover_command env MAV_CMD_COMPONENT_ARM_DISARM
       [P_num 0, P_num 21196, P_num 0, P_num 0, P_num 0, P_num 0, P_num 0] ''force-disarm''"

definition commandTerminate :: "mav_os \<Rightarrow> mav_connection \<Rightarrow> mav_connection \<times> bool" where
  "commandTerminate env =
     takeover_command env MAV_CMD_DO_FLIGHTTERMINATION
       [P_num 1, P_num 0, P_num 0, P_num 0, P_num 0, P_num 0, P_num 0] ''terminate''"

text \<open>An undefined conversion of the altitude is \<open>None\<close>.\<close>

definition commandAltitude :: "mav_os \<Rightarrow> u32 \<Rightarrow> mav_connection \<Rightarrow> (mav_connection \<times> bool) option" where
  "commandAltitude env alt c =
     (case clamp_command_altitude alt (mp_altitude_floor_m (mc_params c)) (mp_altitude_cap_m (mc_params c)) of
        None \<Rightarrow> None
      | Some alt_m \<Rightarrow>
          Some (command_long env MAV_CMD_DO_CHANGE_ALTITUDE
            [P_num (uint alt_m), P_FRAME_GLOBAL_RELATIVE_ALT, P_num 0, P_num 0, P_num 0, P_num 0, P_num 0] c))"

section \<open>Mission upload\<close>

text \<open>The two critical regions of a goto, before and after its count is sent.\<close>

definition goto_open_region :: "point \<Rightarrow> mav_connection \<Rightarrow> mav_connection" where
  "goto_open_region p c = c\<lparr>mc_goto_position := p, mc_goto_active := True, mc_search_loaded := False\<rparr>"

definition goto_pending_region :: "mav_connection \<Rightarrow> mav_connection" where
  "goto_pending_region c = c\<lparr>mc_goto_ack_pending := True\<rparr>"

definition send_count :: "mav_os \<Rightarrow> u16 \<Rightarrow> mav_connection \<Rightarrow> mav_connection \<times> bool" where
  "send_count env n c = sendMavLinkMsgLocked env (Msg_mission_count MISSION_TARGET_SYS_ID TARGET_COMP_ID n) c"

definition commandGoto :: "mav_os \<Rightarrow> point \<Rightarrow> mav_connection \<Rightarrow> mav_connection \<times> bool" where
  "commandGoto env p c =
     (case send_count env (ucast (mission_count_for 0 plan_go_to))
             (goto_open_region p (fst (commandRTLForUpload env c))) of
        (c1, sent) \<Rightarrow>
          ((if sent then goto_pending_region c1 else log_line Log_goto_count_failed c1), sent))"

definition upload_region :: "nat \<Rightarrow> size_t \<Rightarrow> mav_connection \<Rightarrow> mav_connection" where
  "upload_region t_search num_points c =
     (let c1 = c\<lparr>mc_goto_active := False, mc_goto_ack_pending := False, mc_search_loaded := False,
                 mc_search := Some t_search, mc_search_loading := True\<rparr>;
          cnt = mission_count_for num_points plan_search
      in if cnt > 65535 then log_line (Log_count_truncated (unat num_points)) c1 else c1)"

definition uploadSearch :: "mav_os \<Rightarrow> nat \<Rightarrow> mav_connection \<Rightarrow> mav_connection \<times> bool" where
  "uploadSearch env t_search c =
     (let c1 = fst (commandRTLForUpload env c);
          num_points = word_of_int (getPointsCount (me_search env t_search));
          c2 = upload_region t_search num_points c1
      in case send_count env (ucast (mission_count_for num_points plan_search)) c2 of
           (c3, sent) \<Rightarrow> ((if sent then c3 else log_line Log_search_count_failed c3), sent))"

definition load_region :: "nat option \<Rightarrow> mav_connection \<Rightarrow> mav_connection \<times> bool" where
  "load_region t_search c =
     (if mc_search c \<noteq> t_search \<or> \<not> mc_search_loaded c
      then (c\<lparr>mc_search := t_search\<rparr>, t_search \<noteq> None) else (c, False))"

definition loadSearch :: "mav_os \<Rightarrow> nat option \<Rightarrow> mav_connection \<Rightarrow> mav_connection" where
  "loadSearch env t_search c =
     (case load_region t_search c of (c1, need_reload) \<Rightarrow>
        (case t_search of
           Some i \<Rightarrow> if need_reload then fst (uploadSearch env i c1) else c1
         | None \<Rightarrow> c1))"

text \<open>
  The item for a sequence number. \<open>None\<close> is a dereferenced null search, an index past its
  points or an undefined conversion.
\<close>

definition waypoint_item :: "mav_os \<Rightarrow> u16 \<Rightarrow> u8 \<Rightarrow> mav_connection \<Rightarrow> mission_item_int option" where
  "waypoint_item env sq mission_type c =
     (let local_search = mc_search c;
          num_points = (case local_search of
            Some i \<Rightarrow> word_of_int (getPointsCount (me_search env i)) | None \<Rightarrow> 0);
          mode = (if mc_goto_active c then plan_go_to else plan_search);
          item = mission_item_for sq num_points mode;
          blank = \<lparr>it_seq = sq, it_command = MAV_CMD_NAV_RETURN_TO_LAUNCH, it_current = False, it_autocontinue = False,
                   it_param1 = 0, it_param2 = 0, it_yaw = Fin 0, it_x = 0, it_y = 0, it_z = 0,
                   it_mission_type = mission_type\<rparr>;
          waypoint = (\<lambda>p cur alt.
            (case (degrees_to_degE7 (latitude p), degrees_to_degE7 (longitude p)) of
               (Some x, Some y) \<Rightarrow> Some (blank\<lparr>it_command := MAV_CMD_NAV_WAYPOINT, it_current := cur,
                  it_autocontinue := True, it_param2 := 5, it_yaw := NaN, it_x := x, it_y := y, it_z := alt\<rparr>)
             | _ \<Rightarrow> None))
      in case mi_kind item of
           kind_rtl \<Rightarrow> Some blank
         | kind_goto_point \<Rightarrow> waypoint (mc_goto_position c) False (mp_goto_altitude_m (mc_params c))
         | kind_takeoff \<Rightarrow>
             (case local_search of
                None \<Rightarrow> None
              | Some i \<Rightarrow> (case ss_altitude (me_search env i) of
                  None \<Rightarrow> None
                | Some alt \<Rightarrow> Some (blank\<lparr>it_command := MAV_CMD_NAV_TAKEOFF,
                    it_current := (sq = 1 \<and> ss_current_point (me_search env i) = 0),
                    it_autocontinue := True, it_param1 := 5, it_z := alt\<rparr>)))
         | kind_search_point \<Rightarrow>
             (case local_search of
                None \<Rightarrow> None
              | Some i \<Rightarrow>
                  if unat (mi_point_index item) < length (ss_points (me_search env i))
                  then (case ss_altitude (me_search env i) of
                    None \<Rightarrow> None
                  | Some alt \<Rightarrow> waypoint (ss_points (me_search env i) ! unat (mi_point_index item))
                      (ss_current_point (me_search env i) = int (unat (mi_point_index item))) alt)
                  else None))"

definition send_waypoint :: "mav_os \<Rightarrow> u16 \<Rightarrow> u8 \<Rightarrow> mav_connection \<Rightarrow> mav_connection option" where
  "send_waypoint env sq mission_type c =
     (if \<not> mc_goto_active c \<and> \<not> mc_search_loading c then Some c
      else map_option
        (\<lambda>it. fst (sendMavLinkMsgLocked env (Msg_mission_item MISSION_TARGET_SYS_ID TARGET_COMP_ID it) c))
        (waypoint_item env sq mission_type c))"

text \<open>The critical region of an acknowledgement: whether a goto or a search is to be engaged.\<close>

record ack_result =
  goto_set_current :: bool
  search_set_current :: bool
  search_seq :: u16
  stale_ack :: bool

definition ack_region :: "mav_os \<Rightarrow> bool \<Rightarrow> mav_connection \<Rightarrow> mav_connection \<times> ack_result" where
  "ack_region env accepted c =
     (let goto_was_pending = mc_goto_ack_pending c;
          c1 = c\<lparr>mc_goto_ack_pending := False,
                 mc_goto_active := (if goto_was_pending then False else mc_goto_active c)\<rparr>;
          goto_now = (goto_was_pending \<and> accepted);
          search_now = (mc_search_loading c \<and> accepted);
          sq = (if search_now then (case mc_search c of
                  Some i \<Rightarrow> search_point_mission_seq (ss_current_point (me_search env i)) | None \<Rightarrow> 0) else 0);
          c2 = (if mc_search_loading c
                then (if accepted then c1\<lparr>mc_search_loading := False, mc_search_loaded := True\<rparr>
                      else c1\<lparr>mc_search_loading := False, mc_search := None\<rparr>)
                else c1)
      in (c2, \<lparr>goto_set_current = goto_now, search_set_current = search_now, search_seq = sq,
               stale_ack = (accepted \<and> \<not> goto_now \<and> \<not> search_now)\<rparr>))"

definition mission_ack :: "mav_os \<Rightarrow> bool \<Rightarrow> mav_connection \<Rightarrow> mav_connection" where
  "mission_ack env accepted c =
     (case ack_region env accepted c of (c1, r) \<Rightarrow>
        let c2 = (if stale_ack r then log_line Log_stale_ack c1 else c1);
            c3 = (if goto_set_current r then commandAuto env (setCurrentWP env 0 c2) else c2)
        in if search_set_current r then commandAuto env (setCurrentWP env (search_seq r) c3) else c3)"

end
