(* ===== verification/Mav_Session.thy ===== *)
theory Mav_Session
  imports Mav_Connection
begin

text \<open>
  The threads of the autopilot connection, \<open>src/mav/mavlink.cpp\<close>: the handling of a received
  message and the receive loop, a pass of the heartbeat loop, and the reconnector's dial,
  teardown and retry; and the facade \<open>MAV\<close> that the state machine calls (\<open>src/mav/mav.cpp\<close>).
\<close>

section \<open>Receiving\<close>

definition isFromAutopilot :: "u8 \<Rightarrow> bool" where
  "isFromAutopilot sysid = (sysid = TARGET_SYS_ID)"

definition checkFailsafeConfig :: "mav_os \<Rightarrow> u8 \<Rightarrow> mav_connection \<Rightarrow> mav_connection" where
  "checkFailsafeConfig env autopilot_type c =
     fold (\<lambda>chk c. fst (sendMavLinkMsgLocked env
              (Msg_param_request_read TARGET_SYS_ID TARGET_COMP_ID (pack_fixed_width_field 16 (fp_name chk))) c))
       (expected_failsafe_params (me_consts env) autopilot_type (mc_term_action c)) c"

definition checkFailsafeParamReply :: "mav_os \<Rightarrow> string \<Rightarrow> dbl \<Rightarrow> mav_connection \<Rightarrow> mav_connection option" where
  "checkFailsafeParamReply env param_id val c =
     (case findExistingSystem TARGET_SYS_ID (mc_systems c) of
        None \<Rightarrow> Some c
      | Some sys \<Rightarrow>
          (case find (\<lambda>chk. param_id = fp_name chk)
                  (expected_failsafe_params (me_consts env) (ms_autopilot_type sys) (mc_term_action c)) of
             None \<Rightarrow> Some c
           | Some chk \<Rightarrow>
               map_option (\<lambda>ok. if ok then c else log_line (Log_failsafe_param param_id val) c) (fp_accept chk val)))"

definition handleAutopilotRestart :: "mav_connection \<Rightarrow> mav_connection" where
  "handleAutopilotRestart c =
     (let c1 = log_line Log_restart_detected c;
          c2 = c1\<lparr>mc_systems := resetAllSetup (mc_systems c1)\<rparr>
      in case invalidateInFlightUploadLocked c2 of (c3, upload_lost) \<Rightarrow>
         let c4 = (if upload_lost then logUploadInvalidated ''an autopilot restart'' c3 else c3)
         in if mc_restart_cb c4 then emit Cb_autopilot_restart c4 else c4)"

definition noteTimeBootMs :: "u32 \<Rightarrow> mav_connection \<Rightarrow> mav_connection" where
  "noteTimeBootMs time_boot_ms c =
     (if time_boot_ms = 0 then c
      else let c1 = (if autopilot_restarted (mc_last_time_boot_ms c) time_boot_ms autopilot_restart_margin_ms
                     then handleAutopilotRestart c else c)
        in c1\<lparr>mc_last_time_boot_ms := time_boot_ms\<rparr>)"

definition report_position :: "dbl \<Rightarrow> dbl \<Rightarrow> dbl \<Rightarrow> u16 \<Rightarrow> u16 \<Rightarrow> i16 \<Rightarrow> bool \<Rightarrow> dbl \<Rightarrow> mav_connection \<Rightarrow> mav_connection" where
  "report_position lat lng alt hdg vh vv fix_valid alt_agl c =
     (if mc_position_cb c
      then emit (Cb_position (PositionData_own lat lng alt hdg vh vv
             (if fix_valid then POSITION_FLAG_VALID_COORDS else 0) alt_agl)) c
      else c)"

definition report_battery_status :: "i8 \<Rightarrow> i32 \<Rightarrow> dbl \<Rightarrow> mav_connection \<Rightarrow> mav_connection" where
  "report_battery_status remaining consumed voltage c =
     (if mc_battery_cb c
      then emit (Cb_battery \<lparr>bd_remaining = remaining, bd_consumed = consumed, bd_voltage = voltage\<rparr>) c else c)"

definition report_reached :: "u16 \<Rightarrow> mav_connection \<Rightarrow> mav_connection" where
  "report_reached sq c =
     (case next_search_point_after_reached_seq sq of
        Some nxt \<Rightarrow> if mc_reached_cb c then emit (Cb_reached nxt) c else c
      | None \<Rightarrow> c)"

definition setup_system :: "mav_os \<Rightarrow> u8 \<Rightarrow> u8 \<Rightarrow> mav_connection \<Rightarrow> mav_connection" where
  "setup_system env sysid compid c =
     (let position = mp_position_stream_interval_us (mc_params c);
          battery = mp_battery_stream_interval_us (mc_params c);
          c1 = (if sysid = TARGET_SYS_ID
                then requestStream env sysid compid ID_GPS_RAW_INT battery
                  (requestStream env sysid compid ID_BATTERY_STATUS battery
                    (requestStream env sysid compid ID_GLOBAL_POSITION_INT position c))
                else c)
      in c1\<lparr>mc_systems := onSystem sysid (\<lambda>s. s\<lparr>ms_setup := True\<rparr>) (mc_systems c1)\<rparr>)"

definition register_sender :: "mav_os \<Rightarrow> u8 \<Rightarrow> u8 \<Rightarrow> mav_connection \<Rightarrow> mav_connection" where
  "register_sender env sysid compid c =
     (let c1 = c\<lparr>mc_systems := onSystem sysid (findComponent compid) (findSystem sysid (mc_systems c))\<rparr>
      in case findExistingSystem sysid (mc_systems c1) of
           Some sys \<Rightarrow> if ms_setup sys then c1 else setup_system env sysid compid c1
         | None \<Rightarrow> c1)"

definition on_heartbeat :: "mav_os \<Rightarrow> u8 \<Rightarrow> u8 \<Rightarrow> u32 \<Rightarrow> mav_connection \<Rightarrow> mav_connection" where
  "on_heartbeat env sysid autopilot_type custom_mode c =
     (let c1 = c\<lparr>mc_systems := onSystem sysid
                   (\<lambda>s. s\<lparr>ms_autopilot_type := autopilot_type, ms_flight_mode := ucast custom_mode\<rparr>) (mc_systems c),
                 mc_last_heartbeat_ts := me_now env\<rparr>;
          c2 = replayPendingMode env autopilot_type c1
      in case findExistingSystem sysid (mc_systems c2) of
           Some sys \<Rightarrow>
             if checkedFailsafeFor autopilot_type sys then c2
             else let c3 = checkFailsafeConfig env autopilot_type c2
               in c3\<lparr>mc_systems := onSystem sysid (markFailsafeCheckedFor autopilot_type) (mc_systems c3)\<rparr>
         | None \<Rightarrow> c2)"

definition on_position :: "mav_os \<Rightarrow> global_position_int \<Rightarrow> mav_connection \<Rightarrow> mav_connection option" where
  "on_position env gp c =
     (let c1 = noteTimeBootMs (gp_time_boot_ms gp) c;
          latd = degE7_to_degrees (gp_lat gp);
          lngd = degE7_to_degrees (gp_lon gp)
      in case horizontal_velocity (me_hypot env) (gp_vx gp) (gp_vy gp) of
           None \<Rightarrow> None
         | Some vh \<Rightarrow>
             let c2 = c1\<lparr>mc_last_position := \<lparr>latitude = latd, longitude = lngd\<rparr>\<rparr>;
                 fix_valid = (mc_gps_fix_type c2 \<ge> GPS_FIX_TYPE_2D_FIX (me_consts env))
             in Some (report_position latd lngd (mav_mm_to_metres (gp_alt gp)) (gp_hdg gp) vh (gp_vz gp) fix_valid
                       (mav_mm_to_metres (gp_relative_alt gp)) c2))"

definition for_us :: "u8 \<Rightarrow> u8 \<Rightarrow> bool" where
  "for_us sys tcomp = (sys = SYS_ID \<and> tcomp = COMP_ID)"

definition handle_payload :: "mav_os \<Rightarrow> u8 \<Rightarrow> mav_payload \<Rightarrow> mav_connection \<Rightarrow> mav_connection option" where
  "handle_payload env sysid payload c =
     (let from_autopilot = (\<lambda>handle. if isFromAutopilot sysid then handle c
                                      else Some (log_line (Log_not_autopilot sysid) c))
      in case payload of
           In_heartbeat t custom_mode \<Rightarrow> from_autopilot (\<lambda>c. Some (on_heartbeat env sysid t custom_mode c))
         | In_global_position_int gp \<Rightarrow> from_autopilot (on_position env gp)
         | In_battery_status consumed remaining voltage0 \<Rightarrow>
             from_autopilot (\<lambda>c. Some (report_battery_status remaining consumed (battery_pack_voltage_v voltage0) c))
         | In_mission_item_reached sq \<Rightarrow> from_autopilot (\<lambda>c. Some (report_reached sq c))
         | In_mission_request sys tcomp sq mt \<Rightarrow>
             from_autopilot (\<lambda>c. if for_us sys tcomp then send_waypoint env sq mt c else Some c)
         | In_mission_request_int sys tcomp sq mt \<Rightarrow>
             from_autopilot (\<lambda>c. if for_us sys tcomp then send_waypoint env sq mt c else Some c)
         | In_mission_ack sys tcomp t \<Rightarrow>
             from_autopilot (\<lambda>c. Some (if for_us sys tcomp
                                        then mission_ack env (t = MAV_MISSION_ACCEPTED (me_consts env)) c else c))
         | In_gps_raw_int fix_type \<Rightarrow> from_autopilot (\<lambda>c. Some (c\<lparr>mc_gps_fix_type := fix_type\<rparr>))
         | In_system_time time_boot_ms \<Rightarrow> from_autopilot (\<lambda>c. Some (noteTimeBootMs time_boot_ms c))
         | In_param_value field val \<Rightarrow>
             from_autopilot (checkFailsafeParamReply env (field_text (take 16 field)) val)
         | In_expected \<Rightarrow> Some c
         | In_statustext field \<Rightarrow> Some (log_line (Log_status_text (field_text (take 50 field))) c)
         | In_unhandled msgid \<Rightarrow> Some (log_line (Log_unhandled msgid) c))"

definition processMavLinkMsg :: "mav_os \<Rightarrow> mav_in \<Rightarrow> mav_connection \<Rightarrow> mav_connection option" where
  "processMavLinkMsg env msg c =
     handle_payload env (in_sysid msg) (in_payload msg) (register_sender env (in_sysid msg) (in_compid msg) c)"

fun process_all :: "(mav_os \<times> mav_in) list \<Rightarrow> mav_connection \<Rightarrow> mav_connection option" where
  "process_all [] c = Some c"
| "process_all ((env, msg) # rest) c =
     (case processMavLinkMsg env msg c of None \<Rightarrow> None | Some c1 \<Rightarrow> process_all rest c1)"

text \<open>
  What one \<open>recv\<close> brings: bytes that complete some messages, a wakeup, or the end of the
  socket. A script that is used up leaves the thread in \<open>recv\<close>.
\<close>

datatype recv_result = Recv_data "(mav_os \<times> mav_in) list" | Recv_retry | Recv_closed

fun processMessages :: "recv_result list \<Rightarrow> mav_connection \<Rightarrow> mav_connection option" where
  "processMessages [] c = Some (if mc_fd c = None then c\<lparr>mc_broken := True\<rparr> else c)"
| "processMessages (r # rs) c =
     (if mc_fd c = None then Some (c\<lparr>mc_broken := True\<rparr>)
      else case r of
        Recv_data ms \<Rightarrow> (case process_all ms c of None \<Rightarrow> None | Some c1 \<Rightarrow> processMessages rs c1)
      | Recv_retry \<Rightarrow> processMessages rs c
      | Recv_closed \<Rightarrow> Some (c\<lparr>mc_broken := True\<rparr>))"

section \<open>Heartbeat loop\<close>

definition heartbeat_timeout_ms :: u64 where
  "heartbeat_timeout_ms = 5000"

text \<open>The report on an edge of the link, with the goto upload that a drop loses.\<close>

definition report_link_edge :: "bool \<Rightarrow> bool \<Rightarrow> mav_connection \<Rightarrow> mav_connection" where
  "report_link_edge fd_open up c =
     (let c1 = c\<lparr>mc_comms_ok := up\<rparr>;
          c3 = (if \<not> up then
                  let c2 = log_line (Log_link_down fd_open) c1;
                      goto_upload_lost = mc_goto_ack_pending c2;
                      c2' = c2\<lparr>mc_goto_ack_pending := False\<rparr>
                  in if goto_upload_lost then log_line Log_goto_upload_lost c2' else c2'
                else c1)
      in if mc_comms_cb c3
         then emit (Cb_comms (if up then mav_comms_status_ok else mav_comms_status_failure)) c3 else c3)"

definition heartbeat_pass :: "mav_os \<Rightarrow> mav_connection \<Rightarrow> mav_connection" where
  "heartbeat_pass env c =
     (let fd_open = (mc_fd c \<noteq> None);
          c1 = (if fd_open then sendHeartBeat env c else c);
          now = me_now env;
          last_heartbeat = mc_last_heartbeat_ts c1;
          up = mav_comms_is_up fd_open now last_heartbeat heartbeat_timeout_ms;
          c2 = (if up \<noteq> mc_comms_ok c1 then report_link_edge fd_open up c1 else c1)
      in if mav_link_should_retire fd_open now last_heartbeat (mc_connected_since_ts c2) heartbeat_timeout_ms
         then (let c3 = c2\<lparr>mc_broken := True\<rparr> in if mc_broken c2 then c3 else log_line Log_retire c3)
         else c2)"

section \<open>Dial, teardown and retry\<close>

text \<open>The first address that connects wins; the others are tried in turn.\<close>

fun dial_endpoints :: "nat option list \<Rightarrow> mav_connection \<Rightarrow> nat option \<times> mav_connection" where
  "dial_endpoints [] c = (None, c)"
| "dial_endpoints (Some fd # rest) c = (Some fd, c)"
| "dial_endpoints (None # rest) c =
     dial_endpoints rest (if rest \<noteq> [] then log_line (Log_trying_more (length rest)) c else c)"

definition connect_to_mav :: "mav_os \<Rightarrow> mav_connection \<Rightarrow> mav_connection" where
  "connect_to_mav env c =
     (let c1 = emit (Sock_dial (me_dial_ts env)) (c\<lparr>mc_last_tried := me_dial_ts env\<rparr>)
      in if me_endpoints env = [] then log_line Log_no_address c1
         else case dial_endpoints (me_endpoints env) c1 of
           (None, c2) \<Rightarrow> c2
         | (Some fd, c2) \<Rightarrow>
             c2\<lparr>mc_retry_count := 0, mc_broken := False, mc_connected_since_ts := me_connected_ts env,
                mc_fd := Some fd, mc_recv_thread := True\<rparr>)"

text \<open>The join waits for the receive thread, whose last write flags the connection broken.\<close>

definition disconnect_from_mav :: "mav_connection \<Rightarrow> mav_connection" where
  "disconnect_from_mav c =
     (let orig_fd = mc_fd c;
          c1 = c\<lparr>mc_fd := None\<rparr>;
          c2 = (case orig_fd of Some fd \<Rightarrow> emit (Sock_shutdown fd) c1 | None \<Rightarrow> c1);
          c3 = (if mc_recv_thread c2 then c2\<lparr>mc_broken := True, mc_recv_thread := False\<rparr> else c2);
          c4 = (case orig_fd of Some fd \<Rightarrow> emit (Sock_close fd) c3 | None \<Rightarrow> c3)
      in c4\<lparr>mc_systems := resetAllSetup (mc_systems c4)\<rparr>)"

definition attemptReconnect :: "mav_os \<Rightarrow> mav_connection \<Rightarrow> mav_connection" where
  "attemptReconnect env c =
     (let c1 = (if mc_broken c then (disconnect_from_mav c)\<lparr>mc_broken := False\<rparr> else c)
      in if mc_fd c1 = None then
           let elapsed_time = me_now env - mc_last_tried c1
           in if reconnect_due (mc_retry_count c1) elapsed_time
              then connect_to_mav env (c1\<lparr>mc_retry_count := mc_retry_count c1 + 1\<rparr>) else c1
         else c1)"

definition mav_start :: "mav_os \<Rightarrow> mav_connection \<Rightarrow> mav_connection" where
  "mav_start env c = (if mc_started c then c else connect_to_mav env (c\<lparr>mc_started := True\<rparr>))"

definition mav_connection_destroy :: "mav_connection \<Rightarrow> mav_connection" where
  "mav_connection_destroy c = disconnect_from_mav (c\<lparr>mc_stopping := True\<rparr>)"

definition registerPositionCB :: "bool \<Rightarrow> mav_connection \<Rightarrow> mav_connection" where
  "registerPositionCB cb c = c\<lparr>mc_position_cb := cb\<rparr>"

definition registerReachedCB :: "bool \<Rightarrow> mav_connection \<Rightarrow> mav_connection" where
  "registerReachedCB cb c = c\<lparr>mc_reached_cb := cb\<rparr>"

definition registerBatteryCB :: "bool \<Rightarrow> mav_connection \<Rightarrow> mav_connection" where
  "registerBatteryCB cb c = c\<lparr>mc_battery_cb := cb\<rparr>"

definition registerMavCommsStatusCB :: "bool \<Rightarrow> mav_connection \<Rightarrow> mav_connection" where
  "registerMavCommsStatusCB cb c = c\<lparr>mc_comms_cb := cb\<rparr>"

definition registerAutopilotRestartCB :: "bool \<Rightarrow> mav_connection \<Rightarrow> mav_connection" where
  "registerAutopilotRestartCB cb c = c\<lparr>mc_restart_cb := cb\<rparr>"

section \<open>The facade\<close>

record MAV =
  mv_connection :: mav_connection
  mv_goto_position :: point
  mv_target_altitude :: u32
  mv_action :: terminate_action

definition MAV_new :: "mavlink_consts \<Rightarrow> MavParams \<Rightarrow> terminate_action \<Rightarrow> MAV" where
  "MAV_new K t_params ta =
     \<lparr>mv_connection = mav_connection_init K t_params ta, mv_goto_position = Point_default,
      mv_target_altitude = 0, mv_action = ta\<rparr>"

definition on_connection :: "(mav_connection \<Rightarrow> mav_connection \<times> bool) \<Rightarrow> MAV \<Rightarrow> MAV \<times> bool" where
  "on_connection f m = (case f (mv_connection m) of (c, sent) \<Rightarrow> (m\<lparr>mv_connection := c\<rparr>, sent))"

definition MAV_setMode :: "mav_os \<Rightarrow> flight_mode \<Rightarrow> MAV \<Rightarrow> MAV \<times> bool" where
  "MAV_setMode env fm m =
     (case fm of
        flight_mode_manual \<Rightarrow> on_connection (commandManual env) m
      | flight_mode_goto \<Rightarrow> on_connection (commandGoto env (mv_goto_position m)) m
      | flight_mode_hold \<Rightarrow> on_connection (commandHold env) m
      | flight_mode_unknown \<Rightarrow> on_connection (commandRTL env) m
      | flight_mode_rtl \<Rightarrow> on_connection (commandRTL env) m)"

definition MAV_disarm :: "mav_os \<Rightarrow> MAV \<Rightarrow> MAV \<times> bool" where
  "MAV_disarm env m = on_connection (commandDisARM env) m"

definition MAV_terminate :: "mav_os \<Rightarrow> MAV \<Rightarrow> MAV \<times> bool" where
  "MAV_terminate env m =
     (case mv_action m of
        terminate_terminate \<Rightarrow> on_connection (commandTerminate env) m
      | terminate_disarm \<Rightarrow> on_connection (commandForceDisARM env) m
      | terminate_none \<Rightarrow> on_connection (\<lambda>c. commandRTL env (log_line Log_terminate_none c)) m)"

definition MAV_gotoPosition :: "point \<Rightarrow> MAV \<Rightarrow> MAV" where
  "MAV_gotoPosition p m = m\<lparr>mv_goto_position := p\<rparr>"

definition MAV_setAltitude :: "mav_os \<Rightarrow> u32 \<Rightarrow> MAV \<Rightarrow> (MAV \<times> bool) option" where
  "MAV_setAltitude env alt m =
     map_option (\<lambda>(c, sent). (m\<lparr>mv_target_altitude := alt, mv_connection := c\<rparr>, sent))
       (commandAltitude env alt (mv_connection m))"

text \<open>\<open>strncpy\<close> of at most eight characters up to the first NUL into nine zero bytes.\<close>

definition MAV_sendADSB :: "mav_os \<Rightarrow> PositionData \<Rightarrow> MAV \<Rightarrow> MAV option" where
  "MAV_sendADSB env pd m =
     (let callsign = pack_fixed_width_field 8 (field_text (pd_callsign pd)) @ [CHR 0x00]
      in map_option (\<lambda>c. m\<lparr>mv_connection := c\<rparr>) (sendADSB env pd callsign 0 (mv_connection m)))"

definition MAV_getCurrentPosition :: "MAV \<Rightarrow> point" where
  "MAV_getCurrentPosition m = mc_last_position (mv_connection m)"

definition MAV_loadSearch :: "mav_os \<Rightarrow> nat option \<Rightarrow> MAV \<Rightarrow> MAV" where
  "MAV_loadSearch env t_search m = m\<lparr>mv_connection := loadSearch env t_search (mv_connection m)\<rparr>"

end
