(* ===== verification/Mav_Upload.thy ===== *)
theory Mav_Upload
  imports Mav_Session
begin

text \<open>
  Correctness of the mission upload of the autopilot connection. The threads take turns at the
  granularity of the critical sections of \<open>state_lock\<close>: \<open>mav_region\<close> is one such section of
  any operation, or anything that leaves the upload state alone, and every operation of
  \<open>Mav_Connection\<close> and \<open>Mav_Session\<close> is shown to be a sequence of them.
\<close>

section \<open>Sending leaves the state alone\<close>

lemma send_fields [simp]:
  "mc_fd (fst (sendMavLinkMsgLocked env msg c)) = mc_fd c"
  "mc_last_tried (fst (sendMavLinkMsgLocked env msg c)) = mc_last_tried c"
  "mc_retry_count (fst (sendMavLinkMsgLocked env msg c)) = mc_retry_count c"
  "mc_stopping (fst (sendMavLinkMsgLocked env msg c)) = mc_stopping c"
  "mc_started (fst (sendMavLinkMsgLocked env msg c)) = mc_started c"
  "mc_recv_thread (fst (sendMavLinkMsgLocked env msg c)) = mc_recv_thread c"
  "mc_last_heartbeat_ts (fst (sendMavLinkMsgLocked env msg c)) = mc_last_heartbeat_ts c"
  "mc_connected_since_ts (fst (sendMavLinkMsgLocked env msg c)) = mc_connected_since_ts c"
  "mc_comms_ok (fst (sendMavLinkMsgLocked env msg c)) = mc_comms_ok c"
  "mc_comms_cb (fst (sendMavLinkMsgLocked env msg c)) = mc_comms_cb c"
  "mc_restart_cb (fst (sendMavLinkMsgLocked env msg c)) = mc_restart_cb c"
  "mc_position_cb (fst (sendMavLinkMsgLocked env msg c)) = mc_position_cb c"
  "mc_battery_cb (fst (sendMavLinkMsgLocked env msg c)) = mc_battery_cb c"
  "mc_reached_cb (fst (sendMavLinkMsgLocked env msg c)) = mc_reached_cb c"
  "mc_systems (fst (sendMavLinkMsgLocked env msg c)) = mc_systems c"
  "mc_last_position (fst (sendMavLinkMsgLocked env msg c)) = mc_last_position c"
  "mc_search (fst (sendMavLinkMsgLocked env msg c)) = mc_search c"
  "mc_search_loading (fst (sendMavLinkMsgLocked env msg c)) = mc_search_loading c"
  "mc_search_loaded (fst (sendMavLinkMsgLocked env msg c)) = mc_search_loaded c"
  "mc_goto_position (fst (sendMavLinkMsgLocked env msg c)) = mc_goto_position c"
  "mc_goto_active (fst (sendMavLinkMsgLocked env msg c)) = mc_goto_active c"
  "mc_goto_ack_pending (fst (sendMavLinkMsgLocked env msg c)) = mc_goto_ack_pending c"
  "mc_gps_fix_type (fst (sendMavLinkMsgLocked env msg c)) = mc_gps_fix_type c"
  "mc_last_time_boot_ms (fst (sendMavLinkMsgLocked env msg c)) = mc_last_time_boot_ms c"
  "mc_pending_mode (fst (sendMavLinkMsgLocked env msg c)) = mc_pending_mode c"
  "mc_params (fst (sendMavLinkMsgLocked env msg c)) = mc_params c"
  "mc_term_action (fst (sendMavLinkMsgLocked env msg c)) = mc_term_action c"
  by (simp_all add: sendMavLinkMsgLocked_def log_line_def emit_def)

lemmas mav_send_defs =
  setFlightMode_def setCurrentWP_def requestStream_def command_long_def send_count_def sendHeartBeat_def

lemmas mav_log_defs =
  logUploadDropped_def logUploadInvalidated_def logUploadSuperseded_def warnUnresolvedMode_def log_line_def emit_def

text \<open>The operations only add to the trace, and only what satisfies \<open>P\<close>.\<close>

definition does :: "(mav_out \<Rightarrow> bool) \<Rightarrow> mav_connection \<Rightarrow> mav_connection \<Rightarrow> bool" where
  "does P c c' = (\<exists>outs. mc_out c' = mc_out c @ outs \<and> (\<forall>x\<in>set outs. P x))"

lemma does_refl: "mc_out c' = mc_out c \<Longrightarrow> does P c c'"
  by (simp add: does_def)

lemma does_trans: "does P c c' \<Longrightarrow> does P c' c'' \<Longrightarrow> does P c c''"
  by (fastforce simp: does_def)

lemma does_mono: "does P c c' \<Longrightarrow> (\<And>x. P x \<Longrightarrow> Q x) \<Longrightarrow> does Q c c'"
  by (auto simp: does_def)

lemma does_out: "does P c c' \<Longrightarrow> mc_out c'' = mc_out c' \<Longrightarrow> does P c c''"
  by (simp add: does_def)

lemma does_emit: "does P c c' \<Longrightarrow> P x \<Longrightarrow> does P c (emit x c')"
  by (auto simp: does_def emit_def)

lemma does_log: "does P c c' \<Longrightarrow> P (Mav_log l) \<Longrightarrow> does P c (log_line l c')"
  by (simp add: log_line_def does_emit)

lemma does_send:
  assumes "does P c c'" and "P (Sent msg)" and "P (Send_failed msg)" and "P (Mav_log Log_send_failed)"
  shows "does P c (fst (sendMavLinkMsgLocked env msg c'))"
  using assms by (auto simp: does_def sendMavLinkMsgLocked_def log_line_def emit_def)

section \<open>Critical sections\<close>

definition upload_view :: "mav_connection \<Rightarrow> nat option \<times> bool \<times> bool \<times> bool \<times> bool" where
  "upload_view c =
     (mc_search c, mc_search_loading c, mc_search_loaded c, mc_goto_active c, mc_goto_ack_pending c)"

text \<open>
  No caller loads a null search: \<open>loadSearch\<close> is called with the search of an \<open>SmmLoadSearch\<close>
  event, which the search worker reports only for a search it holds.
\<close>

inductive mav_region :: "mav_connection \<Rightarrow> mav_connection \<Rightarrow> bool" where
  other: "upload_view c' = upload_view c \<Longrightarrow> mav_region c c'"
| mode: "mav_region c (fst (mode_region p clear_search c))"
| invalidate: "mav_region c (fst (invalidateInFlightUploadLocked c))"
| replay: "mav_region c (replay_region cmd c)"
| goto_open: "mav_region c (goto_open_region pos c)"
| goto_pending: "mav_region c (goto_pending_region c)"
| load: "mav_region c (fst (load_region (Some i) c))"
| upload: "mav_region c (upload_region i n c)"
| ack: "mav_region c (fst (ack_region env accepted c))"
| link_lost: "mav_region c (c\<lparr>mc_goto_ack_pending := False\<rparr>)"

inductive mav_reachable :: "mav_connection \<Rightarrow> bool" where
  init: "mav_reachable (mav_connection_init K params action)"
| step: "mav_reachable c \<Longrightarrow> mav_region c c' \<Longrightarrow> mav_reachable c'"

definition upload_inv :: "mav_connection \<Rightarrow> bool" where
  "upload_inv c =
     ((if mc_search_loading c \<or> mc_search_loaded c then mc_search c \<noteq> None else True) \<and>
      \<not> (mc_search_loading c \<and> mc_search_loaded c))"

lemmas region_defs =
  mode_region_def invalidateInFlightUploadLocked_def replay_region_def goto_open_region_def
  goto_pending_region_def load_region_def upload_region_def ack_region_def

lemma upload_inv_region: "mav_region c c' \<Longrightarrow> upload_inv c \<Longrightarrow> upload_inv c'"
proof (induction rule: mav_region.induct)
  case (other c' c)
  then show ?case by (simp add: upload_inv_def upload_view_def)
qed (auto simp: upload_inv_def region_defs log_line_def emit_def Let_def split: if_splits)

lemma reachable_upload_inv: "mav_reachable c \<Longrightarrow> upload_inv c"
proof (induction rule: mav_reachable.induct)
  case (init K params action)
  show ?case by (simp add: upload_inv_def mav_connection_init_def)
qed (rule upload_inv_region)

lemma reachable_regions: "mav_region\<^sup>*\<^sup>* c c' \<Longrightarrow> mav_reachable c \<Longrightarrow> mav_reachable c'"
  by (induction rule: rtranclp_induct) (auto intro: mav_reachable.step)

section \<open>A requested item is always defined\<close>

text \<open>A search that can be flown: its altitude is defined and its points can be counted by an \<open>int\<close>.\<close>

definition search_flyable :: "SMMSearch \<Rightarrow> bool" where
  "search_flyable ss = (ss_altitude ss \<noteq> None \<and> length (ss_points ss) < 2 ^ 31)"

lemma degrees_to_degE7_not_None: "degrees_to_degE7 d \<noteq> None"
  using degrees_to_degE7_Some [of d] by auto

lemma waypoint_item_defined:
  assumes inv: "upload_inv c" and "mc_goto_active c \<or> mc_search_loading c"
    and fly: "\<And>i. mc_search c = Some i \<Longrightarrow> search_flyable (me_search env i)"
  shows "waypoint_item env sq mt c \<noteq> None"
proof (cases "mc_goto_active c")
  case True
  then show ?thesis
    by (simp add: waypoint_item_def Let_def mission_item_for_go_to MissionItem_of_def degrees_to_degE7_not_None
        split: option.splits)
next
  case False
  with assms obtain i where i: "mc_search c = Some i" by (auto simp: upload_inv_def)
  let ?n = "length (ss_points (me_search env i))"
  obtain alt where alt: "ss_altitude (me_search env i) = Some alt" and "?n < 2 ^ 31"
    using fly [OF i] by (auto simp: search_flyable_def)
  have n: "word_of_int (getPointsCount (me_search env i)) = (of_nat ?n :: size_t)"
    by (simp add: getPointsCount_def)
  let ?item = "mission_item_for sq (of_nat ?n) plan_search"
  note step = waypoint_item_def Let_def i n alt degrees_to_degE7_not_None
  show ?thesis
  proof (cases "mi_kind ?item")
    case kind_search_point
    then have "unat (mi_point_index ?item) < ?n"
      using \<open>?n < 2 ^ 31\<close> by (rule mission_item_for_index)
    then show ?thesis using False kind_search_point by (simp add: step split: option.splits)
  next
    case kind_goto_point
    then show ?thesis by (simp add: mission_item_for_def MissionItem_of_def split: if_splits)
  qed (use False in \<open>simp_all add: step\<close>)
qed

text \<open>C14: however the critical sections of the threads interleave, a request for any sequence number of the mission is served without dereferencing a null search, without reading past its waypoints and with every conversion defined.\<close>

theorem send_waypoint_never_null:
  assumes "mav_reachable c" and "\<And>i. mc_search c = Some i \<Longrightarrow> search_flyable (me_search env i)"
  shows "send_waypoint env sq mt c \<noteq> None"
  using waypoint_item_defined [OF reachable_upload_inv [OF assms(1)] _ assms(2), of sq mt]
  by (auto simp: send_waypoint_def)

section \<open>Every operation is a sequence of critical sections\<close>

abbreviation regions :: "mav_connection \<Rightarrow> mav_connection \<Rightarrow> bool" where
  "regions \<equiv> mav_region\<^sup>*\<^sup>*"

lemma regions_step: "regions c c' \<Longrightarrow> mav_region c' c'' \<Longrightarrow> regions c c''"
  by (rule rtranclp.rtrancl_into_rtrancl)

lemma regions_other: "upload_view c' = upload_view c \<Longrightarrow> regions c c'"
  by (intro r_into_rtranclp mav_region.other)

lemma upload_view_send [simp]: "upload_view (fst (sendMavLinkMsgLocked env msg c)) = upload_view c"
  by (simp add: upload_view_def)

lemma upload_view_log [simp]:
  "upload_view (log_line l c) = upload_view c" "upload_view (emit x c) = upload_view c"
  by (simp_all add: upload_view_def mav_log_defs)

lemma upload_view_logs [simp]:
  "upload_view (logUploadDropped command cause c) = upload_view c"
  "upload_view (logUploadInvalidated nm c) = upload_view c"
  "upload_view (warnUnresolvedMode command c) = upload_view c"
  by (simp_all add: upload_view_def mav_log_defs)

lemma regions_then_other: "regions c c' \<Longrightarrow> upload_view c'' = upload_view c' \<Longrightarrow> regions c c''"
  by (blast intro: rtranclp_trans regions_other)

lemma setResolvedMode_regions: "regions c (fst (setResolvedMode env command clr cause c))"
proof (cases "resolve_mav_mode (me_consts env) (autopilot_type_of c) command")
  case None
  have "regions c (fst (mode_region (Some command) clr c))" by (intro r_into_rtranclp mav_region.mode)
  then show ?thesis
    using None by (auto simp: setResolvedMode_def Let_def split: prod.splits intro: regions_then_other)
next
  case (Some fmode)
  let ?c1 = "fst (setFlightMode env fmode c)"
  have "regions c ?c1" by (intro regions_other) (simp add: mav_send_defs)
  then have "regions c (fst (mode_region None clr ?c1))" by (rule regions_step) (rule mav_region.mode)
  then show ?thesis
    using Some by (auto simp: setResolvedMode_def Let_def split: prod.splits intro: regions_then_other)
qed

lemma command_regions:
  "regions c (fst (commandRTL env c))" "regions c (fst (commandManual env c))"
  "regions c (fst (commandHold env c))" "regions c (commandAuto env c)" "regions c (fst (commandRTLForUpload env c))"
  by (simp_all add: commandRTL_def commandManual_def commandHold_def commandAuto_def commandRTLForUpload_def
      setResolvedMode_regions)

lemma takeover_command_regions: "regions c (fst (takeover_command env cmd ps nm c))"
proof -
  let ?c1 = "fst (command_long env cmd ps c)"
  have "regions c ?c1" by (intro regions_other) (simp add: mav_send_defs)
  then have "regions c (fst (invalidateInFlightUploadLocked ?c1))" by (rule regions_step) (rule mav_region.invalidate)
  then show ?thesis by (auto simp: takeover_command_def Let_def split: prod.splits intro: regions_then_other)
qed

lemma commandGoto_regions: "regions c (fst (commandGoto env p c))"
proof -
  let ?c1 = "goto_open_region p (fst (commandRTLForUpload env c))"
  let ?c2 = "fst (send_count env (ucast (mission_count_for 0 plan_go_to)) ?c1)"
  have "regions c ?c1" using command_regions(5) by (rule regions_step) (rule mav_region.goto_open)
  then have c2: "regions c ?c2" by (rule regions_then_other) (simp add: mav_send_defs)
  then have "regions c (goto_pending_region ?c2)" by (rule regions_step) (rule mav_region.goto_pending)
  with c2 show ?thesis by (auto simp: commandGoto_def split: prod.splits intro: regions_then_other)
qed

lemma loadSearch_regions: "regions c (loadSearch env (Some i) c)"
proof -
  let ?n = "word_of_int (getPointsCount (me_search env i))"
  let ?c1 = "fst (load_region (Some i) c)"
  let ?c2 = "upload_region i ?n (fst (commandRTLForUpload env ?c1))"
  let ?c3 = "fst (send_count env (ucast (mission_count_for ?n plan_search)) ?c2)"
  have c1: "regions c ?c1" by (intro r_into_rtranclp mav_region.load)
  then have "regions c (fst (commandRTLForUpload env ?c1))" using command_regions(5) by (rule rtranclp_trans)
  then have "regions c ?c2" by (rule regions_step) (rule mav_region.upload)
  then have "regions c ?c3" by (rule regions_then_other) (simp add: mav_send_defs)
  with c1 show ?thesis
    by (auto simp: loadSearch_def uploadSearch_def Let_def split: prod.splits intro: regions_then_other)
qed

lemma mission_ack_regions: "regions c (mission_ack env accepted c)"
proof -
  obtain c1 r where r: "ack_region env accepted c = (c1, r)" by fastforce
  have c1: "regions c c1" using mav_region.ack [of c env accepted] r by auto
  have engage: "regions c (commandAuto env (setCurrentWP env sq d))" if "regions c d" for d sq
  proof (rule rtranclp_trans [OF _ command_regions(4)])
    show "regions c (setCurrentWP env sq d)"
      using that by (rule regions_then_other) (simp add: mav_send_defs)
  qed
  have "regions c (if stale_ack r then log_line Log_stale_ack c1 else c1)"
    using c1 by (auto intro: regions_then_other)
  then show ?thesis
    unfolding mission_ack_def r prod.case Let_def
    by (auto intro!: engage)
qed

lemma upload_view_reconnect:
  "upload_view (disconnect_from_mav c) = upload_view c"
  "upload_view (connect_to_mav env c) = upload_view c"
  "upload_view (attemptReconnect env c) = upload_view c"
  "upload_view (mav_start env c) = upload_view c"
proof -
  show d: "upload_view (disconnect_from_mav c) = upload_view c" for c
    by (simp add: disconnect_from_mav_def upload_view_def emit_def Let_def split: option.splits)
  have "upload_view (snd (dial_endpoints es c)) = upload_view c" for es c
    by (induction es c rule: dial_endpoints.induct) auto
  then have de: "dial_endpoints es c = (r, c') \<Longrightarrow> upload_view c' = upload_view c" for es c r c'
    by (metis snd_conv)
  have lift: "upload_view (c\<lparr>mc_retry_count := n, mc_broken := b, mc_connected_since_ts := t, mc_fd := fd,
      mc_recv_thread := r\<rparr>) = upload_view c" "upload_view (c\<lparr>mc_last_tried := t\<rparr>) = upload_view c" for c n b t fd r
    by (simp_all add: upload_view_def)
  show cn: "upload_view (connect_to_mav env c) = upload_view c" for c
  proof -
    let ?c1 = "emit (Sock_dial (me_dial_ts env)) (c\<lparr>mc_last_tried := me_dial_ts env\<rparr>)"
    obtain r c2 where r: "dial_endpoints (me_endpoints env) ?c1 = (r, c2)" by fastforce
    show ?thesis using de [OF r] by (cases r) (simp_all add: connect_to_mav_def Let_def r lift)
  qed
  have v: "upload_view (c\<lparr>mc_broken := b\<rparr>) = upload_view c" "upload_view (c\<lparr>mc_retry_count := n\<rparr>) = upload_view c"
    "upload_view (c\<lparr>mc_started := b\<rparr>) = upload_view c" for c b n
    by (simp_all add: upload_view_def)
  show "upload_view (attemptReconnect env c) = upload_view c"
    by (simp add: attemptReconnect_def Let_def d cn v)
  show "upload_view (mav_start env c) = upload_view c"
    by (simp add: mav_start_def cn v)
qed

lemma replayPendingMode_regions: "regions c (replayPendingMode env t c)"
proof -
  have "regions c (replay_region cmd (fst (setFlightMode env fmode c)))" for cmd fmode
    by (rule regions_step [OF regions_other mav_region.replay]) (simp add: mav_send_defs)
  then show ?thesis by (simp add: replayPendingMode_def split: option.splits)
qed

lemma upload_view_fold_send:
  "upload_view (fold (\<lambda>x c. fst (sendMavLinkMsgLocked env (f x) c)) xs c) = upload_view c"
  by (induction xs arbitrary: c) simp_all

lemma upload_view_systems [simp]: "upload_view (c\<lparr>mc_systems := ss\<rparr>) = upload_view c"
  by (simp add: upload_view_def)

lemma register_sender_view: "upload_view (register_sender env sysid compid c) = upload_view c"
  by (simp add: register_sender_def setup_system_def Let_def mav_send_defs split: option.splits)

lemma on_heartbeat_regions: "regions c (on_heartbeat env sysid t m c)"
proof -
  let ?c1 = "c\<lparr>mc_systems := onSystem sysid (\<lambda>s. s\<lparr>ms_autopilot_type := t, ms_flight_mode := ucast m\<rparr>) (mc_systems c),
               mc_last_heartbeat_ts := me_now env\<rparr>"
  have "regions c ?c1" by (intro regions_other) (simp add: upload_view_def)
  then have "regions c (replayPendingMode env t ?c1)"
    by (rule rtranclp_trans) (rule replayPendingMode_regions)
  then show ?thesis
    unfolding on_heartbeat_def Let_def checkFailsafeConfig_def
    by (auto split: option.splits intro: regions_then_other simp: upload_view_fold_send)
qed

lemma handleAutopilotRestart_regions: "regions c (handleAutopilotRestart c)"
proof -
  let ?c1 = "(log_line Log_restart_detected c)\<lparr>mc_systems := resetAllSetup (mc_systems (log_line Log_restart_detected c))\<rparr>"
  have "regions c (fst (invalidateInFlightUploadLocked ?c1))"
    by (rule regions_step [OF regions_other mav_region.invalidate]) simp
  then show ?thesis
    by (auto simp: handleAutopilotRestart_def Let_def split: prod.splits intro: regions_then_other)
qed

lemma noteTimeBootMs_regions: "regions c (noteTimeBootMs t c)"
proof -
  have "upload_view (d\<lparr>mc_last_time_boot_ms := t\<rparr>) = upload_view d" for d by (simp add: upload_view_def)
  then show ?thesis
    using regions_then_other [OF handleAutopilotRestart_regions]
    by (auto simp: noteTimeBootMs_def Let_def intro: regions_other)
qed

lemma upload_view_fields [simp]:
  "upload_view (c\<lparr>mc_last_position := pos\<rparr>) = upload_view c"
  "upload_view (c\<lparr>mc_gps_fix_type := fix_type\<rparr>) = upload_view c"
  by (simp_all add: upload_view_def)

lemma upload_view_handlers:
  "on_position env gp c = Some c' \<Longrightarrow> upload_view c' = upload_view (noteTimeBootMs (gp_time_boot_ms gp) c)"
  "send_waypoint env sq mt c = Some c' \<Longrightarrow> upload_view c' = upload_view c"
  "checkFailsafeParamReply env nm val c = Some c' \<Longrightarrow> upload_view c' = upload_view c"
  "upload_view (report_battery_status remaining consumed voltage c) = upload_view c"
  "upload_view (report_reached sq c) = upload_view c"
  by (auto simp: on_position_def report_position_def send_waypoint_def checkFailsafeParamReply_def
      report_battery_status_def report_reached_def Let_def split: option.splits if_splits)

lemmas handler_regions_dest =
  regions_then_other [OF noteTimeBootMs_regions upload_view_handlers(1)]
  regions_other [OF upload_view_handlers(2)] regions_other [OF upload_view_handlers(3)]

lemmas handler_regions =
  on_heartbeat_regions mission_ack_regions noteTimeBootMs_regions
  regions_other [OF upload_view_handlers(4)] regions_other [OF upload_view_handlers(5)]
  regions_other [OF upload_view_log(1)] regions_other [OF upload_view_fields(2)]

lemma handle_payload_regions:
  assumes "handle_payload env sysid payload c = Some c'"
  shows "regions c c'"
  using assms
  by (cases payload)
     (auto simp: handle_payload_def Let_def intro!: handler_regions dest: handler_regions_dest split: if_splits)

text \<open>Whatever message is received, and whatever the heartbeat loop and the reconnector do.\<close>

lemma processMavLinkMsg_regions:
  assumes "processMavLinkMsg env msg c = Some c'"
  shows "regions c c'"
proof -
  have "regions c (register_sender env (in_sysid msg) (in_compid msg) c)"
    by (intro regions_other register_sender_view)
  then show ?thesis
    using assms handle_payload_regions unfolding processMavLinkMsg_def by (blast intro: rtranclp_trans)
qed

lemma heartbeat_pass_regions: "regions c (heartbeat_pass env c)"
proof -
  have edge: "regions d (report_link_edge fd_open up d)" for d fd_open up
  proof (cases up)
    case True
    then show ?thesis by (intro regions_other) (simp add: report_link_edge_def upload_view_def Let_def emit_def)
  next
    case False
    have "mav_region d (d\<lparr>mc_goto_ack_pending := False\<rparr>)" by (rule mav_region.link_lost)
    moreover have "upload_view (report_link_edge fd_open up d) = upload_view (d\<lparr>mc_goto_ack_pending := False\<rparr>)"
      using False by (simp add: report_link_edge_def upload_view_def Let_def emit_def log_line_def)
    ultimately show ?thesis by (blast intro: r_into_rtranclp regions_then_other)
  qed
  define c1 where "c1 = (if mc_fd c \<noteq> None then sendHeartBeat env c else c)"
  define up where "up = mav_comms_is_up (mc_fd c \<noteq> None) (me_now env) (mc_last_heartbeat_ts c1) heartbeat_timeout_ms"
  define c2 where "c2 = (if up \<noteq> mc_comms_ok c1 then report_link_edge (mc_fd c \<noteq> None) up c1 else c1)"
  have "regions c c1" by (intro regions_other) (simp add: c1_def mav_send_defs)
  then have c2: "regions c c2" unfolding c2_def by (auto intro: rtranclp_trans [OF _ edge])
  then have "regions c (c2\<lparr>mc_broken := True\<rparr>)" "regions c (log_line Log_retire (c2\<lparr>mc_broken := True\<rparr>))"
    by (auto intro: regions_then_other simp: upload_view_def log_line_def emit_def)
  then show ?thesis
    using c2 unfolding heartbeat_pass_def Let_def c1_def [symmetric] up_def [symmetric] c2_def [symmetric] by auto
qed

section \<open>After a takeover\<close>

text \<open>What the other threads do on their own: receive, send heartbeats, reconnect.\<close>

datatype link_input = Link_recv mav_os mav_in | Link_heartbeat mav_os | Link_reconnect mav_os

fun link_env :: "link_input \<Rightarrow> mav_os" where
  "link_env (Link_recv env msg) = env" | "link_env (Link_heartbeat env) = env" | "link_env (Link_reconnect env) = env"

fun link_step :: "link_input \<Rightarrow> mav_connection \<Rightarrow> mav_connection option" where
  "link_step (Link_recv env msg) c = processMavLinkMsg env msg c"
| "link_step (Link_heartbeat env) c = Some (heartbeat_pass env c)"
| "link_step (Link_reconnect env) c = Some (attemptReconnect env c)"

fun link_run :: "link_input list \<Rightarrow> mav_connection \<Rightarrow> mav_connection option" where
  "link_run [] c = Some c"
| "link_run (i # is) c = (case link_step i c of None \<Rightarrow> None | Some c1 \<Rightarrow> link_run is c1)"

datatype takeover = Take_mode MavModeCommand | Take_disarm | Take_force_disarm | Take_terminate | Take_restart

fun take_over :: "mav_os \<Rightarrow> takeover \<Rightarrow> mav_connection \<Rightarrow> mav_connection" where
  "take_over env (Take_mode command) c = fst (setResolvedMode env command True cause_takeover c)"
| "take_over env Take_disarm c = fst (commandDisARM env c)"
| "take_over env Take_force_disarm c = fst (commandForceDisARM env c)"
| "take_over env Take_terminate c = fst (commandTerminate env c)"
| "take_over env Take_restart c = handleAutopilotRestart c"

text \<open>
  A takeover runs in two steps, between which the other threads may run: it sends its message,
  or finds that the mode cannot be resolved yet (\<open>take_send\<close>, which tells whether it is
  deferred); then it takes \<open>state_lock\<close>, invalidates the upload in flight and reports
  (\<open>take_close\<close>).
\<close>

fun take_command :: "takeover \<Rightarrow> mav_cmd \<times> cmd_param list \<times> string" where
  "take_command Take_force_disarm = (MAV_CMD_COMPONENT_ARM_DISARM,
     [P_num 0, P_num 21196, P_num 0, P_num 0, P_num 0, P_num 0, P_num 0], ''force-disarm'')"
| "take_command Take_terminate = (MAV_CMD_DO_FLIGHTTERMINATION,
     [P_num 1, P_num 0, P_num 0, P_num 0, P_num 0, P_num 0, P_num 0], ''terminate'')"
| "take_command _ = (MAV_CMD_COMPONENT_ARM_DISARM,
     [P_num 0, P_num 0, P_num 0, P_num 0, P_num 0, P_num 0, P_num 0], ''disarm'')"

fun take_send :: "mav_os \<Rightarrow> takeover \<Rightarrow> mav_connection \<Rightarrow> mav_connection \<times> bool" where
  "take_send env (Take_mode command) c =
     (case resolve_mav_mode (me_consts env) (autopilot_type_of c) command of
        None \<Rightarrow> (c, True) | Some fmode \<Rightarrow> (fst (setFlightMode env fmode c), False))"
| "take_send env Take_restart c =
     ((log_line Log_restart_detected c)\<lparr>mc_systems := resetAllSetup (mc_systems c)\<rparr>, False)"
| "take_send env tk c = (case take_command tk of (cmd, ps, nm) \<Rightarrow> (fst (command_long env cmd ps c), False))"

fun take_close :: "takeover \<Rightarrow> bool \<Rightarrow> mav_connection \<Rightarrow> mav_connection" where
  "take_close (Take_mode command) deferred c =
     (case mode_region (if deferred then Some command else None) True c of (c1, lost) \<Rightarrow>
        let c2 = (if deferred then warnUnresolvedMode command c1 else c1)
        in if lost then logUploadDropped command cause_takeover c2 else c2)"
| "take_close Take_restart deferred c =
     (case invalidateInFlightUploadLocked c of (c1, lost) \<Rightarrow>
        let c2 = (if lost then logUploadInvalidated ''an autopilot restart'' c1 else c1)
        in if mc_restart_cb c2 then emit Cb_autopilot_restart c2 else c2)"
| "take_close tk deferred c =
     (case invalidateInFlightUploadLocked c of (c1, lost) \<Rightarrow>
        if lost then logUploadInvalidated (snd (snd (take_command tk))) c1 else c1)"

lemma take_over_steps:
  "take_over env tk c = take_close tk (snd (take_send env tk c)) (fst (take_send env tk c))"
proof (cases tk)
  case (Take_mode command)
  then show ?thesis
    by (auto simp: setResolvedMode_def Let_def split: option.splits prod.splits)
qed (auto simp: commandDisARM_def commandForceDisARM_def commandTerminate_def takeover_command_def
      handleAutopilotRestart_def log_line_def emit_def Let_def split: prod.splits)

text \<open>
  A receive handler that has passed its own critical region when the takeover closes still
  finishes: an acknowledgement engages what it had found pending, an item that was looked up
  is sent, a deferred mode that was read is replayed.
\<close>

definition ack_engage :: "mav_os \<Rightarrow> ack_result \<Rightarrow> mav_connection \<Rightarrow> mav_connection" where
  "ack_engage env r c =
     (let c2 = (if stale_ack r then log_line Log_stale_ack c else c);
          c3 = (if goto_set_current r then commandAuto env (setCurrentWP env 0 c2) else c2)
      in if search_set_current r then commandAuto env (setCurrentWP env (search_seq r) c3) else c3)"

lemma mission_ack_steps:
  "mission_ack env accepted c = (case ack_region env accepted c of (c1, r) \<Rightarrow> ack_engage env r c1)"
  by (simp add: mission_ack_def ack_engage_def)

datatype late_handler =
    Late_none
  | Late_ack mav_os ack_result
  | Late_item mav_os mission_item_int
  | Late_replay mav_os MavModeCommand u8

fun late_finish :: "late_handler \<Rightarrow> mav_connection \<Rightarrow> mav_connection" where
  "late_finish Late_none c = c"
| "late_finish (Late_ack env r) c = ack_engage env r c"
| "late_finish (Late_item env it) c =
     fst (sendMavLinkMsgLocked env (Msg_mission_item MISSION_TARGET_SYS_ID TARGET_COMP_ID it) c)"
| "late_finish (Late_replay env command fmode) c = replay_region command (fst (setFlightMode env fmode c))"

text \<open>The modes that a later heartbeat may still ask for: those of the deferred command, if any.\<close>

definition modes_of :: "mavlink_consts \<Rightarrow> MavModeCommand option \<Rightarrow> u8 set" where
  "modes_of K pending = {f. \<exists>cmd t. pending = Some cmd \<and> resolve_mav_mode K t cmd = Some f}"

lemma modes_of_None [simp]: "modes_of K None = {}"
  by (simp add: modes_of_def)

fun quiet_msg :: "u8 set \<Rightarrow> mav_msg \<Rightarrow> bool" where
  "quiet_msg M (Msg_set_mode _ f) = (f \<in> M)"
| "quiet_msg M (Msg_mission_count _ _ _) = False"
| "quiet_msg M (Msg_mission_item _ _ _) = False"
| "quiet_msg M (Msg_mission_set_current _ _ _) = False"
| "quiet_msg M _ = True"

fun quiet :: "u8 set \<Rightarrow> mav_out \<Rightarrow> bool" where
  "quiet M (Sent msg) = quiet_msg M msg"
| "quiet M (Send_failed msg) = quiet_msg M msg"
| "quiet M _ = True"

definition upload_closed :: "mavlink_consts \<Rightarrow> u8 set \<Rightarrow> mav_connection \<Rightarrow> bool" where
  "upload_closed K M c =
     (\<not> mc_goto_active c \<and> \<not> mc_goto_ack_pending c \<and> \<not> mc_search_loading c \<and>
      modes_of K (mc_pending_mode c) \<subseteq> M)"

definition calm :: "mavlink_consts \<Rightarrow> u8 set \<Rightarrow> mav_connection \<Rightarrow> mav_connection \<Rightarrow> bool" where
  "calm K M c c' = (does (quiet M) c c' \<and> upload_closed K M c')"

lemma calm_refl: "upload_closed K M c \<Longrightarrow> calm K M c c"
  by (simp add: calm_def does_refl)

lemma calm_trans: "calm K M c c' \<Longrightarrow> calm K M c' c'' \<Longrightarrow> calm K M c c''"
  by (auto simp: calm_def intro: does_trans)

lemma calm_closed: "calm K M c c' \<Longrightarrow> upload_closed K M c'"
  by (simp add: calm_def)

lemma calm_same:
  assumes "calm K M c c'" and "mc_out c'' = mc_out c'"
    and "mc_goto_active c'' = mc_goto_active c'" and "mc_goto_ack_pending c'' \<longrightarrow> mc_goto_ack_pending c'"
    and "mc_search_loading c'' = mc_search_loading c'"
    and "mc_pending_mode c'' = mc_pending_mode c' \<or> mc_pending_mode c'' = None"
  shows "calm K M c c''"
proof -
  have "modes_of K (mc_pending_mode c'') \<subseteq> modes_of K (mc_pending_mode c')"
    using assms(6) by (auto simp: modes_of_def)
  then show ?thesis using assms(1-5) by (auto simp: calm_def upload_closed_def intro: does_out)
qed

lemma calm_emit: "calm K M c c' \<Longrightarrow> quiet M x \<Longrightarrow> calm K M c (emit x c')"
  by (auto simp: calm_def upload_closed_def emit_def intro: does_emit [unfolded emit_def])

lemma calm_log: "calm K M c c' \<Longrightarrow> calm K M c (log_line l c')"
  by (simp add: log_line_def calm_emit)

lemma calm_send: "calm K M c c' \<Longrightarrow> quiet_msg M msg \<Longrightarrow> calm K M c (fst (sendMavLinkMsgLocked env msg c'))"
  by (auto simp: calm_def upload_closed_def intro: does_send)

lemma calm_fold_send:
  assumes "calm K M c c'" and "\<And>x. x \<in> set xs \<Longrightarrow> quiet_msg M (f x)"
  shows "calm K M c (fold (\<lambda>x c. fst (sendMavLinkMsgLocked env (f x) c)) xs c')"
  using assms by (induction xs arbitrary: c') (auto simp: calm_send)

lemma calm_systems: "calm K M c c' \<Longrightarrow> calm K M c (c'\<lparr>mc_systems := ss\<rparr>)"
  by (erule calm_same) simp_all

lemma calm_register_sender: "upload_closed K M c \<Longrightarrow> calm K M c (register_sender env sysid compid c)"
  by (auto simp: register_sender_def setup_system_def Let_def mav_send_defs split: option.splits
      intro!: calm_systems calm_send calm_refl)

lemma calm_replay:
  assumes "calm K M c c'" and "me_consts env = K"
  shows "calm K M c (replayPendingMode env t c')"
proof (cases "mc_pending_mode c'")
  case None
  then show ?thesis using assms by (simp add: replayPendingMode_def)
next
  case (Some command)
  show ?thesis
  proof (cases "resolve_mav_mode K t command")
    case None
    then show ?thesis using assms Some by (simp add: replayPendingMode_def)
  next
    case (Some fmode)
    then have "fmode \<in> M"
      using assms(1) \<open>mc_pending_mode c' = Some command\<close> by (auto simp: calm_def upload_closed_def modes_of_def)
    then have "calm K M c (fst (setFlightMode env fmode c'))" using assms(1) by (simp add: setFlightMode_def calm_send)
    then have "calm K M c (replay_region command (fst (setFlightMode env fmode c')))"
      by (rule calm_same) (simp_all add: replay_region_def Let_def)
    then show ?thesis
      using Some assms(2) \<open>mc_pending_mode c' = Some command\<close> by (simp add: replayPendingMode_def)
  qed
qed

lemma calm_on_heartbeat:
  assumes "upload_closed K M c" and "me_consts env = K"
  shows "calm K M c (on_heartbeat env sysid t m c)"
proof -
  have "calm K M c (c\<lparr>mc_systems := ss, mc_last_heartbeat_ts := ts\<rparr>)" for ss ts
    using calm_refl [OF assms(1)] by (rule calm_same) simp_all
  note c2 = calm_replay [OF this assms(2)]
  show ?thesis
    unfolding on_heartbeat_def checkFailsafeConfig_def Let_def
    by (auto split: option.splits intro!: c2 calm_systems calm_fold_send)
qed

lemma calm_restart:
  assumes "upload_closed K M c"
  shows "calm K M c (handleAutopilotRestart c)"
proof -
  have "calm K M c (fst (invalidateInFlightUploadLocked (log_line l c\<lparr>mc_systems := ss\<rparr>)))" for l ss
    using calm_systems [OF calm_log [OF calm_refl [OF assms]]]
    by (rule calm_same) (use assms in \<open>simp_all add: invalidateInFlightUploadLocked_def upload_closed_def log_line_def emit_def\<close>)
  then show ?thesis
    by (auto simp: handleAutopilotRestart_def Let_def logUploadInvalidated_def intro!: calm_emit calm_log
        split: prod.splits dest!: sym [of "invalidateInFlightUploadLocked _"])
       (metis fst_conv)+
qed

lemma calm_noteTimeBootMs: "upload_closed K M c \<Longrightarrow> calm K M c (noteTimeBootMs t c)"
  using calm_same [OF calm_restart, of K M c "handleAutopilotRestart c\<lparr>mc_last_time_boot_ms := t\<rparr>"]
    calm_same [OF calm_refl, of K M c "c\<lparr>mc_last_time_boot_ms := t\<rparr>"]
  by (auto simp: noteTimeBootMs_def Let_def calm_refl)

lemma calm_mission_ack:
  assumes "upload_closed K M c"
  shows "calm K M c (mission_ack env accepted c)"
proof -
  have "calm K M c (fst (ack_region env accepted c))"
    using calm_refl [OF assms] by (rule calm_same) (use assms in \<open>simp_all add: ack_region_def Let_def upload_closed_def\<close>)
  moreover have "\<not> goto_set_current (snd (ack_region env accepted c))" "\<not> search_set_current (snd (ack_region env accepted c))"
    using assms by (simp_all add: ack_region_def Let_def upload_closed_def)
  ultimately show ?thesis
    by (cases "ack_region env accepted c") (auto simp: mission_ack_def Let_def intro: calm_log)
qed

lemma calm_on_position:
  assumes "upload_closed K M c" and "on_position env gp c = Some c'"
  shows "calm K M c c'"
proof -
  have "calm K M c (d\<lparr>mc_last_position := pos\<rparr>)" if "calm K M c d" for d pos
    using that by (rule calm_same) simp_all
  note n = this [OF calm_noteTimeBootMs [OF assms(1)]]
  show ?thesis
    using assms(2)
    by (auto simp: on_position_def report_position_def Let_def split: option.splits if_splits intro!: n calm_emit)
qed

lemma calm_send_waypoint: "upload_closed K M c \<Longrightarrow> send_waypoint env sq mt c = Some c' \<Longrightarrow> calm K M c c'"
  by (simp add: send_waypoint_def upload_closed_def [of K M c] calm_refl) (auto simp: upload_closed_def intro: calm_refl)

lemma calm_checkFailsafeParamReply:
  "upload_closed K M c \<Longrightarrow> checkFailsafeParamReply env nm val c = Some c' \<Longrightarrow> calm K M c c'"
  by (auto simp: checkFailsafeParamReply_def split: option.splits if_splits intro: calm_refl calm_log)

lemma calm_reports:
  "upload_closed K M c \<Longrightarrow> calm K M c (report_battery_status remaining consumed voltage c)"
  "upload_closed K M c \<Longrightarrow> calm K M c (report_reached sq c)"
  "upload_closed K M c \<Longrightarrow> calm K M c (c\<lparr>mc_gps_fix_type := fix_type\<rparr>)"
  by (auto simp: report_battery_status_def report_reached_def split: option.splits intro: calm_refl calm_emit)
     (rule calm_same [OF calm_refl], simp_all)

lemmas calm_dest = calm_on_position calm_send_waypoint calm_checkFailsafeParamReply

lemma calm_processMavLinkMsg:
  assumes "upload_closed K M c" and "me_consts env = K" and "processMavLinkMsg env msg c = Some c'"
  shows "calm K M c c'"
proof -
  define d where "d = register_sender env (in_sysid msg) (in_compid msg) c"
  have d: "calm K M c d" unfolding d_def using assms(1) by (rule calm_register_sender)
  then have closed: "upload_closed K M d" by (rule calm_closed)
  have "handle_payload env (in_sysid msg) (in_payload msg) d = Some c'"
    using assms(3) by (simp add: processMavLinkMsg_def d_def)
  then have "calm K M d c'"
    using closed assms(2)
    by (cases "in_payload msg")
       (auto simp: handle_payload_def Let_def split: if_splits dest: calm_dest
         intro!: calm_on_heartbeat calm_mission_ack calm_noteTimeBootMs calm_reports calm_log calm_refl)
  with d show ?thesis by (rule calm_trans)
qed

lemma calm_report_link_edge: "calm K M c d \<Longrightarrow> calm K M c (report_link_edge fd_open up d)"
proof -
  assume d: "calm K M c d"
  have "calm K M c (d\<lparr>mc_comms_ok := up\<rparr>)" using d by (rule calm_same) simp_all
  note base = this calm_log [OF this]
  have "calm K M c (e\<lparr>mc_goto_ack_pending := False\<rparr>)" if "calm K M c e" for e
    using that by (rule calm_same) simp_all
  note this [OF base(2)]
  with base show ?thesis by (auto simp: report_link_edge_def Let_def intro!: calm_emit calm_log)
qed

lemma calm_heartbeat_pass:
  assumes "upload_closed K M c"
  shows "calm K M c (heartbeat_pass env c)"
proof -
  have broken: "calm K M c (d\<lparr>mc_broken := True\<rparr>)" if "calm K M c d" for d
    using that by (rule calm_same) simp_all
  show ?thesis
    unfolding heartbeat_pass_def Let_def sendHeartBeat_def
    by (auto intro!: broken calm_log calm_report_link_edge calm_send calm_refl [OF assms])
qed

lemma calm_reconnect:
  assumes "upload_closed K M c"
  shows "calm K M c (attemptReconnect env c)"
proof -
  have d: "calm K M c (disconnect_from_mav c)"
  proof -
    have "calm K M c (c\<lparr>mc_fd := fd\<rparr>)" for fd using calm_refl [OF assms] by (rule calm_same) simp_all
    note c1 = this calm_emit [OF this]
    have r: "calm K M c (e\<lparr>mc_broken := b, mc_recv_thread := r\<rparr>)" if "calm K M c e" for e b r
      using that by (rule calm_same) simp_all
    show ?thesis
      by (auto simp: disconnect_from_mav_def Let_def split: option.splits intro!: calm_systems calm_emit c1 r)
  qed
  have dial: "calm K M c (snd (dial_endpoints es e))" if "calm K M c e" for es e
    using that by (induction es e rule: dial_endpoints.induct) (simp_all add: calm_log)
  have cn: "calm K M c (connect_to_mav env e)" if "calm K M c e" for e
  proof -
    have tried: "calm K M c (e\<lparr>mc_last_tried := t\<rparr>)" for t using that by (rule calm_same) simp_all
    let ?e1 = "emit (Sock_dial (me_dial_ts env)) (e\<lparr>mc_last_tried := me_dial_ts env\<rparr>)"
    obtain r e2 where r: "dial_endpoints (me_endpoints env) ?e1 = (r, e2)" by fastforce
    have e1: "calm K M c ?e1" by (intro calm_emit tried) simp
    then have e2: "calm K M c e2" using dial [OF e1, of "me_endpoints env"] r by simp
    then have "calm K M c (e2\<lparr>mc_retry_count := n, mc_broken := b, mc_connected_since_ts := t, mc_fd := fd,
        mc_recv_thread := x\<rparr>)" for n b t fd x
      by (rule calm_same) simp_all
    then show ?thesis using e1 e2 by (cases r) (auto simp: connect_to_mav_def Let_def r intro: calm_log)
  qed
  have b: "calm K M c (e\<lparr>mc_broken := x\<rparr>)" "calm K M c (e\<lparr>mc_retry_count := n\<rparr>)" if "calm K M c e" for e x n
    using that by (auto elim!: calm_same)
  show ?thesis
    by (auto simp: attemptReconnect_def Let_def intro!: cn b d calm_refl [OF assms])
qed

lemma calm_link_run:
  assumes "upload_closed K M c" and "\<forall>i\<in>set is. me_consts (link_env i) = K" and "link_run is c = Some c'"
  shows "calm K M c c'"
  using assms
proof (induction "is" arbitrary: c)
  case Nil
  then show ?case by (simp add: calm_refl)
next
  case (Cons i "is")
  obtain c1 where c1: "link_step i c = Some c1" and run: "link_run is c1 = Some c'"
    using Cons.prems(3) by (auto split: option.splits)
  have "calm K M c c1"
    using c1 Cons.prems(1,2)
    by (cases i) (auto intro: calm_processMavLinkMsg calm_heartbeat_pass calm_reconnect)
  moreover from this have "calm K M c1 c'"
    using Cons.IH [OF calm_closed _ run] Cons.prems(2) by simp
  ultimately show ?case by (rule calm_trans)
qed

definition upload_off :: "mav_connection \<Rightarrow> bool" where
  "upload_off c = (\<not> mc_goto_active c \<and> \<not> mc_goto_ack_pending c \<and> \<not> mc_search_loading c)"

lemma upload_off_closed: "upload_closed K (modes_of K (mc_pending_mode c)) c = upload_off c"
  by (simp add: upload_closed_def upload_off_def)

lemma upload_off_same [simp]:
  "upload_off (log_line l c) = upload_off c" "upload_off (emit x c) = upload_off c"
  "upload_off (logUploadInvalidated nm c) = upload_off c" "upload_off (logUploadDropped cmd cause c) = upload_off c"
  "upload_off (warnUnresolvedMode cmd c) = upload_off c" "upload_off (c\<lparr>mc_pending_mode := p\<rparr>) = upload_off c"
  "upload_off (fst (sendMavLinkMsgLocked env msg c)) = upload_off c"
  "upload_off (c\<lparr>mc_search_loaded := b\<rparr>) = upload_off c"
  by (simp_all add: upload_off_def mav_log_defs)

lemma pending_same [simp]:
  "mc_pending_mode (log_line l c) = mc_pending_mode c" "mc_pending_mode (emit x c) = mc_pending_mode c"
  "mc_pending_mode (logUploadInvalidated nm c) = mc_pending_mode c"
  "mc_pending_mode (logUploadDropped cmd cause c) = mc_pending_mode c"
  "mc_pending_mode (warnUnresolvedMode cmd c) = mc_pending_mode c"
  by (simp_all add: mav_log_defs)

lemma invalidate_off: "upload_off (fst (invalidateInFlightUploadLocked c))"
  "mc_pending_mode (fst (invalidateInFlightUploadLocked c)) = mc_pending_mode c"
  by (simp_all add: invalidateInFlightUploadLocked_def upload_off_def)

text \<open>What is deferred once the takeover has closed.\<close>

fun pending_after :: "takeover \<Rightarrow> bool \<Rightarrow> mav_connection \<Rightarrow> MavModeCommand option" where
  "pending_after (Take_mode command) deferred c = (if deferred then Some command else None)"
| "pending_after _ deferred c = mc_pending_mode c"

lemma take_close_closes:
  "upload_off (take_close tk deferred c) \<and> mc_pending_mode (take_close tk deferred c) = pending_after tk deferred c"
proof (cases tk)
  case (Take_mode command)
  then show ?thesis by (simp add: mode_region_def invalidate_off Let_def case_prod_unfold)
qed (use invalidate_off [of c] in \<open>simp_all add: case_prod_unfold Let_def\<close>)

lemma commandAuto_off: "upload_off (commandAuto env c) = upload_off c"
  by (simp add: commandAuto_def setResolvedMode_def setFlightMode_def mode_region_def Let_def case_prod_unfold
      split: option.splits)

lemma late_finish_off: "upload_off (late_finish late c) = upload_off c"
proof (cases late)
  case (Late_ack env r)
  then show ?thesis by (simp add: ack_engage_def Let_def commandAuto_off setCurrentWP_def)
next
  case (Late_replay env command fmode)
  then show ?thesis by (simp add: replay_region_def setFlightMode_def Let_def)
qed simp_all


definition sample_consts :: mavlink_consts where
  "sample_consts =
     \<lparr>MAV_TYPE_FIXED_WING = 1, MAV_TYPE_QUADROTOR = 2, MAV_TYPE_COAXIAL = 3, MAV_TYPE_HELICOPTER = 4,
      MAV_TYPE_HEXAROTOR = 13, MAV_TYPE_OCTOROTOR = 14, MAV_TYPE_TRICOPTER = 15, MAV_TYPE_GROUND_ROVER = 10,
      PLANE_MODE_RTL = 11, PLANE_MODE_FLY_BY_WIRE_B = 6, PLANE_MODE_LOITER = 12, PLANE_MODE_AUTO = 10,
      COPTER_MODE_RTL = 6, COPTER_MODE_STABILIZE = 0, COPTER_MODE_POSHOLD = 16, COPTER_MODE_AUTO = 3,
      ROVER_MODE_RTL = 11, ROVER_MODE_MANUAL = 0, ROVER_MODE_HOLD = 4, ROVER_MODE_AUTO = 10,
      GPS_FIX_TYPE_NO_GPS = 0, GPS_FIX_TYPE_2D_FIX = 2, MAV_MISSION_ACCEPTED = 0\<rparr>"

definition sample_search :: SMMSearch where
  "sample_search =
     \<lparr>ss_points = [\<lparr>latitude = Fin 1, longitude = Fin 2\<rparr>, \<lparr>latitude = Fin 3, longitude = Fin 4\<rparr>],
      ss_current_point = 1, ss_altitude = Some 50, ss_handle = Some 7, ss_valid = True\<rparr>"

text \<open>Every send is taken whole; the name resolves to one address that connects.\<close>

definition sample_mav_env :: "u64 \<Rightarrow> mav_os" where
  "sample_mav_env ts =
     \<lparr>me_consts = sample_consts, me_now = ts, me_dial_ts = ts, me_connected_ts = ts, me_send = (\<lambda>_ _. 40),
      me_frame_len = (\<lambda>_. 40), me_search = (\<lambda>_. sample_search), me_hypot = (\<lambda>x y. x), me_endpoints = [Some 5]\<rparr>"

text \<open>A link to a plane that is up.\<close>

definition sample_link :: mav_connection where
  "sample_link = (mav_connection_init sample_consts MavParams_default terminate_terminate)
     \<lparr>mc_fd := Some 5, mc_recv_thread := True, mc_comms_cb := True, mc_last_heartbeat_ts := 10000,
      mc_connected_since_ts := 9000,
      mc_systems := [\<lparr>ms_sysid = 1, ms_components = [1], ms_autopilot_type = 1, ms_flight_mode = 10, ms_setup = True,
                      ms_failsafe_checked = True, ms_failsafe_checked_type = 1\<rparr>]\<rparr>"

definition from_autopilot :: "mav_payload \<Rightarrow> mav_in" where
  "from_autopilot p = \<lparr>in_sysid = 1, in_compid = 1, in_payload = p\<rparr>"

definition sample_goto :: mav_connection where
  "sample_goto = fst (commandGoto (sample_mav_env 10000) Point_default sample_link)"

abbreviation late_messages :: "link_input list" where
  "late_messages \<equiv> [Link_recv (sample_mav_env 10100) (from_autopilot (In_mission_request 200 1 0 0)),
     Link_recv (sample_mav_env 10200) (from_autopilot (In_mission_ack 200 1 0))]"

text \<open>A goto is in flight; the RTL that takes over closes; the request and the acknowledgement of the goto come too late.\<close>

definition sample_taken :: mav_connection where
  "sample_taken = take_close (Take_mode mode_rtl) False (fst (take_send (sample_mav_env 10050) (Take_mode mode_rtl) sample_goto))"

lemma sample_taken_runs: "link_run late_messages sample_taken \<noteq> None"
  by code_simp


text \<open>
  The two limits of the claim. An acknowledgement that is handled between the message of the
  takeover and its critical region, or that has passed its own region by then, still engages
  AUTO after the RTL, for good: nothing is left to replay.
\<close>

fun modes_sent :: "mav_out list \<Rightarrow> u8 list" where
  "modes_sent [] = []"
| "modes_sent (Sent (Msg_set_mode s f) # outs) = f # modes_sent outs"
| "modes_sent (_ # outs) = modes_sent outs"

abbreviation accepting_ack :: link_input where
  "accepting_ack \<equiv> Link_recv (sample_mav_env 10100) (from_autopilot (In_mission_ack 200 1 0))"

lemma ack_before_close_engages:
  "map_option (\<lambda>c. (modes_sent (mc_out c), mc_pending_mode c))
     (map_option (take_close (Take_mode mode_rtl) False)
        (link_run [accepting_ack] (fst (take_send (sample_mav_env 10050) (Take_mode mode_rtl) sample_goto)))) =
   Some ([11, 11, 10], None)"
  by code_simp

text \<open>On an airframe that is still unknown, the same acknowledgement leaves AUTO deferred, and a terminate does not clear it: the first heartbeat after the terminate asks for AUTO.\<close>

definition sample_unknown_goto :: mav_connection where
  "sample_unknown_goto = fst (commandGoto (sample_mav_env 10000) Point_default (sample_link\<lparr>mc_systems := []\<rparr>))"

lemma deferred_auto_survives_terminate:
  "map_option (\<lambda>c. modes_sent (mc_out c))
     (link_run [Link_recv (sample_mav_env 10300) (from_autopilot (In_heartbeat 1 0))]
        (take_over (sample_mav_env 10200) Take_terminate (the (link_run [accepting_ack] sample_unknown_goto)))) =
   Some [10]"
  by code_simp

lemma sample_loading_reachable:
  "mav_reachable (upload_region 0 2 (mav_connection_init sample_consts MavParams_default terminate_none))"
  by (rule mav_reachable.step [OF mav_reachable.init mav_region.upload])

theorem send_waypoint_never_null_witness:
  "send_waypoint (sample_mav_env 1) 3 0
     (upload_region 0 2 (mav_connection_init sample_consts MavParams_default terminate_none)) \<noteq> None"
  by (rule send_waypoint_never_null [OF sample_loading_reachable])
     (simp add: sample_mav_env_def sample_search_def search_flyable_def)

end
