(* ===== verification/Mav_Mission.thy ===== *)
theory Mav_Mission
  imports Mav_Upload
begin

text \<open>
  A whole upload: the messages that an autopilot and the connection exchange from the command
  to load a search to the engaged mission, and the race between the acknowledgement of a goto
  and the bookkeeping of the thread that sent it (\<open>src/mav/mavlink.cpp\<close>).
\<close>

section \<open>A link that takes every message\<close>

definition sends_ok :: "mav_os \<Rightarrow> bool" where
  "sends_ok env \<longleftrightarrow> (\<forall>k msg. send_loop (me_send env k) (me_frame_len env msg) 0)"

lemma send_ok:
  "sends_ok env \<Longrightarrow> mc_fd c \<noteq> None \<Longrightarrow> sendMavLinkMsgLocked env msg c = (emit (Sent msg) c, True)"
  by (simp add: sendMavLinkMsgLocked_def sends_ok_def)

lemma send_loop_whole:
  assumes "\<And>off. off < n \<Longrightarrow> int n \<le> os_send off"
  shows "send_loop os_send n 0"
  using assms [of 0] by (subst send_loop.simps) (subst send_loop.simps, auto simp: Let_def)

text \<open>An autopilot whose streams are set up, sending from a component it has used before.\<close>

definition sender_known :: "mav_connection \<Rightarrow> u8 \<Rightarrow> mav_sys \<Rightarrow> bool" where
  "sender_known c compid sys \<longleftrightarrow>
     findExistingSystem TARGET_SYS_ID (mc_systems c) = Some sys \<and> ms_setup sys \<and> compid \<in> set (ms_components sys)"

lemma onSystem_id: "findExistingSystem i ss = Some s \<Longrightarrow> f s = s \<Longrightarrow> onSystem i f ss = ss"
  by (induction ss) (auto split: if_splits)

lemma register_sender_known: "sender_known c compid sys \<Longrightarrow> register_sender env TARGET_SYS_ID compid c = c"
  by (cases c) (simp add: register_sender_def sender_known_def findSystem_def findComponent_def onSystem_id Let_def)

section \<open>The mission of a search\<close>

definition blank_item :: "nat \<Rightarrow> u8 \<Rightarrow> mission_item_int" where
  "blank_item sq mission_type =
     \<lparr>it_seq = of_nat sq, it_command = MAV_CMD_NAV_RETURN_TO_LAUNCH, it_current = False, it_autocontinue = False,
      it_param1 = 0, it_param2 = 0, it_yaw = Fin 0, it_x = 0, it_y = 0, it_z = 0, it_mission_type = mission_type\<rparr>"

definition takeoff_item :: "SMMSearch \<Rightarrow> u16 \<Rightarrow> nat \<Rightarrow> u8 \<Rightarrow> mission_item_int" where
  "takeoff_item ss alt sq mission_type =
     (blank_item sq mission_type)\<lparr>it_command := MAV_CMD_NAV_TAKEOFF,
        it_current := (sq = 1 \<and> ss_current_point ss = 0), it_autocontinue := True, it_param1 := 5, it_z := alt\<rparr>"

definition point_item :: "SMMSearch \<Rightarrow> u16 \<Rightarrow> nat \<Rightarrow> u8 \<Rightarrow> mission_item_int" where
  "point_item ss alt j mission_type =
     (blank_item (j + 2) mission_type)\<lparr>it_command := MAV_CMD_NAV_WAYPOINT,
        it_current := (ss_current_point ss = int j), it_autocontinue := True, it_param2 := 5, it_yaw := NaN,
        it_x := the (degrees_to_degE7 (latitude (ss_points ss ! j))),
        it_y := the (degrees_to_degE7 (longitude (ss_points ss ! j))), it_z := alt\<rparr>"

text \<open>Two setup items, each point once and in order, the return to launch.\<close>

definition search_plan :: "SMMSearch \<Rightarrow> u16 \<Rightarrow> u8 \<Rightarrow> mission_item_int list" where
  "search_plan ss alt mission_type =
     [takeoff_item ss alt 0 mission_type, takeoff_item ss alt 1 mission_type] @
     map (\<lambda>j. point_item ss alt j mission_type) [0..<length (ss_points ss)] @
     [blank_item (length (ss_points ss) + 2) mission_type]"

lemma length_search_plan [simp]: "length (search_plan ss alt mt) = length (ss_points ss) + 3"
  by (simp add: search_plan_def)

lemma search_plan_nth:
  "j < length (ss_points ss) + 3 \<Longrightarrow> search_plan ss alt mt ! j =
     (if j \<le> 1 then takeoff_item ss alt j mt
      else if j > length (ss_points ss) + 1 then blank_item j mt else point_item ss alt (j - 2) mt)"
proof -
  assume j: "j < length (ss_points ss) + 3"
  consider "j = 0" | "j = 1" | k where "j = k + 2" "k < length (ss_points ss)" | "j = length (ss_points ss) + 2"
    using j by (cases j; cases "j - 1") (force, force, fastforce, fastforce)
  then show ?thesis by cases (simp_all add: search_plan_def nth_append)
qed

lemma waypoint_item_search:
  assumes c: "\<not> mc_goto_active c" "mc_search c = Some i"
    and ss: "me_search env i = ss" "ss_altitude ss = Some alt" "length (ss_points ss) + 3 < 65536"
    and j: "j < length (ss_points ss) + 3"
  shows "waypoint_item env (of_nat j) mt c = Some (search_plan ss alt mt ! j)"
proof -
  let ?n = "length (ss_points ss)"
  have n: "word_of_int (getPointsCount ss) = (of_nat ?n :: size_t)" by (simp add: getPointsCount_def)
  have item: "mission_item_for (of_nat j) (of_nat ?n) plan_search =
         (if j \<le> 1 then MissionItem_of kind_takeoff
          else if j > ?n + 1 then MissionItem_of kind_rtl
          else \<lparr>mi_kind = kind_search_point, mi_point_index = of_nat (j - 2)\<rparr>)"
    using j ss(3) by (intro mission_item_for_search) auto
  have idx: "unat (of_nat (j - 2) :: size_t) = j - 2"
    using j ss(3) by (intro unat_of_nat_size) auto
  have one: "(of_nat j :: u16) = 1 \<longleftrightarrow> j = 1"
    using unat_of_nat_u16 [of j] unat_of_nat_u16 [of 1] j ss(3) by (metis of_nat_1 order_less_trans one_less_numeral_iff semiring_norm(76))
  note step = waypoint_item_def Let_def c ss n item search_plan_nth [OF j] MissionItem_of_def
  consider "j \<le> 1" | "\<not> j \<le> 1" "j > ?n + 1" | "\<not> j \<le> 1" "\<not> j > ?n + 1" by blast
  then show ?thesis
  proof cases
    case 1
    then show ?thesis by (simp add: step takeoff_item_def blank_item_def one)
  next
    case 2
    then show ?thesis by (simp add: step blank_item_def)
  next
    case 3
    then obtain ix where ix: "mission_item_for (of_nat j) (of_nat ?n) plan_search =
        \<lparr>mi_kind = kind_search_point, mi_point_index = ix\<rparr>" "unat ix = j - 2"
      using item idx by (metis (no_types))
    have pt: "point_item ss alt (j - 2) mt = (blank_item j mt)\<lparr>it_command := MAV_CMD_NAV_WAYPOINT,
        it_current := (ss_current_point ss = int (j - 2)), it_autocontinue := True, it_param2 := 5, it_yaw := NaN,
        it_x := the (degrees_to_degE7 (latitude (ss_points ss ! (j - 2)))),
        it_y := the (degrees_to_degE7 (longitude (ss_points ss ! (j - 2)))), it_z := alt\<rparr>"
    proof -
      have "j - 2 + 2 = j" using 3 by simp
      then show ?thesis unfolding point_item_def by presburger
    qed
    obtain x y where "degrees_to_degE7 (latitude (ss_points ss ! (j - 2))) = Some x"
        "degrees_to_degE7 (longitude (ss_points ss ! (j - 2))) = Some y"
      using degrees_to_degE7_Some by metis
    moreover have "j - 2 < ?n" using 3 by auto
    ultimately show ?thesis
      using 3 by (simp add: waypoint_item_def Let_def c ss n ix search_plan_nth [OF j] pt blank_item_def)
  qed
qed

section \<open>The session\<close>

definition msg_of :: "u8 \<Rightarrow> mav_payload \<Rightarrow> mav_in" where
  "msg_of compid p = \<lparr>in_sysid = TARGET_SYS_ID, in_compid = compid, in_payload = p\<rparr>"

definition request :: "u8 \<Rightarrow> u8 \<Rightarrow> nat \<Rightarrow> mav_in" where
  "request compid mission_type j = msg_of compid (In_mission_request_int SYS_ID COMP_ID (of_nat j) mission_type)"

definition accept_msg :: "mav_os \<Rightarrow> u8 \<Rightarrow> mav_in" where
  "accept_msg env compid = msg_of compid (In_mission_ack SYS_ID COMP_ID (MAV_MISSION_ACCEPTED (me_consts env)))"

lemma processMavLinkMsg_known:
  "sender_known c compid sys \<Longrightarrow> processMavLinkMsg env (msg_of compid p) c = handle_payload env TARGET_SYS_ID p c"
  by (simp add: processMavLinkMsg_def msg_of_def register_sender_known)

lemma sender_known_out [simp]: "sender_known (c\<lparr>mc_out := outs\<rparr>) compid sys = sender_known c compid sys"
  by (simp add: sender_known_def)

lemma serve_request:
  assumes "sender_known c compid sys" and "sends_ok env" and "mc_fd c \<noteq> None" and "mc_search_loading c"
    and "\<not> mc_goto_active c" "mc_search c = Some i"
    and "me_search env i = ss" "ss_altitude ss = Some alt" "length (ss_points ss) + 3 < 65536"
    and "j < length (ss_points ss) + 3"
  shows "processMavLinkMsg env (request compid mt j) c =
         Some (emit (Sent (Msg_mission_item MISSION_TARGET_SYS_ID TARGET_COMP_ID (search_plan ss alt mt ! j))) c)"
  using assms(3,4) waypoint_item_search [OF assms(5-10), of mt]
  unfolding request_def processMavLinkMsg_known [OF assms(1)]
  by (simp add: handle_payload_def Let_def isFromAutopilot_def for_us_def send_waypoint_def send_ok [OF assms(2)])

lemma serve_requests:
  assumes "sender_known c compid sys" and "sends_ok env" and "mc_fd c \<noteq> None" and "mc_search_loading c"
    and "\<not> mc_goto_active c" "mc_search c = Some i"
    and "me_search env i = ss" "ss_altitude ss = Some alt" "length (ss_points ss) + 3 < 65536"
    and "set js \<subseteq> {..< length (ss_points ss) + 3}"
  shows "process_all (map (\<lambda>j. (env, request compid mt j)) js) c =
         Some (c\<lparr>mc_out := mc_out c @
           map (\<lambda>j. Sent (Msg_mission_item MISSION_TARGET_SYS_ID TARGET_COMP_ID (search_plan ss alt mt ! j))) js\<rparr>)"
  using assms
proof (induction js arbitrary: c)
  case (Cons j js)
  have "processMavLinkMsg env (request compid mt j) c =
         Some (emit (Sent (Msg_mission_item MISSION_TARGET_SYS_ID TARGET_COMP_ID (search_plan ss alt mt ! j))) c)"
    using Cons.prems(1-9) by (rule serve_request) (use Cons.prems(10) in simp)
  then show ?case
    using Cons.IH [of "emit (Sent (Msg_mission_item MISSION_TARGET_SYS_ID TARGET_COMP_ID (search_plan ss alt mt ! j))) c"]
      Cons.prems by (simp add: emit_def)
qed (simp add: request_def)

lemma process_all_append:
  "process_all (xs @ ys) c = (case process_all xs c of None \<Rightarrow> None | Some c1 \<Rightarrow> process_all ys c1)"
  by (induction xs arbitrary: c) (auto split: option.splits)

text \<open>The command to load a search: return to launch, then the count.\<close>

lemma loadSearch_starts:
  assumes "mc_fd c \<noteq> None" and "sends_ok env" and "mc_search c \<noteq> Some i \<or> \<not> mc_search_loaded c"
    and "resolve_mav_mode (me_consts env) (autopilot_type_of c) mode_rtl = Some rtl"
    and "me_search env i = ss" "length (ss_points ss) + 3 < 65536"
  shows "loadSearch env (Some i) c =
    c\<lparr>mc_search := Some i, mc_search_loading := True, mc_search_loaded := False, mc_goto_active := False,
      mc_goto_ack_pending := False, mc_pending_mode := None,
      mc_out := mc_out c @ [Sent (Msg_set_mode TARGET_SYS_ID rtl)] @
        (if mc_goto_ack_pending c \<or> mc_search_loading c then [Mav_log Log_upload_superseded] else []) @
        [Sent (Msg_mission_count MISSION_TARGET_SYS_ID TARGET_COMP_ID (of_nat (length (ss_points ss) + 3)))]\<rparr>"
proof -
  let ?n = "length (ss_points ss)"
  have n: "word_of_int (getPointsCount (me_search env i)) = (of_nat ?n :: size_t)"
    by (simp add: getPointsCount_def assms(5))
  have count: "(ucast (mission_count_for (of_nat ?n) plan_search) :: u16) = of_nat (?n + 3)"
    using assms(6) by (intro mission_count_for_search) simp
  have "unat (mission_count_for (of_nat ?n) plan_search) = ?n + 3"
    using assms(6) unat_of_nat_size [of "?n + 3"] by (simp add: mission_count_for_def add.commute)
  then have small: "\<not> mission_count_for (of_nat ?n) plan_search > (65535 :: size_t)"
    using assms(6) by (simp add: word_less_nat_alt)
  have load: "load_region (Some i) c = (c\<lparr>mc_search := Some i\<rparr>, True)"
    using assms(3) by (auto simp: load_region_def)
  let ?busy = "mc_goto_ack_pending c \<or> mc_search_loading c"
  let ?c2 = "c\<lparr>mc_search := (if mc_search_loading c then None else Some i), mc_search_loading := False,
      mc_search_loaded := False, mc_goto_active := False, mc_goto_ack_pending := False, mc_pending_mode := None,
      mc_out := mc_out c @ [Sent (Msg_set_mode TARGET_SYS_ID rtl)] @
        (if ?busy then [Mav_log Log_upload_superseded] else [])\<rparr>"
  have t: "autopilot_type_of (c\<lparr>mc_search := Some i\<rparr>) = autopilot_type_of c" by (simp add: autopilot_type_of_def)
  have "mode_region None True d =
      (d\<lparr>mc_pending_mode := None, mc_search := (if mc_search_loading d then None else mc_search d),
         mc_goto_active := False, mc_goto_ack_pending := False, mc_search_loading := False, mc_search_loaded := False\<rparr>,
       mc_goto_ack_pending d \<or> mc_search_loading d)" for d
    by (simp add: mode_region_def invalidateInFlightUploadLocked_def Let_def)
  then have rtl: "commandRTLForUpload env (c\<lparr>mc_search := Some i\<rparr>) = (?c2, True)"
    unfolding commandRTLForUpload_def setResolvedMode_def t assms(4) option.case setFlightMode_def
    using assms(1) by (cases c) (simp add: send_ok [OF assms(2)] mav_log_defs)
  have up: "upload_region i (of_nat ?n) ?c2 = ?c2\<lparr>mc_search := Some i, mc_search_loading := True\<rparr>"
    using small by (cases c) (simp add: upload_region_def Let_def)
  have "uploadSearch env i (c\<lparr>mc_search := Some i\<rparr>) =
      (emit (Sent (Msg_mission_count MISSION_TARGET_SYS_ID TARGET_COMP_ID (of_nat (?n + 3))))
        (?c2\<lparr>mc_search := Some i, mc_search_loading := True\<rparr>), True)"
    unfolding uploadSearch_def Let_def rtl fst_conv n up count send_count_def
    using assms(1) by (simp add: send_ok [OF assms(2)])
  then show ?thesis
    unfolding loadSearch_def load by (cases c) (simp add: emit_def)
qed

lemma commandAuto_ok:
  assumes "mc_fd c \<noteq> None" and "sends_ok env"
    and "resolve_mav_mode (me_consts env) (autopilot_type_of c) mode_auto = Some auto"
  shows "commandAuto env c = emit (Sent (Msg_set_mode TARGET_SYS_ID auto)) (c\<lparr>mc_pending_mode := None\<rparr>)"
  using assms(1,3)
  by (simp add: commandAuto_def setResolvedMode_def setFlightMode_def send_ok [OF assms(2)] mode_region_def emit_def)

lemma search_ack_engages:
  assumes "mc_fd c \<noteq> None" and "sends_ok env" and "mc_search_loading c" and "\<not> mc_goto_ack_pending c"
    and "mc_search c = Some i" and "mc_pending_mode c = None"
    and "resolve_mav_mode (me_consts env) (autopilot_type_of c) mode_auto = Some auto"
  shows "mission_ack env True c =
    c\<lparr>mc_search_loading := False, mc_search_loaded := True,
      mc_out := mc_out c @
        [Sent (Msg_mission_set_current MISSION_TARGET_SYS_ID TARGET_COMP_ID
                 (search_point_mission_seq (ss_current_point (me_search env i)))),
         Sent (Msg_set_mode TARGET_SYS_ID auto)]\<rparr>"
proof -
  let ?c1 = "c\<lparr>mc_search_loading := False, mc_search_loaded := True\<rparr>"
  let ?sq = "search_point_mission_seq (ss_current_point (me_search env i))"
  have region: "ack_region env True c =
      (?c1, \<lparr>goto_set_current = False, search_set_current = True, search_seq = ?sq, stale_ack = False\<rparr>)"
    using assms(3-5) by (cases c) (simp add: ack_region_def Let_def)
  have wp: "setCurrentWP env ?sq ?c1 = emit (Sent (Msg_mission_set_current MISSION_TARGET_SYS_ID TARGET_COMP_ID ?sq)) ?c1"
    using assms(1) by (simp add: setCurrentWP_def send_ok [OF assms(2)])
  have "commandAuto env (setCurrentWP env ?sq ?c1) =
      emit (Sent (Msg_set_mode TARGET_SYS_ID auto)) ((setCurrentWP env ?sq ?c1)\<lparr>mc_pending_mode := None\<rparr>)"
    using assms(1,7) by (intro commandAuto_ok assms(2)) (simp_all add: wp emit_def autopilot_type_of_def)
  moreover have "mission_ack env True c = commandAuto env (setCurrentWP env ?sq ?c1)"
    by (simp add: mission_ack_def region Let_def)
  moreover have "c\<lparr>mc_pending_mode := None\<rparr> = c" using assms(6) by (cases c) simp
  ultimately show ?thesis unfolding wp emit_def using assms(6) by (cases c) simp
qed

text \<open>The trace of a whole upload, from the command to load the search to the engaged mission.\<close>

definition upload_session :: "mav_connection \<Rightarrow> SMMSearch \<Rightarrow> u16 \<Rightarrow> u8 \<Rightarrow> u8 \<Rightarrow> u8 \<Rightarrow> mav_out list" where
  "upload_session c ss alt mission_type rtl auto =
     [Sent (Msg_set_mode TARGET_SYS_ID rtl)] @
     (if mc_goto_ack_pending c \<or> mc_search_loading c then [Mav_log Log_upload_superseded] else []) @
     [Sent (Msg_mission_count MISSION_TARGET_SYS_ID TARGET_COMP_ID (of_nat (length (ss_points ss) + 3)))] @
     map (\<lambda>it. Sent (Msg_mission_item MISSION_TARGET_SYS_ID TARGET_COMP_ID it)) (search_plan ss alt mission_type) @
     [Sent (Msg_mission_set_current MISSION_TARGET_SYS_ID TARGET_COMP_ID
              (search_point_mission_seq (ss_current_point ss))),
      Sent (Msg_set_mode TARGET_SYS_ID auto)]"

text \<open>C13: on a link that is up, loading a search sends the aircraft home, announces the count, serves every item the autopilot asks for, the points of the search each once and in order between the setup items and the return to launch, and on the acknowledgement selects the item of the current point before it engages AUTO; whatever upload was open before is superseded.\<close>

theorem search_upload_session:
  assumes "mc_fd c \<noteq> None" and "sends_ok env" and "sender_known c compid sys"
    and "resolve_mav_mode (me_consts env) (ms_autopilot_type sys) mode_rtl = Some rtl"
    and "resolve_mav_mode (me_consts env) (ms_autopilot_type sys) mode_auto = Some auto"
    and "me_search env i = ss" and "ss_altitude ss = Some alt" and "length (ss_points ss) + 3 < 65536"
    and "mc_search c \<noteq> Some i \<or> \<not> mc_search_loaded c"
  shows "\<exists>c'. process_all (map (\<lambda>j. (env, request compid mt j)) [0..<length (ss_points ss) + 3] @
                            [(env, accept_msg env compid)]) (loadSearch env (Some i) c) = Some c' \<and>
              mc_out c' = mc_out c @ upload_session c ss alt mt rtl auto \<and>
              mc_search c' = Some i \<and> mc_search_loaded c' \<and> \<not> mc_search_loading c'"
proof -
  have ty: "autopilot_type_of c = ms_autopilot_type sys"
    using assms(3) by (simp add: autopilot_type_of_def sender_known_def)
  define c1 where "c1 = loadSearch env (Some i) c"
  note load = loadSearch_starts [OF assms(1,2,9) _ assms(6,8), unfolded ty, OF assms(4), folded c1_def]
  have c1: "mc_fd c1 \<noteq> None" "mc_search_loading c1" "\<not> mc_goto_active c1" "mc_search c1 = Some i"
    "\<not> mc_goto_ack_pending c1" "mc_pending_mode c1 = None" "sender_known c1 compid sys"
    using assms(1,3) by (simp_all add: load sender_known_def)
  define c2 where "c2 = c1\<lparr>mc_out := mc_out c1 @
    map (\<lambda>j. Sent (Msg_mission_item MISSION_TARGET_SYS_ID TARGET_COMP_ID (search_plan ss alt mt ! j)))
      [0..<length (ss_points ss) + 3]\<rparr>"
  have requests: "process_all (map (\<lambda>j. (env, request compid mt j)) [0..<length (ss_points ss) + 3]) c1 = Some c2"
    unfolding c2_def using c1 assms by (intro serve_requests) auto
  have items: "map (\<lambda>j. Sent (Msg_mission_item MISSION_TARGET_SYS_ID TARGET_COMP_ID (search_plan ss alt mt ! j)))
      [0..<length (ss_points ss) + 3] =
      map (\<lambda>it. Sent (Msg_mission_item MISSION_TARGET_SYS_ID TARGET_COMP_ID it)) (search_plan ss alt mt)"
    by (rule nth_equalityI) (simp_all del: upt_Suc)
  have c2: "mc_fd c2 \<noteq> None" "mc_search_loading c2" "\<not> mc_goto_ack_pending c2" "mc_search c2 = Some i"
    "mc_pending_mode c2 = None" "sender_known c2 compid sys" "autopilot_type_of c2 = ms_autopilot_type sys"
    using c1 by (simp_all add: c2_def autopilot_type_of_def sender_known_def)
  have "processMavLinkMsg env (accept_msg env compid) c2 = Some (mission_ack env True c2)"
    unfolding accept_msg_def processMavLinkMsg_known [OF c2(6)]
    by (simp add: handle_payload_def isFromAutopilot_def for_us_def)
  moreover note search_ack_engages [OF c2(1) assms(2) c2(2,3,4,5), unfolded c2(7), OF assms(5)]
  ultimately show ?thesis
    unfolding c1_def [symmetric] process_all_append requests
    using c2(4) by (simp add: c2_def items load upload_session_def assms(6) del: upt_Suc)
qed

theorem search_upload_session_witness:
  "\<exists>c'. process_all (map (\<lambda>j. (sample_mav_env 10100, request 1 0 j)) [0..<5] @
                      [(sample_mav_env 10100, accept_msg (sample_mav_env 10100) 1)])
          (loadSearch (sample_mav_env 10100) (Some 0) sample_link) = Some c' \<and>
        mc_out c' = upload_session sample_link sample_search 50 0 11 10 \<and> mc_search_loaded c'"
proof -
  let ?env = "sample_mav_env 10100"
  let ?sys = "\<lparr>ms_sysid = 1, ms_components = [1], ms_autopilot_type = 1, ms_flight_mode = 10, ms_setup = True,
               ms_failsafe_checked = True, ms_failsafe_checked_type = 1\<rparr>"
  have "sends_ok ?env" by (simp add: sends_ok_def sample_mav_env_def send_loop_whole)
  moreover have "sender_known sample_link 1 ?sys"
    by (simp add: sender_known_def sample_link_def TARGET_SYS_ID_def)
  moreover have "resolve_mav_mode (me_consts ?env) 1 mode_rtl = Some 11" "resolve_mav_mode (me_consts ?env) 1 mode_auto = Some 10"
    by (simp_all add: sample_mav_env_def sample_consts_def resolve_mav_mode_def)
  moreover have "mc_fd sample_link \<noteq> None" "mc_search sample_link = None" "mc_out sample_link = []"
    by (simp_all add: sample_link_def mav_connection_init_def)
  moreover have "me_search ?env 0 = sample_search" "ss_altitude sample_search = Some 50"
    and n: "length (ss_points sample_search) = 2"
    by (simp_all add: sample_mav_env_def sample_search_def)
  ultimately show ?thesis
    using search_upload_session [of sample_link ?env 1 ?sys 11 10 0 sample_search 50 0]
    unfolding n by (auto simp del: upt_Suc)
qed

section \<open>Windows\<close>

text \<open>
  The sending thread marks a goto as pending only after its count has gone out. When the
  receive thread handles the acknowledgement first, it is taken for a stale one: nothing
  engages AUTO, and the upload then counts as pending with no acknowledgement to come.
\<close>

lemma goto_ack_race:
  assumes "\<not> mc_goto_ack_pending c" and "\<not> mc_search_loading c"
  shows "mc_out (mission_ack env True (goto_open_region p c)) = mc_out c @ [Mav_log Log_stale_ack]"
    and "mc_goto_ack_pending (goto_pending_region (mission_ack env True (goto_open_region p c)))"
    and "mc_goto_active (goto_pending_region (mission_ack env True (goto_open_region p c)))"
  using assms
  by (simp_all add: mission_ack_def ack_region_def goto_open_region_def goto_pending_region_def Let_def log_line_def
      emit_def)

text \<open>A goto whose count could not be sent leaves its mission open to requests.\<close>

lemma failed_goto_stays_open:
  assumes "mc_fd c = None"
  shows "commandGoto env p c = (c', sent) \<Longrightarrow> \<not> sent \<and> mc_goto_active c'"
  using assms
  by (auto simp: commandGoto_def send_count_def sendMavLinkMsgLocked_def goto_open_region_def mav_log_defs
      commandRTLForUpload_def setResolvedMode_def setFlightMode_def mode_region_def invalidateInFlightUploadLocked_def
      Let_def split: option.splits prod.splits if_splits)

text \<open>
  A mode command that was deferred because the airframe was unknown survives a later
  terminate, and is sent on the first heartbeat.
\<close>

definition unknown_airframe :: mav_connection where
  "unknown_airframe = sample_link\<lparr>mc_systems := []\<rparr>"

lemma deferred_mode_survives_terminate:
  "map_option (\<lambda>c. filter (\<lambda>x. x = Sent (Msg_set_mode 1 11)) (mc_out c))
     (link_run [Link_recv (sample_mav_env 10100) (from_autopilot (In_heartbeat 1 0))]
        (fst (commandTerminate (sample_mav_env 10050) (fst (commandRTL (sample_mav_env 10000) unknown_airframe))))) =
   Some [Sent (Msg_set_mode 1 11)]"
  by code_simp

end
