(* ===== verification/Mav_Restart.thy ===== *)
theory Mav_Restart
  imports Mav_Upload
begin

text \<open>
  Correctness of what the connection concludes from the autopilot's own messages
  (\<open>src/mav/mavlink.cpp\<close>): when a silent socket is retired, when an autopilot restart is
  reported, and how the answer to a failsafe parameter is judged.
\<close>

section \<open>A silent socket\<close>

lemma report_link_edge_fields [simp]:
  "mc_broken (report_link_edge fd_open up c) = mc_broken c"
  "mc_connected_since_ts (report_link_edge fd_open up c) = mc_connected_since_ts c"
  "mc_fd (report_link_edge fd_open up c) = mc_fd c"
  by (simp_all add: report_link_edge_def Let_def log_line_def emit_def)

lemma send_broken:
  "mc_broken (fst (sendMavLinkMsgLocked env msg c)) \<longleftrightarrow>
     mc_broken c \<or> mc_fd c \<noteq> None \<and> \<not> snd (sendMavLinkMsgLocked env msg c)"
  by (auto simp: sendMavLinkMsgLocked_def log_line_def emit_def)

lemma heartbeat_pass_broken:
  "mc_broken (heartbeat_pass env c) \<longleftrightarrow>
     mc_broken c \<or> mc_fd c \<noteq> None \<and>
       (\<not> snd (sendMavLinkMsgLocked env Msg_heartbeat c) \<or>
        mav_link_should_retire True (me_now env) (mc_last_heartbeat_ts c) (mc_connected_since_ts c) heartbeat_timeout_ms)"
proof -
  have closed: "\<not> mav_link_should_retire False now hb since t" for now hb since t
    by (simp add: mav_link_should_retire_def)
  define c1 where "c1 = (if mc_fd c \<noteq> None then sendHeartBeat env c else c)"
  have c1: "mc_fd c1 = mc_fd c" "mc_last_heartbeat_ts c1 = mc_last_heartbeat_ts c"
    "mc_connected_since_ts c1 = mc_connected_since_ts c"
    "mc_broken c1 \<longleftrightarrow> mc_broken c \<or> mc_fd c \<noteq> None \<and> \<not> snd (sendMavLinkMsgLocked env Msg_heartbeat c)"
    by (auto simp: c1_def sendHeartBeat_def send_broken)
  show ?thesis
    unfolding heartbeat_pass_def Let_def c1_def [symmetric]
    using c1 closed by (cases "mc_fd c") (auto simp: log_line_def emit_def)
qed

lemma heartbeat_pass_fd [simp]: "mc_fd (heartbeat_pass env c) = mc_fd c"
  by (simp add: heartbeat_pass_def Let_def sendHeartBeat_def log_line_def emit_def)

lemma connect_extends: "\<exists>outs. mc_out (connect_to_mav env c) = mc_out c @ outs"
proof -
  let ?c1 = "emit (Sock_dial (me_dial_ts env)) (c\<lparr>mc_last_tried := me_dial_ts env\<rparr>)"
  have d: "\<exists>outs. mc_out (snd (dial_endpoints es e)) = mc_out e @ outs" for es e
  proof (induction es e rule: dial_endpoints.induct)
    case (3 rest e)
    then show ?case by (cases rest) (auto simp: log_line_def emit_def)
  qed simp_all
  obtain r c2 where r: "dial_endpoints (me_endpoints env) ?c1 = (r, c2)" by fastforce
  then show ?thesis
    using d [of "me_endpoints env" ?c1]
    by (cases r) (auto simp: connect_to_mav_def Let_def emit_def log_line_def)
qed

text \<open>The reconnector tears a broken socket down, and leaves a healthy one alone.\<close>

lemma attemptReconnect_closes:
  assumes "mc_fd c = Some fd"
  shows "Sock_close fd \<in> set (drop (length (mc_out c)) (mc_out (attemptReconnect env c))) \<longleftrightarrow> mc_broken c"
proof (cases "mc_broken c")
  case True
  have "\<exists>outs. mc_out (attemptReconnect env c) = mc_out c @ [Sock_shutdown fd, Sock_close fd] @ outs"
    using True assms connect_extends
      [of env "(disconnect_from_mav c)\<lparr>mc_broken := False, mc_retry_count := mc_retry_count c + 1\<rparr>"]
    by (auto simp: attemptReconnect_def disconnect_from_mav_def Let_def emit_def)
  with True show ?thesis by auto
qed (use assms in \<open>simp add: attemptReconnect_def\<close>)

text \<open>C18: on a monotone clock a pass of the heartbeat loop gives a healthy socket up exactly when the heartbeat could not be sent or the socket has been silent for more than five seconds since both its connection and the last heartbeat: a link that was just dialled has its full window, a link that went quiet is given up; and the reconnector then closes that socket before anything else.\<close>

theorem silent_link_retired:
  assumes "mc_fd c = Some fd" and "\<not> mc_broken c"
    and "mc_last_heartbeat_ts c \<le> me_now env" and "mc_connected_since_ts c \<le> me_now env"
  shows "(mc_broken (heartbeat_pass env c) \<longleftrightarrow>
            \<not> snd (sendMavLinkMsgLocked env Msg_heartbeat c) \<or>
            (unat (mc_last_heartbeat_ts c) + 5000 < unat (me_now env) \<and>
             unat (mc_connected_since_ts c) + 5000 < unat (me_now env))) \<and>
         (Sock_close fd \<in> set (drop (length (mc_out (heartbeat_pass env c)))
            (mc_out (attemptReconnect env' (heartbeat_pass env c)))) \<longleftrightarrow> mc_broken (heartbeat_pass env c))"
proof
  show "mc_broken (heartbeat_pass env c) \<longleftrightarrow>
            \<not> snd (sendMavLinkMsgLocked env Msg_heartbeat c) \<or>
            (unat (mc_last_heartbeat_ts c) + 5000 < unat (me_now env) \<and>
             unat (mc_connected_since_ts c) + 5000 < unat (me_now env))"
    using assms by (simp add: heartbeat_pass_broken mav_link_should_retire_iff heartbeat_timeout_ms_def)
  show "Sock_close fd \<in> set (drop (length (mc_out (heartbeat_pass env c)))
            (mc_out (attemptReconnect env' (heartbeat_pass env c)))) \<longleftrightarrow> mc_broken (heartbeat_pass env c)"
    using assms(1) by (intro attemptReconnect_closes) simp
qed

theorem silent_link_retired_witness:
  "mc_broken (heartbeat_pass (sample_mav_env 15001) sample_link) \<and>
   \<not> mc_broken (heartbeat_pass (sample_mav_env 15000) sample_link)"
proof -
  have sent: "snd (sendMavLinkMsgLocked (sample_mav_env ts) Msg_heartbeat sample_link)" for ts
    by (simp add: sendMavLinkMsgLocked_def sample_mav_env_def send_loop.simps Let_def)
       (simp add: sample_link_def)
  have link: "mc_fd sample_link = Some 5" "\<not> mc_broken sample_link" "mc_last_heartbeat_ts sample_link = 10000"
    "mc_connected_since_ts sample_link = 9000"
    by (simp_all add: sample_link_def mav_connection_init_def)
  show ?thesis
    using silent_link_retired [OF link(1,2), of "sample_mav_env 15001"]
      silent_link_retired [OF link(1,2), of "sample_mav_env 15000"] sent
    unfolding link by (simp add: sample_mav_env_def)
qed

section \<open>Autopilot restarts\<close>

fun restart_reports :: "mav_out list \<Rightarrow> nat" where
  "restart_reports [] = 0"
| "restart_reports (Cb_autopilot_restart # outs) = Suc (restart_reports outs)"
| "restart_reports (_ # outs) = restart_reports outs"

lemma restart_reports_append [simp]: "restart_reports (xs @ ys) = restart_reports xs + restart_reports ys"
  by (induction xs rule: restart_reports.induct) auto

text \<open>The drops by more than the margin in a series of uptimes.\<close>

fun uptime_drops :: "u32 list \<Rightarrow> nat" where
  "uptime_drops (a # b # us) = (if unat b + 3000 < unat a then 1 else 0) + uptime_drops (b # us)"
| "uptime_drops _ = 0"

lemma handleAutopilotRestart_fields:
  "mc_restart_cb (handleAutopilotRestart c) = mc_restart_cb c"
  "mc_restart_cb c \<Longrightarrow> restart_reports (mc_out (handleAutopilotRestart c)) = restart_reports (mc_out c) + 1"
  by (simp_all add: handleAutopilotRestart_def invalidateInFlightUploadLocked_def mav_log_defs Let_def)

lemma noteTimeBootMs_fields:
  assumes "mc_restart_cb c"
  shows "mc_restart_cb (noteTimeBootMs t c)"
    and "mc_last_time_boot_ms (noteTimeBootMs t c) = (if t = 0 then mc_last_time_boot_ms c else t)"
    and "restart_reports (mc_out (noteTimeBootMs t c)) = restart_reports (mc_out c) +
           (if t \<noteq> 0 \<and> mc_last_time_boot_ms c \<noteq> 0 \<and> unat t + 3000 < unat (mc_last_time_boot_ms c) then 1 else 0)"
  using assms
  by (auto simp: noteTimeBootMs_def Let_def handleAutopilotRestart_fields autopilot_restarted_iff
      autopilot_restart_margin_ms_def)

text \<open>C19: a restart of the autopilot is reported exactly once for each time its uptime falls by more than three seconds against the last uptime it gave, a missing reading never hiding or feigning one, over any series of readings from both sources.\<close>

theorem restart_reports_exact:
  assumes "mc_restart_cb c"
  shows "restart_reports (mc_out (fold noteTimeBootMs ts c)) =
         restart_reports (mc_out c) + uptime_drops (filter (\<lambda>t. t \<noteq> 0) (mc_last_time_boot_ms c # ts))"
  using assms
proof (induction ts arbitrary: c)
  case Nil
  then show ?case by simp
next
  case (Cons t ts)
  note f = noteTimeBootMs_fields [OF Cons.prems, of t]
  show ?case
    using Cons.IH [OF f(1)] f(2,3) by (cases "t = 0"; cases "mc_last_time_boot_ms c = 0"; cases ts) auto
qed

theorem restart_reports_exact_witness:
  "restart_reports (mc_out (fold noteTimeBootMs [60000, 61000, 0, 59000, 500, 1500, 400]
     (sample_link\<lparr>mc_restart_cb := True, mc_out := []\<rparr>))) = 1"
  using restart_reports_exact [of "sample_link\<lparr>mc_restart_cb := True, mc_out := []\<rparr>" "[60000, 61000, 0, 59000, 500, 1500, 400]"]
  by (simp add: sample_link_def mav_connection_init_def)

text \<open>A restart ends the upload in flight and makes the next message set the streams up again.\<close>

lemma restart_rearms:
  assumes "findExistingSystem TARGET_SYS_ID (mc_systems c) = Some sys"
  shows "\<exists>sys'. findExistingSystem TARGET_SYS_ID (mc_systems (handleAutopilotRestart c)) = Some sys' \<and>
         \<not> ms_setup sys' \<and> \<not> ms_failsafe_checked sys'"
  using assms
  by (auto simp: handleAutopilotRestart_def invalidateInFlightUploadLocked_def mav_log_defs Let_def resetSetup_def)

section \<open>Failsafe parameters\<close>

lemma find_failsafe:
  assumes "chk \<in> set (expected_failsafe_params K t action)"
  shows "find (\<lambda>x. fp_name chk = fp_name x) (expected_failsafe_params K t action) = Some chk"
proof -
  have "distinct (map fp_name ps) \<Longrightarrow> chk \<in> set ps \<Longrightarrow> find (\<lambda>x. fp_name chk = fp_name x) ps = Some chk" for ps
    by (induction ps) (auto simp: image_iff)
  then show ?thesis
    using assms expected_failsafe_params_names [of K t action] by (simp add: failsafe_names_ok_def)
qed

text \<open>A failsafe parameter that was asked for is recognised in its answer and judged by its own rule: the name that is read back from the sixteen bytes that were sent selects the check it was sent for, and a warning is logged exactly when that check rejects the value.\<close>

lemma failsafe_reply_judged:
  assumes "findExistingSystem TARGET_SYS_ID (mc_systems c) = Some sys"
    and "chk \<in> set (expected_failsafe_params (me_consts env) (ms_autopilot_type sys) (mc_term_action c))"
  shows "checkFailsafeParamReply env (field_text (take 16 (pack_fixed_width_field 16 (fp_name chk)))) val c =
         (case fp_accept chk val of
            None \<Rightarrow> None
          | Some ok \<Rightarrow> Some (if ok then c else log_line (Log_failsafe_param (fp_name chk) val) c))"
proof -
  have "length (fp_name chk) \<le> 16" "CHR 0x00 \<notin> set (fp_name chk)"
    using assms(2) expected_failsafe_params_names [of "me_consts env" "ms_autopilot_type sys" "mc_term_action c"]
    by (auto simp: failsafe_names_ok_def)
  then have "field_text (take 16 (pack_fixed_width_field 16 (fp_name chk))) = fp_name chk"
    by (simp add: field_text_pack)
  then show ?thesis
    using assms(1) find_failsafe [OF assms(2)]
    by (cases "fp_accept chk val") (simp_all add: checkFailsafeParamReply_def)
qed

lemma failsafe_reply_judged_witness:
  "checkFailsafeParamReply (sample_mav_env 1) (field_text (take 16 (pack_fixed_width_field 16 ''FS_LONG_ACTN''))) (Fin 0) sample_link =
   Some (log_line (Log_failsafe_param ''FS_LONG_ACTN'' (Fin 0)) sample_link)"
proof -
  have "check_of ''FS_LONG_ACTN'' (is_one_of [1]) \<in> set (expected_failsafe_params (me_consts (sample_mav_env 1)) 1 terminate_terminate)"
    by (simp add: expected_failsafe_params_def resolve_vehicle_family_def sample_mav_env_def sample_consts_def)
  moreover have "findExistingSystem TARGET_SYS_ID (mc_systems sample_link) =
      Some \<lparr>ms_sysid = 1, ms_components = [1], ms_autopilot_type = 1, ms_flight_mode = 10, ms_setup = True,
            ms_failsafe_checked = True, ms_failsafe_checked_type = 1\<rparr>"
    "mc_term_action sample_link = terminate_terminate"
    by (simp_all add: sample_link_def TARGET_SYS_ID_def mav_connection_init_def)
  ultimately show ?thesis
    using failsafe_reply_judged [of sample_link _ "check_of ''FS_LONG_ACTN'' (is_one_of [1])" "sample_mav_env 1" "Fin 0"]
    by (simp add: check_of_def is_one_of_def)
qed

text \<open>The conversion that judges \<open>FS_OPTIONS\<close> is undefined for a value that is not a number or negative.\<close>

lemma fs_options_undefined: "fs_options_ok NaN = None" "fs_options_ok (Fin (- 1)) = None"
  by (simp_all add: fs_options_ok_def) code_simp

end
