(* ===== verification/State_Machine.thy ===== *)
theory State_Machine
  imports Units
begin

text \<open>
  The flight management state machine, \<open>src/fmu.cpp\<close> and \<open>src/fmu.hpp\<close>: the priority
  arbitration between the terminate latch, the low-battery latch, the comms failsafe, the
  altitude-cap breach and the operator's command, the debounce counters behind the
  latches, and the calls each state makes on the autopilot and the search worker. Every
  operation runs on the event-loop thread, so one operation is one step. The calls that
  an operation makes on \<open>IMAV\<close>, \<open>ISMM\<close> and the state-change callback are its output, in
  the order of the code.
\<close>

section \<open>State\<close>

record fmu =
  current_state :: FMUState
  fss_command :: FSSCommand
  fss_command_target :: FSSCommandTarget
  smm_command :: SMMCommand
  low_battery_count :: int
  low_battery_latch_count :: int
  low_battery :: bool
  altitude_breach_count :: int
  altitude_clear_count :: int
  altitude_breach_latch_count :: int
  altitude_cap_m :: u16
  altitude_breach :: bool
  terminated :: bool
  fss_comms_lost :: bool
  mav_comms_lost :: bool
  state_change_cb :: bool

definition FMUStateMachine_init :: "int \<Rightarrow> u16 \<Rightarrow> int \<Rightarrow> fmu" where
  "FMUStateMachine_init t_low_battery_latch_count t_altitude_cap_m t_altitude_breach_latch_count =
     \<lparr>current_state = fmu_state_manual, fss_command = fss_cmd_unknown,
      fss_command_target = FSSCommandTarget_default, smm_command = smm_cmd_none,
      low_battery_count = 0, low_battery_latch_count = t_low_battery_latch_count,
      low_battery = False, altitude_breach_count = 0, altitude_clear_count = 0,
      altitude_breach_latch_count = t_altitude_breach_latch_count,
      altitude_cap_m = t_altitude_cap_m, altitude_breach = False, terminated = False,
      fss_comms_lost = True, mav_comms_lost = False, state_change_cb = False\<rparr>"

definition setStateChangeCB :: "bool \<Rightarrow> fmu \<Rightarrow> fmu" where
  "setStateChangeCB cb s = s\<lparr>state_change_cb := cb\<rparr>"

section \<open>Arbitration\<close>

fun map_smm_state :: "SMMCommand \<Rightarrow> FMUState" where
  "map_smm_state smm_cmd_abandon_search = fmu_state_searching"
| "map_smm_state smm_cmd_none = fmu_state_searching"
| "map_smm_state smm_cmd_mission_complete = fmu_state_waiting_for_tasking"

fun map_fss_state :: "FSSCommand \<Rightarrow> FMUState" where
  "map_fss_state fss_cmd_rtl = fmu_state_rtl"
| "map_fss_state fss_cmd_goto = fmu_state_goto"
| "map_fss_state fss_cmd_hold = fmu_state_hold"
| "map_fss_state fss_cmd_altitude = fmu_state_altitude_adjust"
| "map_fss_state fss_cmd_disarm = fmu_state_disarmed"
| "map_fss_state fss_cmd_manual = fmu_state_manual"
| "map_fss_state fss_cmd_terminate = fmu_state_terminate"
| "map_fss_state fss_cmd_continue = fmu_state_searching"
| "map_fss_state fss_cmd_unknown = fmu_state_searching"

definition commandedState :: "fmu \<Rightarrow> FMUState" where
  "commandedState s =
     (let desired = map_fss_state (fss_command s)
      in if desired = fmu_state_searching then map_smm_state (smm_command s) else desired)"

text \<open>The state the latches and the commands select, once the terminate latch is set.\<close>

definition updateState :: "fmu \<Rightarrow> fmu \<times> FMUState option" where
  "updateState s =
     (let s1 = (if fss_command s = fss_cmd_terminate then s\<lparr>terminated := True\<rparr> else s);
          new_state =
            (if terminated s1 then fmu_state_terminate
             else if low_battery s1 then fmu_state_low_battery
             else if \<not> fss_comms_lost s1 \<and> \<not> mav_comms_lost s1
               then (if altitude_breach s1 then fmu_state_rtl else commandedState s1)
             else fmu_state_failsafe)
      in if new_state \<noteq> current_state s1
         then (s1\<lparr>current_state := new_state\<rparr>, Some new_state)
         else (s1, None))"

definition resolveFSSCommand :: "fmu \<Rightarrow> FMUState \<Rightarrow> FMUState option \<Rightarrow> FSSCommandResolution" where
  "resolveFSSCommand s desired changed =
     (if current_state s = desired
      then \<lparr>outcome = fss_command_actioned, superseding_state = None, transitioned = changed \<noteq> None\<rparr>
      else \<lparr>outcome = fss_command_superseded, superseding_state = Some (current_state s),
            transitioned = changed \<noteq> None\<rparr>)"

section \<open>Actions\<close>

text \<open>The calls on the interfaces \<open>IMAV\<close> and \<open>ISMM\<close> and on the state-change callback.\<close>

datatype fmu_call =
    Call_setMode flight_mode
  | Call_disarm
  | Call_terminate
  | Call_gotoPosition point
  | Call_setAltitude u32
  | Call_search point
  | Call_cancelSearch
  | Call_state_change FMUState

text \<open>What the interfaces answer while an operation runs.\<close>

record mav_env =
  env_currentPosition :: point
  env_sent :: "fmu_call \<Rightarrow> bool"

text \<open>The call on the autopilot or the search worker that a state stands for.\<close>

definition actionState :: "mav_env \<Rightarrow> FMUState \<Rightarrow> fmu \<Rightarrow> fmu_call list \<times> bool" where
  "actionState env state s =
     (let cancel = (if state \<noteq> fmu_state_searching \<and> state \<noteq> fmu_state_waiting_for_tasking
                    then [Call_cancelSearch] else []);
          (calls, sent) =
            (case state of
               fmu_state_manual \<Rightarrow> let c = Call_setMode flight_mode_manual in ([c], env_sent env c)
             | fmu_state_searching \<Rightarrow> ([Call_search (env_currentPosition env)], True)
             | fmu_state_rtl \<Rightarrow> let c = Call_setMode flight_mode_rtl in ([c], env_sent env c)
             | fmu_state_failsafe \<Rightarrow> let c = Call_setMode flight_mode_rtl in ([c], env_sent env c)
             | fmu_state_low_battery \<Rightarrow> let c = Call_setMode flight_mode_rtl in ([c], env_sent env c)
             | fmu_state_waiting_for_tasking \<Rightarrow>
                 let c = Call_setMode flight_mode_rtl in ([c], env_sent env c)
             | fmu_state_goto \<Rightarrow>
                 let c = Call_setMode flight_mode_goto
                 in ([Call_gotoPosition (target_position (fss_command_target s)), c], env_sent env c)
             | fmu_state_hold \<Rightarrow> let c = Call_setMode flight_mode_hold in ([c], env_sent env c)
             | fmu_state_altitude_adjust \<Rightarrow>
                 let c = Call_setAltitude (target_altitude (fss_command_target s)) in ([c], env_sent env c)
             | fmu_state_disarmed \<Rightarrow> ([Call_disarm], env_sent env Call_disarm)
             | fmu_state_terminate \<Rightarrow> ([Call_terminate], env_sent env Call_terminate));
          report = (if state_change_cb s then [Call_state_change state] else [])
      in (cancel @ calls @ report, sent))"

text \<open>Every operation actions a transition after its critical section and drops the result.\<close>

definition action_if_changed :: "mav_env \<Rightarrow> fmu \<times> FMUState option \<Rightarrow> fmu \<times> fmu_call list" where
  "action_if_changed env r =
     (case r of (s, None) \<Rightarrow> (s, []) | (s, Some st) \<Rightarrow> (s, fst (actionState env st s)))"

section \<open>Operations\<close>

definition FSSNewCommand ::
  "mav_env \<Rightarrow> FSSCommand \<Rightarrow> FSSCommandTarget \<Rightarrow> fmu \<Rightarrow> (fmu \<times> fmu_call list) \<times> FSSCommandResolution" where
  "FSSNewCommand env cmd target s =
     (let s1 = s\<lparr>fss_command := cmd, fss_command_target := target\<rparr>;
          desired = commandedState s1;
          (s2, changed_to) = updateState s1;
          resolution = resolveFSSCommand s2 desired changed_to
      in (action_if_changed env (s2, changed_to), resolution))"

definition SMMNewCommand :: "mav_env \<Rightarrow> SMMCommand \<Rightarrow> fmu \<Rightarrow> fmu \<times> fmu_call list" where
  "SMMNewCommand env cmd s = action_if_changed env (updateState (s\<lparr>smm_command := cmd\<rparr>))"

definition setLowBattery :: "mav_env \<Rightarrow> bool \<Rightarrow> fmu \<Rightarrow> fmu \<times> fmu_call list" where
  "setLowBattery env low s =
     (if low
      then let s1 = (if low_battery_count s < low_battery_latch_count s
                     then s\<lparr>low_battery_count := low_battery_count s + 1\<rparr> else s)
        in if low_battery_count s1 \<ge> low_battery_latch_count s1 \<and> \<not> low_battery s1
           then action_if_changed env (updateState (s1\<lparr>low_battery := True\<rparr>))
           else (s1, [])
      else (s\<lparr>low_battery_count := 0\<rparr>, []))"

definition setCurrentAltitude :: "mav_env \<Rightarrow> bool \<Rightarrow> dbl \<Rightarrow> fmu \<Rightarrow> fmu \<times> fmu_call list" where
  "setCurrentAltitude env fix_valid altitude_agl_m s =
     (if fix_valid \<and> isfinite altitude_agl_m
      then if over_altitude_cap altitude_agl_m (altitude_cap_m s)
        then let s1 = (if altitude_breach_count s < altitude_breach_latch_count s
                       then s\<lparr>altitude_breach_count := altitude_breach_count s + 1\<rparr> else s);
                 s2 = s1\<lparr>altitude_clear_count := 0\<rparr>
          in if altitude_breach_count s2 \<ge> altitude_breach_latch_count s2 \<and> \<not> altitude_breach s2
             then action_if_changed env (updateState (s2\<lparr>altitude_breach := True\<rparr>))
             else (s2, [])
        else let s1 = (if altitude_clear_count s < altitude_breach_latch_count s
                       then s\<lparr>altitude_clear_count := altitude_clear_count s + 1\<rparr> else s);
                 s2 = s1\<lparr>altitude_breach_count := 0\<rparr>
          in if altitude_clear_count s2 \<ge> altitude_breach_latch_count s2 \<and> altitude_breach s2
             then action_if_changed env (updateState (s2\<lparr>altitude_breach := False\<rparr>))
             else (s2, [])
      else (s, []))"

definition setCommsFailure :: "mav_env \<Rightarrow> bool \<Rightarrow> fmu \<Rightarrow> fmu \<times> fmu_call list" where
  "setCommsFailure env failed s = action_if_changed env (updateState (s\<lparr>fss_comms_lost := failed\<rparr>))"

definition setMavCommsFailure :: "mav_env \<Rightarrow> bool \<Rightarrow> fmu \<Rightarrow> fmu \<times> fmu_call list" where
  "setMavCommsFailure env failed s =
     (let recovered = (mav_comms_lost s \<and> \<not> failed);
          (s1, changed_to) = updateState (s\<lparr>mav_comms_lost := failed\<rparr>);
          reassert = current_state s1
      in case changed_to of
           Some st \<Rightarrow> (s1, fst (actionState env st s1))
         | None \<Rightarrow> if recovered then (s1, fst (actionState env reassert s1)) else (s1, []))"

definition reassertState :: "mav_env \<Rightarrow> fmu \<Rightarrow> fmu \<times> fmu_call list" where
  "reassertState env s = (s, fst (actionState env (current_state s) s))"

definition isSearching :: "fmu \<Rightarrow> bool" where
  "isSearching s = (current_state s = fmu_state_searching)"

definition isWaitingForTasking :: "fmu \<Rightarrow> bool" where
  "isWaitingForTasking s = (current_state s = fmu_state_waiting_for_tasking)"

section \<open>Histories of operations\<close>

datatype fmu_input =
    In_fss FSSCommand FSSCommandTarget
  | In_smm SMMCommand
  | In_battery bool
  | In_altitude bool dbl
  | In_fss_comms bool
  | In_mav_comms bool
  | In_reassert

fun fmu_step :: "mav_env \<Rightarrow> fmu_input \<Rightarrow> fmu \<Rightarrow> fmu \<times> fmu_call list" where
  "fmu_step env (In_fss cmd tgt) s = fst (FSSNewCommand env cmd tgt s)"
| "fmu_step env (In_smm cmd) s = SMMNewCommand env cmd s"
| "fmu_step env (In_battery low) s = setLowBattery env low s"
| "fmu_step env (In_altitude fix_valid agl) s = setCurrentAltitude env fix_valid agl s"
| "fmu_step env (In_fss_comms failed) s = setCommsFailure env failed s"
| "fmu_step env (In_mav_comms failed) s = setMavCommsFailure env failed s"
| "fmu_step env In_reassert s = reassertState env s"

text \<open>The state after a history, oldest input first. Each input meets its own environment.\<close>

definition fmu_after :: "fmu \<Rightarrow> (mav_env \<times> fmu_input) list \<Rightarrow> fmu" where
  "fmu_after s h = fold (\<lambda>(env, i) t. fst (fmu_step env i t)) h s"

lemma fmu_after_Nil [simp]: "fmu_after s [] = s"
  by (simp add: fmu_after_def)

lemma fmu_after_snoc [simp]: "fmu_after s (h @ [(env, i)]) = fst (fmu_step env i (fmu_after s h))"
  by (simp add: fmu_after_def)

lemma fmu_after_append: "fmu_after s (h @ h') = fmu_after (fmu_after s h) h'"
  by (simp add: fmu_after_def)

section \<open>Effect of one operation\<close>

text \<open>The state that latches and commands select, as one expression.\<close>

definition arbitrate :: "fmu \<Rightarrow> FMUState" where
  "arbitrate s =
     (if terminated s \<or> fss_command s = fss_cmd_terminate then fmu_state_terminate
      else if low_battery s then fmu_state_low_battery
      else if fss_comms_lost s \<or> mav_comms_lost s then fmu_state_failsafe
      else if altitude_breach s then fmu_state_rtl
      else commandedState s)"

abbreviation upd :: "fmu \<Rightarrow> fmu" where
  "upd s \<equiv> fst (updateState s)"

lemma updateState_eq:
  "updateState s =
     (s\<lparr>terminated := terminated s \<or> fss_command s = fss_cmd_terminate, current_state := arbitrate s\<rparr>,
      if arbitrate s = current_state s then None else Some (arbitrate s))"
  by (cases s) (auto simp: updateState_def arbitrate_def commandedState_def Let_def)

lemma upd_eq [step_simps]:
  "upd s = s\<lparr>terminated := terminated s \<or> fss_command s = fss_cmd_terminate, current_state := arbitrate s\<rparr>"
  by (simp add: updateState_eq)

lemma fst_action_if_changed [step_simps]: "fst (action_if_changed env r) = fst r"
  by (auto simp: action_if_changed_def split: prod.splits option.splits)

lemma fmu_next_fss [step_simps]:
  "fst (fmu_step env (In_fss cmd tgt) s) = upd (s\<lparr>fss_command := cmd, fss_command_target := tgt\<rparr>)"
  by (simp add: FSSNewCommand_def Let_def fst_action_if_changed split: prod.splits)

lemma fmu_next_smm [step_simps]: "fst (fmu_step env (In_smm cmd) s) = upd (s\<lparr>smm_command := cmd\<rparr>)"
  by (simp add: SMMNewCommand_def fst_action_if_changed)

lemma fmu_next_fss_comms [step_simps]:
  "fst (fmu_step env (In_fss_comms failed) s) = upd (s\<lparr>fss_comms_lost := failed\<rparr>)"
  by (simp add: setCommsFailure_def fst_action_if_changed)

lemma fmu_next_mav_comms [step_simps]:
  "fst (fmu_step env (In_mav_comms failed) s) = upd (s\<lparr>mav_comms_lost := failed\<rparr>)"
  by (auto simp: setMavCommsFailure_def Let_def split: prod.splits option.splits)

lemma fmu_next_reassert [step_simps]: "fst (fmu_step env In_reassert s) = s"
  by (simp add: reassertState_def)

lemma fmu_next_battery [step_simps]:
  "fst (fmu_step env (In_battery low) s) =
     (if low
      then let c = (if low_battery_count s < low_battery_latch_count s then low_battery_count s + 1
                    else low_battery_count s);
               s1 = s\<lparr>low_battery_count := c\<rparr>
        in if low_battery_latch_count s \<le> c \<and> \<not> low_battery s
           then upd (s1\<lparr>low_battery := True\<rparr>) else s1
      else s\<lparr>low_battery_count := 0\<rparr>)"
  by (auto simp: setLowBattery_def Let_def fst_action_if_changed)

text \<open>The reading that an altitude report stands for: an invalid or non-finite one is none.\<close>

fun reading_battery :: "fmu_input \<Rightarrow> bool option" where
  "reading_battery (In_battery low) = Some low"
| "reading_battery _ = None"

fun reading_altitude :: "u16 \<Rightarrow> fmu_input \<Rightarrow> bool option" where
  "reading_altitude cap (In_altitude fix_valid agl) =
     (if fix_valid \<and> isfinite agl then Some (over_altitude_cap agl cap) else None)"
| "reading_altitude cap _ = None"

lemma fmu_next_altitude [step_simps]:
  "fst (fmu_step env (In_altitude fix_valid agl) s) =
     (case reading_altitude (altitude_cap_m s) (In_altitude fix_valid agl) of
        None \<Rightarrow> s
      | Some True \<Rightarrow>
          let c = (if altitude_breach_count s < altitude_breach_latch_count s
                   then altitude_breach_count s + 1 else altitude_breach_count s);
              s1 = s\<lparr>altitude_breach_count := c, altitude_clear_count := 0\<rparr>
          in if altitude_breach_latch_count s \<le> c \<and> \<not> altitude_breach s
             then upd (s1\<lparr>altitude_breach := True\<rparr>) else s1
      | Some False \<Rightarrow>
          let c = (if altitude_clear_count s < altitude_breach_latch_count s
                   then altitude_clear_count s + 1 else altitude_clear_count s);
              s1 = s\<lparr>altitude_clear_count := c, altitude_breach_count := 0\<rparr>
          in if altitude_breach_latch_count s \<le> c \<and> altitude_breach s
             then upd (s1\<lparr>altitude_breach := False\<rparr>) else s1)"
  by (auto simp: setCurrentAltitude_def Let_def fst_action_if_changed split: bool.splits)

declare fmu_step.simps [simp del]

text \<open>One step on a pair of environment and input, as the histories take it.\<close>

abbreviation fmu_next :: "mav_env \<times> fmu_input \<Rightarrow> fmu \<Rightarrow> fmu" where
  "fmu_next ei s \<equiv> fst (fmu_step (fst ei) (snd ei) s)"

lemma fmu_after_fold: "fmu_after s h = fold fmu_next h s"
  by (simp add: fmu_after_def case_prod_unfold)

interpretation battery: latching_debounce fmu_next "\<lambda>ei. reading_battery (snd ei)" low_battery_count n
    "\<lambda>s. low_battery_latch_count s = n" low_battery for n
proof unfold_locales
  fix s :: fmu and ei :: "mav_env \<times> fmu_input"
  assume n: "low_battery_latch_count s = n"
  show "low_battery_latch_count (fmu_next ei s) = n"
    using n by (cases "snd ei") (auto simp: step_simps Let_def split: option.splits bool.splits)
  show "reading_battery (snd ei) = Some True \<Longrightarrow> low_battery_count (fmu_next ei s) =
      (if low_battery_count s < n then low_battery_count s + 1 else low_battery_count s)"
    using n by (cases "snd ei") (auto simp: step_simps Let_def)
  show "reading_battery (snd ei) = Some False \<Longrightarrow> low_battery_count (fmu_next ei s) = 0"
    using n by (cases "snd ei") (auto simp: step_simps Let_def)
  show "reading_battery (snd ei) = None \<Longrightarrow> low_battery_count (fmu_next ei s) = low_battery_count s"
    using n by (cases "snd ei") (auto simp: step_simps Let_def split: option.splits bool.splits)
  show "low_battery (fmu_next ei s) \<longleftrightarrow> low_battery s \<or>
      reading_battery (snd ei) = Some True \<and> n \<le> low_battery_count (fmu_next ei s)"
    using n by (cases "snd ei") (auto simp: step_simps Let_def split: option.splits bool.splits)
qed

interpretation altitude: hysteresis fmu_next "\<lambda>ei. reading_altitude cap (snd ei)"
    altitude_breach_count altitude_clear_count n
    "\<lambda>s. altitude_breach_latch_count s = n \<and> altitude_cap_m s = cap" altitude_breach for n cap
proof unfold_locales
  fix s :: fmu and ei :: "mav_env \<times> fmu_input"
  assume n: "altitude_breach_latch_count s = n \<and> altitude_cap_m s = cap"
  show "altitude_breach_latch_count (fmu_next ei s) = n \<and> altitude_cap_m (fmu_next ei s) = cap"
    using n by (cases "snd ei") (auto simp: step_simps Let_def split: option.splits bool.splits)
  show "reading_altitude cap (snd ei) = Some True \<Longrightarrow> altitude_breach_count (fmu_next ei s) =
      (if altitude_breach_count s < n then altitude_breach_count s + 1 else altitude_breach_count s)"
    using n by (cases "snd ei") (auto simp: step_simps Let_def split: if_splits)
  show "reading_altitude cap (snd ei) = Some False \<Longrightarrow> altitude_breach_count (fmu_next ei s) = 0"
    using n by (cases "snd ei") (auto simp: step_simps Let_def split: if_splits)
  show "reading_altitude cap (snd ei) = None \<Longrightarrow>
      altitude_breach_count (fmu_next ei s) = altitude_breach_count s"
    using n by (cases "snd ei") (auto simp: step_simps Let_def split: if_splits)
  show "map_option Not (reading_altitude cap (snd ei)) = Some True \<Longrightarrow> altitude_clear_count (fmu_next ei s) =
      (if altitude_clear_count s < n then altitude_clear_count s + 1 else altitude_clear_count s)"
    using n by (cases "snd ei") (auto simp: step_simps Let_def split: if_splits)
  show "map_option Not (reading_altitude cap (snd ei)) = Some False \<Longrightarrow> altitude_clear_count (fmu_next ei s) = 0"
    using n by (cases "snd ei") (auto simp: step_simps Let_def split: if_splits)
  show "map_option Not (reading_altitude cap (snd ei)) = None \<Longrightarrow>
      altitude_clear_count (fmu_next ei s) = altitude_clear_count s"
    using n by (cases "snd ei") (auto simp: step_simps Let_def split: if_splits)
  show "altitude_breach (fmu_next ei s) \<longleftrightarrow>
      (if reading_altitude cap (snd ei) = Some True \<and> n \<le> altitude_breach_count (fmu_next ei s) then True
       else if reading_altitude cap (snd ei) = Some False \<and> n \<le> altitude_clear_count (fmu_next ei s) then False
       else altitude_breach s)"
    using n by (cases "snd ei") (auto simp: step_simps Let_def split: option.splits bool.splits)
qed

section \<open>The state as a function of the history\<close>

text \<open>
  The declarative reading of the machine: which commands and reports have arrived decides
  the state, without counters or latches.
\<close>

definition last_of :: "'r \<Rightarrow> ('i \<Rightarrow> 'r option) \<Rightarrow> 'i list \<Rightarrow> 'r" where
  "last_of d f xs = fold (\<lambda>x acc. case f x of None \<Rightarrow> acc | Some r \<Rightarrow> r) xs d"

lemma last_of_Nil [simp]: "last_of d f [] = d"
  by (simp add: last_of_def)

lemma last_of_snoc [simp]:
  "last_of d f (xs @ [x]) = (case f x of None \<Rightarrow> last_of d f xs | Some r \<Rightarrow> r)"
  by (simp add: last_of_def split: option.splits)

fun input_fss :: "fmu_input \<Rightarrow> FSSCommand option" where
  "input_fss (In_fss cmd tgt) = Some cmd" | "input_fss _ = None"

fun input_smm :: "fmu_input \<Rightarrow> SMMCommand option" where
  "input_smm (In_smm cmd) = Some cmd" | "input_smm _ = None"

fun input_fss_comms :: "fmu_input \<Rightarrow> bool option" where
  "input_fss_comms (In_fss_comms failed) = Some failed" | "input_fss_comms _ = None"

fun input_mav_comms :: "fmu_input \<Rightarrow> bool option" where
  "input_mav_comms (In_mav_comms failed) = Some failed" | "input_mav_comms _ = None"

text \<open>Commands and link reports are always evaluated; readings only when a latch moves.\<close>

fun evaluates :: "fmu_input \<Rightarrow> bool" where
  "evaluates (In_battery low) = False"
| "evaluates (In_altitude fix_valid agl) = False"
| "evaluates In_reassert = False"
| "evaluates _ = True"

definition spec_low_battery :: "nat \<Rightarrow> fmu_input list \<Rightarrow> bool" where
  "spec_low_battery n h = has_run n True (readings reading_battery h)"

definition spec_terminated :: "fmu_input list \<Rightarrow> bool" where
  "spec_terminated h = list_ex (\<lambda>i. input_fss i = Some fss_cmd_terminate) h"

definition spec_failsafe :: "fmu_input list \<Rightarrow> bool" where
  "spec_failsafe h = (last_of True input_fss_comms h \<or> last_of False input_mav_comms h)"

definition spec_commanded :: "fmu_input list \<Rightarrow> FMUState" where
  "spec_commanded h =
     (let st = map_fss_state (last_of fss_cmd_unknown input_fss h)
      in if st = fmu_state_searching then map_smm_state (last_of smm_cmd_none input_smm h) else st)"

definition spec_evaluated :: "nat \<Rightarrow> nat \<Rightarrow> u16 \<Rightarrow> fmu_input list \<Rightarrow> bool" where
  "spec_evaluated n m cap h =
     (list_ex evaluates h \<or> spec_low_battery n h \<or> has_run m True (readings (reading_altitude cap) h))"

definition spec_state :: "nat \<Rightarrow> nat \<Rightarrow> u16 \<Rightarrow> fmu_input list \<Rightarrow> FMUState" where
  "spec_state n m cap h =
     (if \<not> spec_evaluated n m cap h then fmu_state_manual
      else if spec_terminated h then fmu_state_terminate
      else if spec_low_battery n h then fmu_state_low_battery
      else if spec_failsafe h then fmu_state_failsafe
      else if engaged m (readings (reading_altitude cap) h) then fmu_state_rtl
      else spec_commanded h)"

lemma readings_map: "readings (\<lambda>x. f (g x)) xs = readings f (map g xs)"
  by (induction xs rule: rev_induct) (auto split: option.splits)

text \<open>The fields that are plain last-writer registers.\<close>

definition register_inv :: "fmu_input list \<Rightarrow> fmu \<Rightarrow> bool" where
  "register_inv h s \<longleftrightarrow>
     fss_command s = last_of fss_cmd_unknown input_fss h \<and>
     smm_command s = last_of smm_cmd_none input_smm h \<and>
     fss_comms_lost s = last_of True input_fss_comms h \<and>
     mav_comms_lost s = last_of False input_mav_comms h \<and>
     terminated s = spec_terminated h"

lemma register_inv_init: "register_inv [] (FMUStateMachine_init n cap m)"
  by (simp add: register_inv_def FMUStateMachine_init_def spec_terminated_def)

lemma spec_terminated_snoc [simp]:
  "spec_terminated (h @ [i]) \<longleftrightarrow> spec_terminated h \<or> input_fss i = Some fss_cmd_terminate"
  by (auto simp: spec_terminated_def)

lemma last_of_terminate: "last_of fss_cmd_unknown input_fss h = fss_cmd_terminate \<Longrightarrow> spec_terminated h"
  by (induction h rule: rev_induct) (auto split: option.splits)

lemma register_inv_step:
  assumes "register_inv h s"
  shows "register_inv (h @ [i]) (fst (fmu_step env i s))"
proof -
  have "fss_command s = fss_cmd_terminate \<Longrightarrow> terminated s"
    using assms last_of_terminate by (auto simp: register_inv_def)
  then show ?thesis
    using assms by (cases i)
      (auto simp: register_inv_def step_simps Let_def split: option.splits bool.splits)
qed

lemma register_inv_after:
  "register_inv (map snd h) (fmu_after (FMUStateMachine_init n cap m) h)"
proof (induction h rule: rev_induct)
  case Nil
  then show ?case using register_inv_init by simp
next
  case (snoc x xs)
  then show ?case using register_inv_step by (cases x) simp
qed

text \<open>
  Once anything has been evaluated the current state is the arbitration of the current
  fields: no operation changes a field of the arbitration without evaluating it.
\<close>

lemma arbitrate_cong:
  assumes "fss_command s = fss_command t" "smm_command s = smm_command t" "terminated s = terminated t"
    "low_battery s = low_battery t" "fss_comms_lost s = fss_comms_lost t"
    "mav_comms_lost s = mav_comms_lost t" "altitude_breach s = altitude_breach t"
  shows "arbitrate s = arbitrate t"
  using assms by (simp add: arbitrate_def commandedState_def Let_def)

lemma arbitrate_upd: "arbitrate (upd s) = arbitrate s"
  by (simp add: upd_eq arbitrate_def commandedState_def Let_def)

lemma current_upd: "current_state (upd s) = arbitrate (upd s)"
  by (simp add: arbitrate_upd) (simp add: upd_eq)

text \<open>A step evaluates the arbitration, or leaves all of its fields alone.\<close>

lemma step_evaluates_or_keeps:
  "current_state (fst (fmu_step env i s)) = arbitrate (fst (fmu_step env i s)) \<or>
     \<not> evaluates i \<and> current_state (fst (fmu_step env i s)) = current_state s \<and>
     arbitrate (fst (fmu_step env i s)) = arbitrate s \<and>
     low_battery (fst (fmu_step env i s)) = low_battery s \<and>
     altitude_breach (fst (fmu_step env i s)) = altitude_breach s"
proof (cases i)
  case (In_battery low)
  then show ?thesis
    by (simp add: fmu_next_battery Let_def current_upd) (auto intro!: arbitrate_cong)
next
  case (In_altitude v a)
  then show ?thesis
    by (simp add: fmu_next_altitude Let_def current_upd split: bool.splits) (auto intro!: arbitrate_cong)
qed (simp_all add: fmu_next_fss fmu_next_smm fmu_next_fss_comms fmu_next_mav_comms fmu_next_reassert current_upd)

abbreviation fmu_start :: "nat \<Rightarrow> u16 \<Rightarrow> nat \<Rightarrow> fmu" where
  "fmu_start n cap m \<equiv> FMUStateMachine_init (int n) cap (int m)"

lemma low_battery_after:
  assumes "1 \<le> n"
  shows "low_battery (fmu_after (fmu_start n cap m) h) \<longleftrightarrow> spec_low_battery n (map snd h)"
  using battery.latch_fold [of "fmu_start n cap m" "int n" h] assms
  by (simp add: fmu_after_fold FMUStateMachine_init_def spec_low_battery_def readings_map)

lemma altitude_breach_after:
  assumes "1 \<le> m"
  shows "altitude_breach (fmu_after (fmu_start n cap m) h) \<longleftrightarrow>
    engaged m (readings (reading_altitude cap) (map snd h))"
  using altitude.latch_fold [of "fmu_start n cap m" "int m" cap h] assms
  by (simp add: fmu_after_fold FMUStateMachine_init_def readings_map)

text \<open>Both counters stay between 0 and their latch count: they cannot overflow an \<open>int\<close>.\<close>

lemma fmu_counters_bounded:
  "0 \<le> low_battery_count (fmu_after (fmu_start n cap m) h)"
  "low_battery_count (fmu_after (fmu_start n cap m) h) \<le> int n"
  "0 \<le> altitude_breach_count (fmu_after (fmu_start n cap m) h)"
  "altitude_breach_count (fmu_after (fmu_start n cap m) h) \<le> int m"
  "0 \<le> altitude_clear_count (fmu_after (fmu_start n cap m) h)"
  "altitude_clear_count (fmu_after (fmu_start n cap m) h) \<le> int m"
  using battery.count_bounds [of "fmu_start n cap m" "int n" h]
    altitude.up.count_bounds [of "fmu_start n cap m" "int m" cap h]
    altitude.down.count_bounds [of "fmu_start n cap m" "int m" cap h]
  by (simp_all add: fmu_after_fold FMUStateMachine_init_def)

lemma has_run_first_engaged: "has_run m True (xs @ [x]) \<Longrightarrow> \<not> has_run m True xs \<Longrightarrow> 1 \<le> m \<Longrightarrow> engaged m (xs @ [x])"
  by (simp add: has_run_snoc_True engaged_snoc)

lemma engaged_has_run: "engaged m xs \<Longrightarrow> has_run m True xs"
  unfolding engaged_def has_run_def by blast

text \<open>Before anything was evaluated the machine is in its initial state manual.\<close>

lemma evaluated_after:
  assumes n: "1 \<le> n" and m: "1 \<le> m"
  shows "(spec_evaluated n m cap (map snd h) \<longrightarrow>
      current_state (fmu_after (fmu_start n cap m) h) = arbitrate (fmu_after (fmu_start n cap m) h)) \<and>
    (\<not> spec_evaluated n m cap (map snd h) \<longrightarrow>
      current_state (fmu_after (fmu_start n cap m) h) = fmu_state_manual)"
proof (induction h rule: rev_induct)
  case Nil
  then show ?case using n m by (simp add: spec_evaluated_def spec_low_battery_def FMUStateMachine_init_def)
next
  case (snoc x xs)
  obtain env i where x: "x = (env, i)" by (cases x)
  let ?s = "fmu_after (fmu_start n cap m) xs" and ?h = "map snd xs"
  let ?t = "fst (fmu_step env i ?s)"
  have after: "fmu_after (fmu_start n cap m) (xs @ [x]) = ?t" by (simp add: x)
  note lb = low_battery_after [OF n, of cap m "xs @ [x]", unfolded after] low_battery_after [OF n, of cap m xs]
  note ab = altitude_breach_after [OF m, of n cap "xs @ [x]", unfolded after] altitude_breach_after [OF m, of n cap xs]
  have run_mono: "has_run m True (readings (reading_altitude cap) (?h @ [i]))"
    if "has_run m True (readings (reading_altitude cap) ?h)"
    using that by (auto intro: has_run_append_left)
  have low_mono: "spec_low_battery n (?h @ [i])" if "spec_low_battery n ?h"
    using that by (auto simp: spec_low_battery_def intro: has_run_append_left)
  from step_evaluates_or_keeps [of env i ?s] show ?case
  proof (elim disjE conjE)
    assume cur: "current_state ?t = arbitrate ?t"
    have "current_state ?t = fmu_state_manual" if "\<not> spec_evaluated n m cap (?h @ [i])"
    proof -
      have ne: "\<not> evaluates i" "\<not> spec_evaluated n m cap ?h"
        using that low_mono run_mono by (auto simp: spec_evaluated_def)
      have "\<not> low_battery ?t" "\<not> low_battery ?s" using that lb low_mono x by (auto simp: spec_evaluated_def)
      moreover have "\<not> altitude_breach ?t" "\<not> altitude_breach ?s"
        using that ab run_mono x engaged_has_run by (fastforce simp: spec_evaluated_def)+
      ultimately have "current_state ?t = current_state ?s"
        using ne(1) by (cases i) (auto simp: step_simps Let_def split: option.splits bool.splits if_splits)
      then show ?thesis using snoc.IH ne(2) by simp
    qed
    then show ?thesis using cur x by simp
  next
    assume keep: "\<not> evaluates i" "current_state ?t = current_state ?s" "arbitrate ?t = arbitrate ?s"
      "low_battery ?t = low_battery ?s" "altitude_breach ?t = altitude_breach ?s"
    have "spec_evaluated n m cap (?h @ [i]) \<longleftrightarrow> spec_evaluated n m cap ?h"
    proof
      assume e: "spec_evaluated n m cap (?h @ [i])"
      show "spec_evaluated n m cap ?h"
      proof (rule ccontr)
        assume ne: "\<not> spec_evaluated n m cap ?h"
        then have "spec_low_battery n (?h @ [i]) \<or> has_run m True (readings (reading_altitude cap) (?h @ [i]))"
          using e keep(1) by (auto simp: spec_evaluated_def)
        then show False
        proof
          assume "spec_low_battery n (?h @ [i])"
          then show False using lb keep(4) ne x by (auto simp: spec_evaluated_def)
        next
          assume "has_run m True (readings (reading_altitude cap) (?h @ [i]))"
          then have "engaged m (readings (reading_altitude cap) (?h @ [i]))"
            using ne has_run_first_engaged [OF _ _ m]
            by (auto simp: spec_evaluated_def split: option.splits)
          then show False using ab keep(5) ne x engaged_has_run by (auto simp: spec_evaluated_def)
        qed
      qed
    qed (use low_mono run_mono in \<open>auto simp: spec_evaluated_def\<close>)
    then show ?thesis using snoc.IH keep x by simp
  qed
qed

lemma current_state_after:
  assumes "1 \<le> n" and "1 \<le> m"
  shows "current_state (fmu_after (FMUStateMachine_init (int n) cap (int m)) h) = spec_state n m cap (map snd h)"
proof -
  let ?s = "fmu_after (fmu_start n cap m) h"
  note reg = register_inv_after [of h "int n" cap "int m", unfolded register_inv_def]
  have "arbitrate ?s = (if spec_terminated (map snd h) then fmu_state_terminate
      else if spec_low_battery n (map snd h) then fmu_state_low_battery
      else if spec_failsafe (map snd h) then fmu_state_failsafe
      else if engaged m (readings (reading_altitude cap) (map snd h)) then fmu_state_rtl
      else spec_commanded (map snd h))"
    using reg last_of_terminate low_battery_after [OF assms(1)] altitude_breach_after [OF assms(2)]
    by (auto simp: arbitrate_def spec_failsafe_def spec_commanded_def commandedState_def Let_def)
  then show ?thesis using evaluated_after [OF assms, of cap h] by (auto simp: spec_state_def)
qed

text \<open>C3: the state machine computes exactly the declarative reading of its history: after any sequence of commands, readings and link reports the current state is the one that the last commands, the last link reports, a run of low-battery readings and the altitude hysteresis select by priority.\<close>

theorem fmu_refines_history:
  assumes "1 \<le> n" and "1 \<le> m"
  shows "current_state (fmu_after (FMUStateMachine_init (int n) cap (int m)) h) = spec_state n m cap (map snd h)"
  using assms by (rule current_state_after)

definition answer_yes :: mav_env where
  "answer_yes = \<lparr>env_currentPosition = Point_default, env_sent = (\<lambda>_. True)\<rparr>"

theorem fmu_refines_history_witness:
  "current_state (fmu_after (FMUStateMachine_init (int 4) 122 (int 5))
       [(answer_yes, In_fss_comms False), (answer_yes, In_battery True), (answer_yes, In_mav_comms True)])
     = spec_state 4 5 122 [In_fss_comms False, In_battery True, In_mav_comms True]"
  using fmu_refines_history [of 4 5 122
      "[(answer_yes, In_fss_comms False), (answer_yes, In_battery True), (answer_yes, In_mav_comms True)]"]
  by simp

section \<open>What the machine commands\<close>

lemma snd_action_if_changed:
  "snd (action_if_changed env (updateState s)) =
     (if current_state (upd s) \<noteq> current_state s then fst (actionState env (current_state (upd s)) (upd s)) else [])"
  by (auto simp: action_if_changed_def updateState_eq)

lemma setMavCommsFailure_calls:
  "snd (setMavCommsFailure env failed s) =
     (let t = upd (s\<lparr>mav_comms_lost := failed\<rparr>)
      in if current_state t \<noteq> current_state s \<or> mav_comms_lost s \<and> \<not> failed
         then fst (actionState env (current_state t) t) else [])"
  by (auto simp: setMavCommsFailure_def updateState_eq Let_def)

text \<open>The inputs that re-command the current state although it does not change.\<close>

definition recommands :: "fmu_input \<Rightarrow> fmu \<Rightarrow> bool" where
  "recommands i s = (i = In_reassert \<or> i = In_mav_comms False \<and> mav_comms_lost s)"

lemma fmu_step_calls_eq:
  "snd (fmu_step env i s) =
     (let t = fst (fmu_step env i s)
      in if current_state t \<noteq> current_state s \<or> recommands i s
         then fst (actionState env (current_state t) t) else [])"
proof (cases i)
  case (In_fss cmd tgt)
  then show ?thesis
    by (simp add: fmu_step.simps FSSNewCommand_def case_prod_unfold Let_def fst_action_if_changed
        snd_action_if_changed recommands_def)
next
  case (In_battery low)
  then show ?thesis
    by (auto simp: fmu_step.simps setLowBattery_def Let_def fst_action_if_changed snd_action_if_changed recommands_def)
next
  case (In_altitude v a)
  then show ?thesis
    by (auto simp: fmu_step.simps setCurrentAltitude_def Let_def fst_action_if_changed snd_action_if_changed
        recommands_def)
next
  case (In_mav_comms failed)
  then show ?thesis
    by (auto simp: fmu_next_mav_comms recommands_def Let_def)
       (auto simp: fmu_step.simps setMavCommsFailure_calls Let_def)
qed (simp_all add: fmu_step.simps SMMNewCommand_def setCommsFailure_def reassertState_def Let_def
    fst_action_if_changed snd_action_if_changed recommands_def)

text \<open>An operation acts on the autopilot and the search worker exactly when the state changes, when the autopilot link comes back or when a restart is reported, and then it carries out the action of the state it ends in.\<close>

lemma fmu_step_calls:
  "snd (fmu_step env i s) =
     (let t = fst (fmu_step env i s)
      in if current_state t = current_state s \<and> \<not> recommands i s then []
         else fst (actionState env (current_state t) t))"
  by (subst fmu_step_calls_eq) (simp add: Let_def)

text \<open>The autopilot calls that may be made in a state.\<close>

fun allowed_calls :: "FMUState \<Rightarrow> fmu_call set" where
  "allowed_calls fmu_state_terminate = {Call_cancelSearch, Call_terminate, Call_state_change fmu_state_terminate}"
| "allowed_calls fmu_state_low_battery =
     {Call_cancelSearch, Call_setMode flight_mode_rtl, Call_state_change fmu_state_low_battery}"
| "allowed_calls fmu_state_failsafe =
     {Call_cancelSearch, Call_setMode flight_mode_rtl, Call_state_change fmu_state_failsafe}"
| "allowed_calls _ = UNIV"

lemma actionState_allowed: "set (fst (actionState env st s)) \<subseteq> allowed_calls st"
  by (cases st) (auto simp: actionState_def Let_def)

lemma step_allowed:
  "set (snd (fmu_step env i s)) \<subseteq> allowed_calls (current_state (fst (fmu_step env i s)))"
proof (cases "snd (fmu_step env i s) = []")
  case False
  then have "snd (fmu_step env i s) =
      fst (actionState env (current_state (fst (fmu_step env i s))) (fst (fmu_step env i s)))"
    using fmu_step_calls_eq [of env i s] by (auto simp: Let_def split: if_splits)
  then show ?thesis using actionState_allowed by metis
qed simp

lemma terminated_step:
  assumes "terminated s" and "current_state s = fmu_state_terminate"
  shows "terminated (fst (fmu_step env i s)) \<and> current_state (fst (fmu_step env i s)) = fmu_state_terminate"
  using assms by (cases i) (auto simp: step_simps arbitrate_def Let_def split: option.splits bool.splits)

lemma terminated_after:
  assumes "terminated s" and "current_state s = fmu_state_terminate"
  shows "terminated (fmu_after s h) \<and> current_state (fmu_after s h) = fmu_state_terminate"
  using assms by (induction h rule: rev_induct) (auto simp: terminated_step)

text \<open>C4: a terminate command is final: in any state, once it has been received the machine stays in terminate whatever is received later, and the only thing it ever asks of the autopilot is to terminate.\<close>

theorem terminate_is_final:
  "current_state (fmu_after s (h @ (env, In_fss fss_cmd_terminate tgt) # h')) = fmu_state_terminate \<and>
   set (snd (fmu_step env' i (fmu_after s (h @ (env, In_fss fss_cmd_terminate tgt) # h'))))
     \<subseteq> {Call_cancelSearch, Call_terminate, Call_state_change fmu_state_terminate}"
proof -
  let ?t = "fmu_after s (h @ (env, In_fss fss_cmd_terminate tgt) # h')"
  let ?u = "fst (fmu_step env (In_fss fss_cmd_terminate tgt) (fmu_after s h))"
  have t: "?t = fmu_after ?u h'" by (simp add: fmu_after_def)
  have "terminated ?u" "current_state ?u = fmu_state_terminate"
    by (simp_all add: step_simps arbitrate_def)
  then have *: "terminated ?t" "current_state ?t = fmu_state_terminate"
    unfolding t using terminated_after by blast+
  show ?thesis
    using * step_allowed [of env' i ?t] terminated_step [OF *, of env' i] by simp
qed

text \<open>The helper form of the refinement for the low-battery latch.\<close>

lemma low_battery_state:
  assumes "1 \<le> n" and "1 \<le> m" and "spec_low_battery n (map snd h)"
  shows "current_state (fmu_after (fmu_start n cap m) h) \<in> {fmu_state_low_battery, fmu_state_terminate}"
proof -
  have "spec_evaluated n m cap (map snd h)" using assms(3) by (simp add: spec_evaluated_def)
  then have "current_state (fmu_after (fmu_start n cap m) h) = arbitrate (fmu_after (fmu_start n cap m) h)"
    using evaluated_after [OF assms(1,2)] by blast
  then show ?thesis using low_battery_after [OF assms(1), of cap m h] assms(3) by (simp add: arbitrate_def)
qed

text \<open>C5: once the configured number of low-battery readings has arrived in a row the aircraft is returning or terminated, whatever arrives before, between or after, and no other flight mode is ever commanded.\<close>

theorem low_battery_is_final:
  assumes "1 \<le> n" and "1 \<le> m" and "has_run n True (readings reading_battery (map snd h))"
  shows "current_state (fmu_after (FMUStateMachine_init (int n) cap (int m)) (h @ h'))
      \<in> {fmu_state_low_battery, fmu_state_terminate} \<and>
    (\<forall>fm. Call_setMode fm \<in> set (snd (fmu_step env i (fmu_after (FMUStateMachine_init (int n) cap (int m)) (h @ h'))))
       \<longrightarrow> fm = flight_mode_rtl)"
proof -
  have mono: "spec_low_battery n (map snd h @ is)" for "is"
  proof -
    have "readings reading_battery (xs @ ys) = readings reading_battery xs @ readings reading_battery ys" for xs ys
      by (simp add: readings_def List.map_filter_def)
    then show ?thesis using assms(3) by (auto simp: spec_low_battery_def intro: has_run_append_left)
  qed
  let ?t = "fmu_after (fmu_start n cap m) (h @ h')"
  have 1: "current_state ?t \<in> {fmu_state_low_battery, fmu_state_terminate}"
    using low_battery_state [OF assms(1,2), of "h @ h'"] mono [of "map snd h'"] by simp
  have "fst (fmu_step env i ?t) = fmu_after (fmu_start n cap m) ((h @ h') @ [(env, i)])"
    by (simp add: fmu_after_def)
  then have "current_state (fst (fmu_step env i ?t)) \<in> {fmu_state_low_battery, fmu_state_terminate}"
    using low_battery_state [OF assms(1,2), of "(h @ h') @ [(env, i)]"] mono [of "map snd h' @ [i]"] by simp
  then show ?thesis using 1 step_allowed [of env i ?t] by auto
qed

lemma has_run_two: "has_run 2 True [True, True]"
proof -
  have "[True, True] = [] @ replicate 2 True @ []" by (simp add: numeral_2_eq_2)
  then show ?thesis unfolding has_run_def by blast
qed

theorem low_battery_is_final_witness:
  "current_state (fmu_after (FMUStateMachine_init (int 2) 122 (int 5))
       ([(answer_yes, In_battery True), (answer_yes, In_battery True)] @
        [(answer_yes, In_battery False), (answer_yes, In_fss fss_cmd_continue FSSCommandTarget_default)]))
     \<in> {fmu_state_low_battery, fmu_state_terminate}"
proof -
  have "has_run 2 True (readings reading_battery (map snd [(answer_yes, In_battery True), (answer_yes, In_battery True)]))"
    by (simp add: readings_def List.map_filter_simps has_run_two)
  then show ?thesis
    using low_battery_is_final [of 2 5 "[(answer_yes, In_battery True), (answer_yes, In_battery True)]" 122
      "[(answer_yes, In_battery False), (answer_yes, In_fss fss_cmd_continue FSSCommandTarget_default)]",
      THEN conjunct1]
    by simp
qed

section \<open>Searching waits for the ground station\<close>

fun fmu_calls :: "fmu \<Rightarrow> (mav_env \<times> fmu_input) list \<Rightarrow> fmu_call list" where
  "fmu_calls s [] = []"
| "fmu_calls s ((env, i) # h) = snd (fmu_step env i s) @ fmu_calls (fst (fmu_step env i s)) h"

lemma fmu_calls_append: "fmu_calls s (h @ h') = fmu_calls s h @ fmu_calls (fmu_after s h) h'"
  by (induction s h rule: fmu_calls.induct) (simp_all add: fmu_after_def)

text \<open>While a comms failure is in force only the latches and the failsafe can be entered.\<close>

definition grounded :: "fmu \<Rightarrow> bool" where
  "grounded s \<longleftrightarrow> fss_comms_lost s \<and>
     current_state s \<in> {fmu_state_manual, fmu_state_terminate, fmu_state_low_battery, fmu_state_failsafe}"

lemma arbitrate_grounded:
  "fss_comms_lost s \<Longrightarrow> arbitrate s \<in> {fmu_state_terminate, fmu_state_low_battery, fmu_state_failsafe}"
  by (simp add: arbitrate_def)

lemma grounded_step [inv_intros]:
  assumes "grounded s" and "i \<noteq> In_fss_comms False"
  shows "grounded (fst (fmu_step env i s))"
proof (cases "evaluates i")
  case True
  then show ?thesis
    using assms by (cases i) (auto simp: grounded_def step_simps arbitrate_def)
next
  case False
  have keep: "fss_comms_lost (fst (fmu_step env i s))"
    using False assms(1) by (cases i) (auto simp: grounded_def step_simps Let_def split: option.splits bool.splits)
  then show ?thesis
    using step_evaluates_or_keeps [of env i s] assms(1) arbitrate_grounded [OF keep] by (auto simp: grounded_def)
qed

lemma grounded_action:
  assumes "grounded s"
  shows "Call_search q \<notin> set (fst (actionState env (current_state s) s))"
  using assms by (auto simp: grounded_def actionState_def Let_def)

text \<open>C9: until the ground station has reported communications okay the machine never starts a search: no history without that report makes the search call, whatever commands, readings and link reports it holds.\<close>

theorem no_search_before_fss_contact:
  assumes "\<forall>x \<in> set h. snd x \<noteq> In_fss_comms False"
  shows "Call_search q \<notin> set (fmu_calls (FMUStateMachine_init n cap m) h)"
proof -
  have "grounded (fmu_after (FMUStateMachine_init n cap m) h) \<and>
      Call_search q \<notin> set (fmu_calls (FMUStateMachine_init n cap m) h)"
    using assms
  proof (induction h rule: rev_induct)
    case Nil
    then show ?case by (simp add: grounded_def FMUStateMachine_init_def)
  next
    case (snoc x xs)
    obtain env i where x: "x = (env, i)" by (cases x)
    let ?s = "fmu_after (FMUStateMachine_init n cap m) xs"
    have g: "grounded (fst (fmu_step env i ?s))" using snoc x by (auto intro: grounded_step)
    then have "Call_search q \<notin> set (snd (fmu_step env i ?s))"
      using grounded_action fmu_step_calls_eq [of env i ?s] by (auto simp: Let_def split: if_splits)
    then show ?case using snoc x g by (auto simp: fmu_calls_append)
  qed
  then show ?thesis ..
qed

theorem no_search_before_fss_contact_witness:
  "Call_search Point_default \<notin> set (fmu_calls (FMUStateMachine_init 4 122 5)
     [(answer_yes, In_fss fss_cmd_continue FSSCommandTarget_default), (answer_yes, In_smm smm_cmd_none)])"
  by (rule no_search_before_fss_contact) simp

section \<open>How a command resolves\<close>

lemma FSSNewCommand_resolution:
  "snd (FSSNewCommand env cmd tgt s) =
     (let t = fst (fst (FSSNewCommand env cmd tgt s))
      in \<lparr>outcome = (if current_state t = commandedState t then fss_command_actioned else fss_command_superseded),
          superseding_state = (if current_state t = commandedState t then None else Some (current_state t)),
          transitioned = current_state t \<noteq> current_state s\<rparr>)"
  by (simp add: FSSNewCommand_def Let_def case_prod_unfold fst_action_if_changed updateState_eq
      resolveFSSCommand_def commandedState_def)

lemma commandedState_eq_terminate: "commandedState s = fmu_state_terminate \<longleftrightarrow> fss_command s = fss_cmd_terminate"
  by (cases "fss_command s"; cases "smm_command s") (simp_all add: commandedState_def)

lemma commandedState_eq_rtl: "commandedState s = fmu_state_rtl \<longleftrightarrow> fss_command s = fss_cmd_rtl"
  by (cases "fss_command s"; cases "smm_command s") (simp_all add: commandedState_def)

lemma commandedState_not_latch: "commandedState s \<noteq> fmu_state_low_battery" "commandedState s \<noteq> fmu_state_failsafe"
  by (cases "fss_command s"; cases "smm_command s"; simp add: commandedState_def)+

text \<open>C10: the acknowledgement of a command is exact. In the state after the command, with the terminate latch set every command but terminate is reported as superseded; otherwise, with low battery, or the ground station or the autopilot lost, every command is, also an RTL, which those latches fly themselves; otherwise, with a sustained altitude breach, every command but RTL is; and nothing else is. A superseded answer names the state in control, an actioned one means that the machine is in the commanded state, and it tells whether the state changed.\<close>

theorem FSSNewCommand_resolution_exact:
  assumes "FSSNewCommand env cmd tgt s = ((t, calls), res)"
  shows "(outcome res = fss_command_superseded \<longleftrightarrow>
      (if terminated t then cmd \<noteq> fss_cmd_terminate
       else if low_battery t \<or> fss_comms_lost t \<or> mav_comms_lost t then True
       else altitude_breach t \<and> cmd \<noteq> fss_cmd_rtl)) \<and>
    superseding_state res = (if outcome res = fss_command_superseded then Some (current_state t) else None) \<and>
    (outcome res = fss_command_actioned \<longrightarrow> current_state t = commandedState t) \<and>
    (transitioned res \<longleftrightarrow> current_state t \<noteq> current_state s)"
proof -
  have t: "t = upd (s\<lparr>fss_command := cmd, fss_command_target := tgt\<rparr>)"
    using fmu_next_fss [of env cmd tgt s] assms by (simp add: fmu_step.simps)
  then have cur: "current_state t = arbitrate t" using current_upd by simp
  have cmd: "fss_command t = cmd" unfolding t by (simp add: upd_eq)
  have trm: "cmd = fss_cmd_terminate \<Longrightarrow> terminated t" unfolding t by (simp add: upd_eq)
  have "current_state t = commandedState t \<longleftrightarrow>
      \<not> (if terminated t then cmd \<noteq> fss_cmd_terminate
         else if low_battery t \<or> fss_comms_lost t \<or> mav_comms_lost t then True
         else altitude_breach t \<and> cmd \<noteq> fss_cmd_rtl)"
    using cur cmd trm commandedState_eq_terminate [of t] commandedState_eq_rtl [of t]
      commandedState_not_latch [of t]
    by (auto simp: arbitrate_def eq_commute [of _ "commandedState t"])
  then show ?thesis
    using FSSNewCommand_resolution [of env cmd tgt s] assms by (simp add: Let_def)
qed

theorem FSSNewCommand_resolution_exact_witness:
  "outcome (snd (FSSNewCommand answer_yes fss_cmd_rtl FSSCommandTarget_default
     (FMUStateMachine_init 4 122 5))) = fss_command_superseded"
proof -
  let ?r = "FSSNewCommand answer_yes fss_cmd_rtl FSSCommandTarget_default (FMUStateMachine_init 4 122 5)"
  have "?r = ((fst (fst ?r), snd (fst ?r)), snd ?r)" by simp
  note FSSNewCommand_resolution_exact [OF this]
  moreover have "fst (fst ?r) = upd (FMUStateMachine_init 4 122 5
      \<lparr>fss_command := fss_cmd_rtl, fss_command_target := FSSCommandTarget_default\<rparr>)"
    using fmu_next_fss [of answer_yes fss_cmd_rtl] by (simp add: fmu_step.simps)
  ultimately show ?thesis by (simp add: upd_eq FMUStateMachine_init_def)
qed

end
