(* ===== verification/Mav_Trace.thy ===== *)
theory Mav_Trace
  imports Mav_Upload State_Machine
begin

text \<open>
  Runs of the autopilot connection: the calls of the state machine, of the search worker and
  of the dispatcher, interleaved with what the connection's own threads do; and the discipline
  that all of its code obeys on the trace. The discipline is proved once, for every set of
  allowed outputs that contains the ones without effect on link and altitude; the supervision
  of the link and the altitude envelope are two instances of it.
\<close>

section \<open>The calls of the state machine\<close>

text \<open>\<open>None\<close> is an undefined conversion.\<close>

fun MAV_perform :: "mav_os \<Rightarrow> fmu_call \<Rightarrow> MAV \<Rightarrow> MAV option" where
  "MAV_perform env (Call_setMode fm) m = Some (fst (MAV_setMode env fm m))"
| "MAV_perform env Call_disarm m = Some (fst (MAV_disarm env m))"
| "MAV_perform env Call_terminate m = Some (fst (MAV_terminate env m))"
| "MAV_perform env (Call_gotoPosition p) m = Some (MAV_gotoPosition p m)"
| "MAV_perform env (Call_setAltitude alt) m = map_option fst (MAV_setAltitude env alt m)"
| "MAV_perform env _ m = Some m"

datatype session_input =
    S_link link_input
  | S_call mav_os fmu_call
  | S_load mav_os nat
  | S_adsb mav_os PositionData

fun session_step :: "session_input \<Rightarrow> MAV \<Rightarrow> MAV option" where
  "session_step (S_link i) m = map_option (\<lambda>c. m\<lparr>mv_connection := c\<rparr>) (link_step i (mv_connection m))"
| "session_step (S_call env call) m = MAV_perform env call m"
| "session_step (S_load env i) m = Some (MAV_loadSearch env (Some i) m)"
| "session_step (S_adsb env pd) m = MAV_sendADSB env pd m"

fun session_run :: "session_input list \<Rightarrow> MAV \<Rightarrow> MAV option" where
  "session_run [] m = Some m"
| "session_run (i # is) m = (case session_step i m of None \<Rightarrow> None | Some m1 \<Rightarrow> session_run is m1)"

section \<open>Outputs\<close>

text \<open>The altitude that a message commands.\<close>

fun altitude_param :: "cmd_param list \<Rightarrow> int option" where
  "altitude_param (P_num a # _) = Some a"
| "altitude_param _ = None"

definition altitude_of :: "mav_msg \<Rightarrow> int option" where
  "altitude_of msg =
     (case msg of
        Msg_command_long s t cmd ps \<Rightarrow> if cmd = MAV_CMD_DO_CHANGE_ALTITUDE then altitude_param ps else None
      | Msg_mission_item s t it \<Rightarrow>
          if it_command it = MAV_CMD_NAV_RETURN_TO_LAUNCH then None else Some (uint (it_z it))
      | _ \<Rightarrow> None)"

lemma altitude_of_simps [simp]:
  "altitude_of Msg_heartbeat = None"
  "altitude_of (Msg_set_mode s f) = None"
  "altitude_of (Msg_command_long s t cmd ps) = (if cmd = MAV_CMD_DO_CHANGE_ALTITUDE then altitude_param ps else None)"
  "altitude_of (Msg_mission_count s t n) = None"
  "altitude_of (Msg_mission_item s t it) =
     (if it_command it = MAV_CMD_NAV_RETURN_TO_LAUNCH then None else Some (uint (it_z it)))"
  "altitude_of (Msg_mission_set_current s t n) = None"
  "altitude_of (Msg_param_request_read s t p) = None"
  "altitude_of (Msg_adsb_vehicle v) = None"
  by (simp_all add: altitude_of_def)

fun steady :: "mav_out \<Rightarrow> bool" where
  "steady (Cb_comms _) = False"
| "steady (Sock_dial _) = False"
| "steady (Sent msg) = (altitude_of msg = None)"
| "steady (Send_failed msg) = (altitude_of msg = None)"
| "steady _ = True"

text \<open>What a piece of code leaves alone: the fields of the supervision, and the parameters.\<close>

definition keeps :: "(mav_out \<Rightarrow> bool) \<Rightarrow> mav_connection \<Rightarrow> mav_connection \<Rightarrow> bool" where
  "keeps P c c' \<longleftrightarrow> does P c c' \<and> mc_comms_ok c' = mc_comms_ok c \<and> mc_comms_cb c' = mc_comms_cb c \<and>
     mc_last_tried c' = mc_last_tried c \<and> mc_params c' = mc_params c"

lemma keeps_refl [simp]: "keeps P c c"
  by (simp add: keeps_def does_refl)

lemma keeps_trans: "keeps P c c' \<Longrightarrow> keeps P c' c'' \<Longrightarrow> keeps P c c''"
  by (auto simp: keeps_def intro: does_trans)

lemma keeps_params: "keeps P c c' \<Longrightarrow> mc_params c' = mc_params c"
  by (simp add: keeps_def)

lemma keeps_same:
  "keeps P c c' \<Longrightarrow> mc_out c'' = mc_out c' \<Longrightarrow> mc_comms_ok c'' = mc_comms_ok c' \<Longrightarrow>
   mc_comms_cb c'' = mc_comms_cb c' \<Longrightarrow> mc_last_tried c'' = mc_last_tried c' \<Longrightarrow>
   mc_params c'' = mc_params c' \<Longrightarrow> keeps P c c''"
  by (auto simp: keeps_def intro: does_out)

lemma keeps_output: "keeps P c c' \<Longrightarrow> P x \<Longrightarrow> keeps P c (emit x c')"
  by (auto simp: keeps_def emit_def intro: does_emit [unfolded emit_def])

definition permits :: "(mav_out \<Rightarrow> bool) \<Rightarrow> mav_msg \<Rightarrow> bool" where
  "permits P msg \<longleftrightarrow> P (Sent msg) \<and> P (Send_failed msg)"

section \<open>The discipline\<close>

locale trace_discipline =
  fixes allowed :: "mav_out \<Rightarrow> bool"
  assumes steady_allowed: "steady x \<Longrightarrow> allowed x"
begin

lemma keeps_emit: "keeps allowed c c' \<Longrightarrow> steady x \<Longrightarrow> keeps allowed c (emit x c')"
  by (rule keeps_output) (simp_all add: steady_allowed)

lemma keeps_log: "keeps allowed c c' \<Longrightarrow> keeps allowed c (log_line l c')"
  by (simp add: log_line_def keeps_emit)

lemma keeps_permitted:
  assumes "keeps allowed c c'" and "permits allowed msg"
  shows "keeps allowed c (fst (sendMavLinkMsgLocked env msg c'))"
proof -
  have "mc_params (fst (sendMavLinkMsgLocked env msg c')) = mc_params c'"
    by (simp add: sendMavLinkMsgLocked_def log_line_def emit_def)
  then show ?thesis
    using assms steady_allowed [of "Mav_log Log_send_failed"] by (auto simp: keeps_def permits_def intro: does_send)
qed

lemma keeps_send:
  "keeps allowed c c' \<Longrightarrow> altitude_of msg = None \<Longrightarrow> keeps allowed c (fst (sendMavLinkMsgLocked env msg c'))"
  by (rule keeps_permitted) (simp_all add: permits_def steady_allowed)

lemma keeps_invalidate: "keeps allowed c d \<Longrightarrow> keeps allowed c (fst (invalidateInFlightUploadLocked d))"
  by (erule keeps_same) (simp_all add: invalidateInFlightUploadLocked_def)

lemma keeps_mode_region: "keeps allowed c d \<Longrightarrow> keeps allowed c (fst (mode_region p clr d))"
  by (erule keeps_same) (simp_all add: mode_region_def invalidateInFlightUploadLocked_def Let_def)

lemma keeps_updates:
  "keeps allowed c d \<Longrightarrow> keeps allowed c (d\<lparr>mc_systems := ss\<rparr>)"
  "keeps allowed c d \<Longrightarrow> keeps allowed c (goto_open_region p d)"
  "keeps allowed c d \<Longrightarrow> keeps allowed c (goto_pending_region d)"
  "keeps allowed c d \<Longrightarrow> keeps allowed c (fst (load_region t d))"
  "keeps allowed c d \<Longrightarrow> keeps allowed c (replay_region cmd d)"
  "keeps allowed c d \<Longrightarrow> keeps allowed c (fst (ack_region env acc d))"
  "keeps allowed c d \<Longrightarrow> keeps allowed c (d\<lparr>mc_last_position := pos\<rparr>)"
  "keeps allowed c d \<Longrightarrow> keeps allowed c (d\<lparr>mc_gps_fix_type := g\<rparr>)"
  "keeps allowed c d \<Longrightarrow> keeps allowed c (d\<lparr>mc_last_time_boot_ms := t'\<rparr>)"
  "keeps allowed c d \<Longrightarrow> keeps allowed c (d\<lparr>mc_broken := b\<rparr>)"
  by (erule keeps_same; simp add: region_defs Let_def)+

lemma keeps_upload_region: "keeps allowed c d \<Longrightarrow> keeps allowed c (upload_region i n d)"
proof -
  assume "keeps allowed c d"
  then have "keeps allowed c (d\<lparr>mc_goto_active := False, mc_goto_ack_pending := False, mc_search_loaded := False,
      mc_search := Some i, mc_search_loading := True\<rparr>)" by (rule keeps_same) simp_all
  then show ?thesis by (simp add: upload_region_def Let_def keeps_log)
qed

lemma keeps_setResolvedMode:
  assumes "keeps allowed c d"
  shows "keeps allowed c (fst (setResolvedMode env command clr cause d))"
proof -
  have deferred: "keeps allowed c e" if "mode_region (Some command) clr d = (e, b)" for e b
    using keeps_mode_region [OF assms, of "Some command" clr] that by simp
  have at_once: "keeps allowed c e" if "setFlightMode env f d = (d', sent)" and "mode_region None clr d' = (e, b)" for f d' sent e b
    using keeps_mode_region [of c d' None clr] keeps_send [OF assms, of "Msg_set_mode TARGET_SYS_ID f" env] that
    by (simp add: setFlightMode_def)
  show ?thesis
    by (auto simp: setResolvedMode_def logUploadDropped_def logUploadInvalidated_def logUploadSuperseded_def
        warnUnresolvedMode_def Let_def split: option.splits prod.splits intro!: keeps_log intro: deferred at_once)
qed

lemma keeps_takeover_command:
  assumes "keeps allowed c d" and "cmd \<noteq> MAV_CMD_DO_CHANGE_ALTITUDE"
  shows "keeps allowed c (fst (takeover_command env cmd ps nm d))"
proof -
  have "keeps allowed c e" if "command_long env cmd ps d = (d', sent)" and "invalidateInFlightUploadLocked d' = (e, b)" for d' sent e b
    using keeps_invalidate [of c d'] keeps_send [OF assms(1), of "Msg_command_long TARGET_SYS_ID TARGET_COMP_ID cmd ps" env] assms(2) that
    by (simp add: command_long_def)
  then show ?thesis
    by (auto simp: takeover_command_def logUploadInvalidated_def split: prod.splits intro!: keeps_log)
qed

lemmas keeps_commands =
  keeps_setResolvedMode [of _ _ _ mode_rtl True cause_takeover, folded commandRTL_def]
  keeps_setResolvedMode [of _ _ _ mode_manual True cause_takeover, folded commandManual_def]
  keeps_setResolvedMode [of _ _ _ mode_hold True cause_takeover, folded commandHold_def]
  keeps_setResolvedMode [of _ _ _ mode_rtl True cause_supersede, folded commandRTLForUpload_def]
  keeps_setResolvedMode [of _ _ _ mode_auto False cause_takeover, folded commandAuto_def]

lemma keeps_commandAuto: "keeps allowed c d \<Longrightarrow> keeps allowed c (commandAuto env d)"
  by (simp add: commandAuto_def keeps_setResolvedMode)

lemma keeps_send_count: "keeps allowed c d \<Longrightarrow> keeps allowed c (fst (send_count env n d))"
  by (simp add: send_count_def keeps_send)

lemma keeps_commandGoto: "keeps allowed c d \<Longrightarrow> keeps allowed c (fst (commandGoto env p d))"
proof -
  assume "keeps allowed c d"
  then have "keeps allowed c (goto_open_region p (fst (commandRTLForUpload env d)))"
    by (intro keeps_updates) (simp add: commandRTLForUpload_def keeps_setResolvedMode)
  from keeps_send_count [OF this] show ?thesis
    by (auto simp: commandGoto_def split_beta intro!: keeps_log keeps_updates)
qed

lemma keeps_uploadSearch: "keeps allowed c d \<Longrightarrow> keeps allowed c (fst (uploadSearch env i d))"
proof -
  assume "keeps allowed c d"
  then have "keeps allowed c (upload_region i n (fst (commandRTLForUpload env d)))" for n
    by (intro keeps_upload_region) (simp add: commandRTLForUpload_def keeps_setResolvedMode)
  from keeps_send_count [OF this] show ?thesis
    by (auto simp: uploadSearch_def Let_def split_beta intro!: keeps_log)
qed

lemma keeps_loadSearch: "keeps allowed c d \<Longrightarrow> keeps allowed c (loadSearch env t d)"
  using keeps_updates(4) [of c d t]
  by (auto simp: loadSearch_def split_beta split: option.splits intro!: keeps_uploadSearch)

lemma keeps_mission_ack: "keeps allowed c d \<Longrightarrow> keeps allowed c (mission_ack env accepted d)"
proof -
  assume d: "keeps allowed c d"
  have "keeps allowed c e" if "ack_region env accepted d = (e, r)" for e r
    using keeps_updates(6) [OF d, of env accepted] that by simp
  then show ?thesis
    by (auto simp: mission_ack_def setCurrentWP_def Let_def split: prod.splits
        intro!: keeps_commandAuto keeps_log keeps_send)
qed

lemma keeps_fold_send:
  "keeps allowed c d \<Longrightarrow> (\<And>x. altitude_of (f x) = None) \<Longrightarrow>
   keeps allowed c (fold (\<lambda>x c. fst (sendMavLinkMsgLocked env (f x) c)) xs d)"
  by (induction xs arbitrary: d) (auto intro: keeps_send)

lemma keeps_register_sender: "keeps allowed c d \<Longrightarrow> keeps allowed c (register_sender env sysid compid d)"
  by (auto simp: register_sender_def setup_system_def Let_def requestStream_def split: option.splits
      intro!: keeps_updates keeps_send)

lemma keeps_on_heartbeat: "keeps allowed c d \<Longrightarrow> keeps allowed c (on_heartbeat env sysid t m d)"
proof -
  assume "keeps allowed c d"
  then have "keeps allowed c (d\<lparr>mc_systems := ss, mc_last_heartbeat_ts := ts\<rparr>)" for ss ts by (rule keeps_same) simp_all
  then have "keeps allowed c (replayPendingMode env t (d\<lparr>mc_systems := ss, mc_last_heartbeat_ts := ts\<rparr>))" for ss ts
    by (auto simp: replayPendingMode_def setFlightMode_def split: option.splits intro!: keeps_updates keeps_send)
  then show ?thesis
    by (auto simp: on_heartbeat_def checkFailsafeConfig_def Let_def split: option.splits
        intro!: keeps_updates keeps_fold_send)
qed

lemma keeps_noteTimeBootMs: "keeps allowed c d \<Longrightarrow> keeps allowed c (noteTimeBootMs t d)"
proof -
  assume d: "keeps allowed c d"
  have "keeps allowed c e" if "invalidateInFlightUploadLocked ((log_line Log_restart_detected d)\<lparr>mc_systems := ss\<rparr>) = (e, b)"
    for ss e b
    using keeps_invalidate [OF keeps_updates(1) [OF keeps_log [OF d]], of ss Log_restart_detected] that by simp
  then have "keeps allowed c (handleAutopilotRestart d)"
    by (auto simp: handleAutopilotRestart_def Let_def logUploadInvalidated_def split: prod.splits
        intro!: keeps_emit keeps_log)
  with d show ?thesis by (auto simp: noteTimeBootMs_def Let_def intro!: keeps_updates)
qed

lemma keeps_handlers:
  "on_position env gp d = Some d' \<Longrightarrow> keeps allowed d d'"
  "checkFailsafeParamReply env nm val d = Some d' \<Longrightarrow> keeps allowed d d'"
  "keeps allowed d (report_battery_status remaining consumed voltage d)"
  "keeps allowed d (report_reached sq d)"
  by (auto simp: on_position_def report_position_def checkFailsafeParamReply_def
      report_battery_status_def report_reached_def Let_def split: option.splits if_splits
      intro!: keeps_emit keeps_updates(7) keeps_noteTimeBootMs keeps_log)

lemma keeps_send_waypoint:
  assumes "send_waypoint env sq mt d = Some d'"
    and "\<And>it. waypoint_item env sq mt d = Some it \<Longrightarrow>
      permits allowed (Msg_mission_item MISSION_TARGET_SYS_ID TARGET_COMP_ID it)"
  shows "keeps allowed d d'"
  using assms by (auto simp: send_waypoint_def split: if_splits intro: keeps_permitted)

lemma keeps_processMavLinkMsg:
  assumes "processMavLinkMsg env msg c = Some c'"
    and items: "\<And>sq mt d it. mc_params d = mc_params c \<Longrightarrow> waypoint_item env sq mt d = Some it \<Longrightarrow>
      permits allowed (Msg_mission_item MISSION_TARGET_SYS_ID TARGET_COMP_ID it)"
  shows "keeps allowed c c'"
proof -
  define d where "d = register_sender env (in_sysid msg) (in_compid msg) c"
  have d: "keeps allowed c d" by (simp add: d_def keeps_register_sender)
  have "handle_payload env (in_sysid msg) (in_payload msg) d = Some c'"
    using assms(1) by (simp add: processMavLinkMsg_def d_def)
  then have "keeps allowed d c'"
    by (cases "in_payload msg")
       (auto simp: handle_payload_def Let_def split: if_splits dest: keeps_handlers(1,2)
         intro!: keeps_on_heartbeat keeps_mission_ack keeps_noteTimeBootMs keeps_handlers(3,4) keeps_log keeps_updates(8)
         elim!: keeps_send_waypoint items [OF keeps_params [OF d]])
  with d show ?thesis by (blast intro: keeps_trans)
qed

lemma keeps_commandAltitude:
  assumes "commandAltitude env alt c = Some (c', sent)"
    and "\<And>a ps. clamp_command_altitude alt (mp_altitude_floor_m (mc_params c)) (mp_altitude_cap_m (mc_params c)) = Some a \<Longrightarrow>
      permits allowed (Msg_command_long TARGET_SYS_ID TARGET_COMP_ID MAV_CMD_DO_CHANGE_ALTITUDE (P_num (uint a) # ps))"
  shows "keeps allowed c c'"
proof -
  obtain a ps where a: "clamp_command_altitude alt (mp_altitude_floor_m (mc_params c)) (mp_altitude_cap_m (mc_params c)) = Some a"
    "(c', sent) = sendMavLinkMsgLocked env
       (Msg_command_long TARGET_SYS_ID TARGET_COMP_ID MAV_CMD_DO_CHANGE_ALTITUDE (P_num (uint a) # ps)) c"
    using assms(1) by (simp add: commandAltitude_def command_long_def eq_commute [of "(c', sent)"] split: option.splits)
  from keeps_permitted [OF keeps_refl assms(2) [OF a(1)]] a(2) show ?thesis by (metis fst_conv)
qed

lemma keeps_MAV_perform:
  assumes "MAV_perform env call m = Some m'"
    and alts: "\<And>alt a ps. clamp_command_altitude alt (mp_altitude_floor_m (mc_params (mv_connection m)))
        (mp_altitude_cap_m (mc_params (mv_connection m))) = Some a \<Longrightarrow>
      permits allowed (Msg_command_long TARGET_SYS_ID TARGET_COMP_ID MAV_CMD_DO_CHANGE_ALTITUDE (P_num (uint a) # ps))"
  shows "keeps allowed (mv_connection m) (mv_connection m')"
proof -
  have on: "mv_connection (fst (on_connection f n)) = fst (f (mv_connection n))" for f n
    by (simp add: on_connection_def split: prod.splits)
  note modes = keeps_commands [OF keeps_refl] keeps_commandGoto [OF keeps_refl]
    keeps_commands(1) [OF keeps_log [OF keeps_refl]] keeps_takeover_command [OF keeps_refl]
  show ?thesis
  proof (cases call)
    case (Call_setMode fm)
    then show ?thesis using assms by (cases fm) (auto simp: MAV_setMode_def on intro: modes)
  next
    case Call_disarm
    then show ?thesis using assms by (auto simp: MAV_disarm_def on commandDisARM_def intro: modes)
  next
    case Call_terminate
    then show ?thesis
      using assms
      by (cases "mv_action m") (auto simp: MAV_terminate_def on commandTerminate_def commandForceDisARM_def intro: modes)
  next
    case (Call_setAltitude alt)
    obtain sent where "commandAltitude env alt (mv_connection m) = Some (mv_connection m', sent)"
      using assms(1) Call_setAltitude by (auto simp: MAV_setAltitude_def)
    then show ?thesis by (rule keeps_commandAltitude) (rule alts)
  qed (use assms in \<open>auto simp: MAV_gotoPosition_def\<close>)
qed

lemma keeps_sendADSB: "sendADSB env pd cs tslc c = Some c' \<Longrightarrow> keeps allowed c c'"
  by (auto simp: sendADSB_def split: option.splits intro: keeps_send)

lemma keeps_disconnect: "keeps allowed c (disconnect_from_mav c)"
proof -
  have r: "keeps allowed c (e\<lparr>mc_broken := b, mc_recv_thread := r\<rparr>)" "keeps allowed c (e\<lparr>mc_fd := fd\<rparr>)" if "keeps allowed c e" for e b r fd
    using that by (auto elim!: keeps_same)
  show ?thesis
    by (auto simp: disconnect_from_mav_def Let_def split: option.splits intro!: keeps_updates keeps_emit r)
qed


end

end
