(* ===== verification/Mav_Supervision.thy ===== *)
theory Mav_Supervision
  imports Mav_Trace
begin

text \<open>
  Correctness of the supervision of the link to the autopilot (\<open>src/mav/mavlink.cpp\<close>,
  \<open>src/mav/mav-comms.hpp\<close>): the reports of the link's edges and the pace of the reconnector.
\<close>

section \<open>What leaves the supervision alone\<close>

fun link_neutral :: "mav_out \<Rightarrow> bool" where
  "link_neutral (Cb_comms _) = False" | "link_neutral (Sock_dial _) = False" | "link_neutral _ = True"

interpretation link: trace_discipline link_neutral
proof
  show "steady x \<Longrightarrow> link_neutral x" for x by (cases x) simp_all
qed

lemma neutral_message [simp]: "permits link_neutral msg"
  by (simp add: permits_def)

section \<open>The reports of the link alternate\<close>

fun comms_reports :: "mav_out list \<Rightarrow> MavCommsStatus list" where
  "comms_reports [] = []"
| "comms_reports (Cb_comms st # outs) = st # comms_reports outs"
| "comms_reports (_ # outs) = comms_reports outs"

lemma comms_reports_append [simp]: "comms_reports (xs @ ys) = comms_reports xs @ comms_reports ys"
  by (induction xs rule: comms_reports.induct) auto

lemma comms_reports_neutral: "list_all link_neutral outs \<Longrightarrow> comms_reports outs = []"
  by (induction outs rule: comms_reports.induct) auto

definition alternating :: "nat \<Rightarrow> MavCommsStatus list" where
  "alternating n = map (\<lambda>i. if even i then mav_comms_status_failure else mav_comms_status_ok) [0..<n]"

definition reports_inv :: "mav_connection \<Rightarrow> bool" where
  "reports_inv c \<longleftrightarrow> mc_comms_cb c \<and> comms_reports (mc_out c) = alternating (length (comms_reports (mc_out c))) \<and>
     (mc_comms_ok c \<longleftrightarrow> even (length (comms_reports (mc_out c))))"

lemma keeps_comms_reports: "keeps link_neutral c c' \<Longrightarrow> comms_reports (mc_out c') = comms_reports (mc_out c)"
  by (auto simp: keeps_def does_def list_all_iff [symmetric] comms_reports_neutral)

lemma reports_inv_keeps: "keeps link_neutral c c' \<Longrightarrow> reports_inv c \<Longrightarrow> reports_inv c'"
  using keeps_comms_reports [of c c'] by (simp add: reports_inv_def keeps_def)

lemma report_link_edge_reports:
  assumes "mc_comms_cb c"
  shows "comms_reports (mc_out (report_link_edge fd_open up c)) =
         comms_reports (mc_out c) @ [if up then mav_comms_status_ok else mav_comms_status_failure]"
    and "mc_comms_ok (report_link_edge fd_open up c) = up" and "mc_comms_cb (report_link_edge fd_open up c)"
  using assms by (auto simp: report_link_edge_def Let_def log_line_def emit_def)

lemma reports_inv_edge: "reports_inv c \<Longrightarrow> up \<noteq> mc_comms_ok c \<Longrightarrow> reports_inv (report_link_edge fd_open up c)"
  using report_link_edge_reports [of c fd_open up] by (auto simp: reports_inv_def alternating_def)

lemma reports_inv_heartbeat:
  assumes "reports_inv c"
  shows "reports_inv (heartbeat_pass env c)"
proof -
  have "reports_inv (if mc_fd c \<noteq> None then sendHeartBeat env c else c)"
    using assms reports_inv_keeps [OF link.keeps_permitted [OF keeps_refl neutral_message]] by (simp add: sendHeartBeat_def)
  moreover have retire: "reports_inv (d\<lparr>mc_broken := b\<rparr>)" "reports_inv (log_line l (d\<lparr>mc_broken := b\<rparr>))"
    if "reports_inv d" for d b l
    using that reports_inv_keeps [OF link.keeps_updates(10) [OF keeps_refl]]
      reports_inv_keeps [OF link.keeps_log [OF link.keeps_updates(10) [OF keeps_refl]]] by blast+
  ultimately show ?thesis
    unfolding heartbeat_pass_def Let_def by (auto intro!: reports_inv_edge retire)
qed

definition dialled :: "mav_os \<Rightarrow> mav_connection \<Rightarrow> mav_connection \<Rightarrow> bool" where
  "dialled env c c' \<longleftrightarrow>
     (\<exists>d. keeps link_neutral c d \<and> does (\<lambda>x. link_neutral x) (emit (Sock_dial (me_dial_ts env)) d) c' \<and>
          mc_comms_ok c' = mc_comms_ok c \<and> mc_comms_cb c' = mc_comms_cb c \<and> mc_last_tried c' = me_dial_ts env)"

lemma connect_to_mav_dialled: "dialled env c (connect_to_mav env c)"
proof -
  let ?c1 = "emit (Sock_dial (me_dial_ts env)) (c\<lparr>mc_last_tried := me_dial_ts env\<rparr>)"
  have d: "keeps link_neutral f e \<Longrightarrow> keeps link_neutral f (snd (dial_endpoints es e))" for es e f
    by (induction es e rule: dial_endpoints.induct) (simp_all add: link.keeps_log)
  obtain r c2 where r: "dial_endpoints (me_endpoints env) ?c1 = (r, c2)" by fastforce
  have c2: "keeps link_neutral ?c1 c2" using d [of ?c1 ?c1 "me_endpoints env"] r by simp
  then have "keeps link_neutral ?c1 (c2\<lparr>mc_retry_count := n, mc_broken := b, mc_connected_since_ts := t, mc_fd := fd,
      mc_recv_thread := x\<rparr>)" for n b t fd x
    by (rule keeps_same) simp_all
  with c2 have "keeps link_neutral ?c1 (connect_to_mav env c)"
    by (cases r) (auto simp: connect_to_mav_def Let_def r intro: link.keeps_log)
  then show ?thesis
    unfolding dialled_def by (intro exI [of _ c]) (simp add: keeps_def does_def emit_def)
qed

lemma dialled_keeps:
  assumes "keeps link_neutral c c1" and "dialled env c1 c'"
  shows "dialled env c c'"
proof -
  obtain d where d: "keeps link_neutral c1 d" "does (\<lambda>x. link_neutral x) (emit (Sock_dial (me_dial_ts env)) d) c'"
    "mc_comms_ok c' = mc_comms_ok c1" "mc_comms_cb c' = mc_comms_cb c1" "mc_last_tried c' = me_dial_ts env"
    using assms(2) unfolding dialled_def by blast
  moreover have "mc_comms_ok c1 = mc_comms_ok c" "mc_comms_cb c1 = mc_comms_cb c"
    using assms(1) by (simp_all add: keeps_def)
  ultimately show ?thesis unfolding dialled_def using keeps_trans [OF assms(1)] by metis
qed

text \<open>The reconnector: nothing, or a dial when its backoff has run out.\<close>

lemma attemptReconnect_cases:
  "keeps link_neutral c (attemptReconnect env c) \<or>
   dialled env c (attemptReconnect env c) \<and> (\<exists>n. reconnect_due n (me_now env - mc_last_tried c))"
proof -
  define c1 where "c1 = (if mc_broken c then (disconnect_from_mav c)\<lparr>mc_broken := False\<rparr> else c)"
  have c1: "keeps link_neutral c c1" by (auto simp: c1_def intro!: link.keeps_updates link.keeps_disconnect)
  have again: "dialled env c (connect_to_mav env (c1\<lparr>mc_retry_count := n\<rparr>))" for n
  proof -
    have "keeps link_neutral c (c1\<lparr>mc_retry_count := n\<rparr>)" using c1 by (rule keeps_same) simp_all
    then show ?thesis using connect_to_mav_dialled by (rule dialled_keeps)
  qed
  have "mc_last_tried c1 = mc_last_tried c" using c1 by (simp add: keeps_def)
  then show ?thesis
    using c1 again unfolding attemptReconnect_def Let_def c1_def [symmetric] by auto
qed

lemma reports_inv_dialled:
  assumes "dialled env c c'" and "reports_inv c"
  shows "reports_inv c'"
proof -
  obtain d where d: "keeps link_neutral c d" "does (\<lambda>x. link_neutral x) (emit (Sock_dial (me_dial_ts env)) d) c'"
    "mc_comms_ok c' = mc_comms_ok c" "mc_comms_cb c' = mc_comms_cb c"
    using assms(1) unfolding dialled_def by blast
  have "comms_reports (mc_out c') = comms_reports (mc_out d)"
    using d(2) by (auto simp: does_def emit_def list_all_iff [symmetric] comms_reports_neutral)
  then show ?thesis using d keeps_comms_reports [OF d(1)] assms(2) by (simp add: reports_inv_def)
qed

lemma reports_inv_reconnect: "reports_inv c \<Longrightarrow> reports_inv (attemptReconnect env c)"
  using attemptReconnect_cases [of c env] reports_inv_dialled reports_inv_keeps by blast

lemma reports_inv_step:
  assumes "session_step i m = Some m'" and "reports_inv (mv_connection m)"
  shows "reports_inv (mv_connection m')"
proof (cases i)
  case (S_link l)
  then show ?thesis
    using assms reports_inv_reconnect
    by (cases l) (auto intro: reports_inv_keeps [OF link.keeps_processMavLinkMsg [OF _ neutral_message]] reports_inv_heartbeat)
next
  case (S_call env call)
  then show ?thesis using assms by (auto intro: reports_inv_keeps link.keeps_MAV_perform [OF _ neutral_message])
next
  case (S_load env t)
  then show ?thesis using assms by (auto simp: MAV_loadSearch_def intro: reports_inv_keeps [OF link.keeps_loadSearch [OF keeps_refl]])
next
  case (S_adsb env pd)
  then show ?thesis using assms by (auto simp: MAV_sendADSB_def Let_def dest!: link.keeps_sendADSB intro: reports_inv_keeps)
qed

lemma reports_inv_run: "session_run is m = Some m' \<Longrightarrow> reports_inv (mv_connection m) \<Longrightarrow> reports_inv (mv_connection m')"
  by (induction "is" arbitrary: m) (auto split: option.splits intro: reports_inv_step)

definition MAV_listening :: "mavlink_consts \<Rightarrow> MavParams \<Rightarrow> terminate_action \<Rightarrow> MAV" where
  "MAV_listening K params action =
     (let m = MAV_new K params action
      in m\<lparr>mv_connection := registerMavCommsStatusCB True (mv_connection m)\<rparr>)"

text \<open>C16: the status reports of the autopilot link strictly alternate and start with a failure: whatever is received, commanded, dialled or lost in between, the state machine is told of every edge once, and the connection's own record of the link is the last status reported.\<close>

theorem link_reports_alternate:
  assumes "session_run is (MAV_listening K params action) = Some m"
  shows "comms_reports (mc_out (mv_connection m)) = alternating (length (comms_reports (mc_out (mv_connection m)))) \<and>
         (mc_comms_ok (mv_connection m) \<longleftrightarrow> even (length (comms_reports (mc_out (mv_connection m)))))"
proof -
  have "reports_inv (mv_connection (MAV_listening K params action))"
    by (simp add: reports_inv_def MAV_listening_def MAV_new_def mav_connection_init_def registerMavCommsStatusCB_def
        alternating_def)
  from reports_inv_run [OF assms this] show ?thesis by (simp add: reports_inv_def)
qed

text \<open>A cold start, a dial, the first heartbeat and a silence.\<close>

definition sample_session :: "session_input list" where
  "sample_session =
     [S_link (Link_heartbeat (sample_mav_env 1000)), S_link (Link_reconnect (sample_mav_env 2000)),
      S_link (Link_recv (sample_mav_env 3000) (from_autopilot (In_heartbeat 1 0))),
      S_link (Link_heartbeat (sample_mav_env 3100)), S_call (sample_mav_env 3200) (Call_setMode flight_mode_hold),
      S_link (Link_heartbeat (sample_mav_env 9000))]"

lemma sample_session_runs:
  "map_option (\<lambda>m. comms_reports (mc_out (mv_connection m)))
     (session_run sample_session (MAV_listening sample_consts MavParams_default terminate_none)) =
   Some [mav_comms_status_failure, mav_comms_status_ok, mav_comms_status_failure]"
  by code_simp

theorem link_reports_alternate_witness:
  "\<exists>m. session_run sample_session (MAV_listening sample_consts MavParams_default terminate_none) = Some m \<and>
       comms_reports (mc_out (mv_connection m)) = alternating 3 \<and> \<not> mc_comms_ok (mv_connection m)"
proof -
  obtain m where m: "session_run sample_session (MAV_listening sample_consts MavParams_default terminate_none) = Some m"
    "length (comms_reports (mc_out (mv_connection m))) = 3"
    using sample_session_runs by auto
  from link_reports_alternate [OF m(1)] m show ?thesis by auto
qed

section \<open>The pace of the reconnector\<close>

fun dials :: "mav_out list \<Rightarrow> int list" where
  "dials [] = []"
| "dials (Sock_dial t # outs) = uint t # dials outs"
| "dials (_ # outs) = dials outs"

lemma dials_append [simp]: "dials (xs @ ys) = dials xs @ dials ys"
  by (induction xs rule: dials.induct) auto

lemma dials_neutral: "list_all link_neutral outs \<Longrightarrow> dials outs = []"
  by (induction outs rule: dials.induct) auto

lemma keeps_dials: "keeps link_neutral c c' \<Longrightarrow> dials (mc_out c') = dials (mc_out c)"
  by (auto simp: keeps_def does_def list_all_iff [symmetric] dials_neutral)

lemma dialled_dials: "dialled env c c' \<Longrightarrow> dials (mc_out c') = dials (mc_out c) @ [uint (me_dial_ts env)]"
proof -
  assume "dialled env c c'"
  then obtain d outs where "keeps link_neutral c d" "mc_out c' = mc_out d @ [Sock_dial (me_dial_ts env)] @ outs" "list_all link_neutral outs"
    by (auto simp: dialled_def does_def emit_def list_all_iff)
  then show ?thesis using keeps_dials [of c d] by (simp add: dials_neutral)
qed

lemma heartbeat_pass_quiet:
  "dials (mc_out (heartbeat_pass env c)) = dials (mc_out c)" "mc_last_tried (heartbeat_pass env c) = mc_last_tried c"
proof -
  have edge: "dials (mc_out (report_link_edge fd_open up d)) = dials (mc_out d)"
    "mc_last_tried (report_link_edge fd_open up d) = mc_last_tried d" for fd_open up d
    by (simp_all add: report_link_edge_def Let_def log_line_def emit_def)
  have beat: "dials (mc_out (sendHeartBeat env c)) = dials (mc_out c)" "mc_last_tried (sendHeartBeat env c) = mc_last_tried c"
    using keeps_dials [OF link.keeps_permitted [OF keeps_refl neutral_message]] by (simp_all add: sendHeartBeat_def)
  show "dials (mc_out (heartbeat_pass env c)) = dials (mc_out c)"
    by (simp add: heartbeat_pass_def Let_def edge beat log_line_def emit_def)
  show "mc_last_tried (heartbeat_pass env c) = mc_last_tried c"
    by (simp add: heartbeat_pass_def Let_def edge beat log_line_def emit_def)
qed

text \<open>The clock readings of an input, in the order in which they are taken.\<close>

fun clocks :: "session_input \<Rightarrow> int list" where
  "clocks (S_link (Link_reconnect env)) = [uint (me_now env), uint (me_dial_ts env)]"
| "clocks _ = []"

lemma session_step_dials:
  assumes "session_step i m = Some m'"
  shows "(dials (mc_out (mv_connection m')) = dials (mc_out (mv_connection m)) \<and>
          mc_last_tried (mv_connection m') = mc_last_tried (mv_connection m)) \<or>
         (\<exists>env. i = S_link (Link_reconnect env) \<and>
            dials (mc_out (mv_connection m')) = dials (mc_out (mv_connection m)) @ [uint (me_dial_ts env)] \<and>
            mc_last_tried (mv_connection m') = me_dial_ts env \<and>
            (\<exists>n. reconnect_due n (me_now env - mc_last_tried (mv_connection m))))"
proof -
  have k: ?thesis if "keeps link_neutral (mv_connection m) (mv_connection m')"
    using keeps_dials [OF that] that by (simp add: keeps_def)
  show ?thesis
  proof (cases i)
    case (S_link l)
    show ?thesis
    proof (cases l)
      case (Link_reconnect env)
      have m': "mv_connection m' = attemptReconnect env (mv_connection m)"
        using assms S_link Link_reconnect by auto
      have "mc_last_tried (mv_connection m') = me_dial_ts env" if "dialled env (mv_connection m) (mv_connection m')"
        using that by (auto simp: dialled_def)
      then show ?thesis
        using attemptReconnect_cases [of "mv_connection m" env] k dialled_dials S_link Link_reconnect
        unfolding m' [symmetric] by blast
    next
      case (Link_heartbeat env)
      then show ?thesis using assms S_link by (auto simp: heartbeat_pass_quiet)
    next
      case (Link_recv env msg)
      then have "keeps link_neutral (mv_connection m) (mv_connection m')"
        using assms S_link by (auto dest: link.keeps_processMavLinkMsg [OF _ neutral_message])
      then show ?thesis by (rule k)
    qed
  next
    case (S_call env call)
    then show ?thesis using assms by (intro k link.keeps_MAV_perform [OF _ neutral_message]) simp
  next
    case (S_load env t)
    then show ?thesis
      using assms by (intro k) (auto simp: MAV_loadSearch_def intro: link.keeps_loadSearch [OF keeps_refl])
  next
    case (S_adsb env pd)
    then show ?thesis using assms by (intro k) (auto simp: MAV_sendADSB_def Let_def dest!: link.keeps_sendADSB)
  qed
qed

definition MAV_start :: "mav_os \<Rightarrow> MAV \<Rightarrow> MAV" where
  "MAV_start env m = m\<lparr>mv_connection := mav_start env (mv_connection m)\<rparr>"

definition paced :: "mav_connection \<Rightarrow> bool" where
  "paced c \<longleftrightarrow> sorted_wrt (\<lambda>a b. a + 1000 < b) (dials (mc_out c)) \<and>
     list_all (\<lambda>d. d \<le> uint (mc_last_tried c)) (dials (mc_out c))"

lemma paced_step:
  assumes "paced (mv_connection m)" and "session_step i m = Some m'"
    and "sorted (uint (mc_last_tried (mv_connection m)) # clocks i)"
  shows "paced (mv_connection m') \<and>
         (mc_last_tried (mv_connection m') = mc_last_tried (mv_connection m) \<or>
          uint (mc_last_tried (mv_connection m')) \<in> set (clocks i))"
proof -
  consider "dials (mc_out (mv_connection m')) = dials (mc_out (mv_connection m))"
      "mc_last_tried (mv_connection m') = mc_last_tried (mv_connection m)"
    | env n where "i = S_link (Link_reconnect env)"
      "dials (mc_out (mv_connection m')) = dials (mc_out (mv_connection m)) @ [uint (me_dial_ts env)]"
      "mc_last_tried (mv_connection m') = me_dial_ts env"
      "reconnect_due n (me_now env - mc_last_tried (mv_connection m))"
    using session_step_dials [OF assms(2)] by blast
  then show ?thesis
  proof cases
    case 1
    then show ?thesis using assms(1) by (simp add: paced_def)
  next
    case 2
    have "mc_last_tried (mv_connection m) \<le> me_now env" "uint (me_now env) \<le> uint (me_dial_ts env)"
      using assms(3) 2(1) by (auto simp: word_le_def)
    then have "uint (mc_last_tried (mv_connection m)) + 1000 < uint (me_dial_ts env)"
      using reconnect_due_elapsed [OF 2(4)] unfolding uint_nat by linarith
    then have far: "d + 1000 < uint (me_dial_ts env)" "d \<le> uint (me_dial_ts env)"
      if "d \<le> uint (mc_last_tried (mv_connection m))" for d
      using that by linarith+
    have "sorted_wrt (\<lambda>a b. a + 1000 < b) (dials (mc_out (mv_connection m)))"
      "\<And>d. d \<in> set (dials (mc_out (mv_connection m))) \<Longrightarrow> d \<le> uint (mc_last_tried (mv_connection m))"
      using assms(1) by (auto simp: paced_def list_all_iff)
    then show ?thesis
      unfolding paced_def 2(1-3) by (simp add: sorted_wrt_append list_all_iff far)
  qed
qed

lemma paced_run:
  assumes "paced (mv_connection m)" and "session_run is m = Some m'"
    and "sorted (uint (mc_last_tried (mv_connection m)) # concat (map clocks is))"
  shows "paced (mv_connection m')"
  using assms
proof (induction "is" arbitrary: m)
  case (Cons i "is")
  obtain m1 where m1: "session_step i m = Some m1" "session_run is m1 = Some m'"
    using Cons.prems(2) by (auto split: option.splits)
  have "sorted (uint (mc_last_tried (mv_connection m)) # clocks i)" using Cons.prems(3) by (auto simp: sorted_append)
  note step = paced_step [OF Cons.prems(1) m1(1) this]
  then have "sorted (uint (mc_last_tried (mv_connection m1)) # concat (map clocks is))"
    using Cons.prems(3) by (auto simp: sorted_append)
  with step show ?case using Cons.IH m1(2) by blast
qed simp

text \<open>C17: on a monotone clock the autopilot is never dialled twice within a second: from the start of the connection on, any two dials are more than a second apart, whatever fails, breaks or is torn down in between.\<close>

theorem dials_spaced:
  assumes "sorted (uint (me_dial_ts env0) # concat (map clocks is))"
    and "session_run is (MAV_start env0 (MAV_new K params action)) = Some m"
  shows "sorted_wrt (\<lambda>a b. a + 1000 < b) (dials (mc_out (mv_connection m)))"
proof -
  let ?c = "(mav_connection_init K params action)\<lparr>mc_started := True\<rparr>"
  have c: "mv_connection (MAV_start env0 (MAV_new K params action)) = connect_to_mav env0 ?c"
    by (simp add: MAV_start_def MAV_new_def mav_start_def) (simp add: mav_connection_init_def)
  have "mc_out ?c = []" by (simp add: mav_connection_init_def)
  then have "dials (mc_out (connect_to_mav env0 ?c)) = [uint (me_dial_ts env0)]"
    using dialled_dials [OF connect_to_mav_dialled, of env0 ?c] by simp
  moreover have "mc_last_tried (connect_to_mav env0 ?c) = me_dial_ts env0"
    using connect_to_mav_dialled [of env0 ?c] by (auto simp: dialled_def)
  ultimately have "paced (mv_connection (MAV_start env0 (MAV_new K params action)))"
    and "mc_last_tried (mv_connection (MAV_start env0 (MAV_new K params action))) = me_dial_ts env0"
    unfolding c by (simp_all add: paced_def)
  with paced_run [OF _ assms(2)] assms(1) show ?thesis by (simp add: paced_def)
qed

text \<open>A link that breaks: the retry is refused at first, then dials again.\<close>

definition refused_env :: "u64 \<Rightarrow> mav_os" where
  "refused_env ts = (sample_mav_env ts)\<lparr>me_endpoints := [None]\<rparr>"

theorem dials_spaced_witness:
  "\<exists>m. session_run (map (\<lambda>t. S_link (Link_reconnect (refused_env t))) [1500, 2500, 4000, 4800])
         (MAV_start (refused_env 1000) (MAV_new sample_consts MavParams_default terminate_none)) = Some m \<and>
       sorted_wrt (\<lambda>a b. a + 1000 < b) (dials (mc_out (mv_connection m))) \<and> length (dials (mc_out (mv_connection m))) = 3"
proof -
  let ?is = "map (\<lambda>t. S_link (Link_reconnect (refused_env t))) [1500, 2500, 4000, 4800]"
  let ?m0 = "MAV_start (refused_env 1000) (MAV_new sample_consts MavParams_default terminate_none)"
  have "map_option (\<lambda>m. length (dials (mc_out (mv_connection m)))) (session_run ?is ?m0) = Some 3"
    by code_simp
  then obtain m where m: "session_run ?is ?m0 = Some m" "length (dials (mc_out (mv_connection m))) = 3" by auto
  have "sorted (uint (me_dial_ts (refused_env 1000)) # concat (map clocks ?is))"
    by (simp add: refused_env_def sample_mav_env_def)
  from dials_spaced [OF this m(1)] m show ?thesis by blast
qed

text \<open>The counter behind the backoff is 16 bits wide: it starts over after 65536 failed dials.\<close>

lemma retry_count_wraps: "reconnect_backoff_ms (65535 + 1) = 1000"
  by (simp add: reconnect_backoff_ms_def)

end
