(* ===== verification/Fmu_Config.thy ===== *)
theory Fmu_Config
  imports Units
begin

text \<open>
  The asset's configuration, \<open>src/fmu-config.hpp\<close> and \<open>src/fmu-config.cpp\<close>: the
  record with its defaults, and the loader with every check, clamp, fallback and fatal error.
  The JSON library is an argument: the questions the loader asks of a value. Next to the
  configuration the loader collects the keys it has warned about. An exception is an
  \<open>Inl\<close>; so is a conversion that C++ leaves unspecified.
\<close>

section \<open>The configuration and its defaults\<close>

record FmuConfig =
  fc_altitude_cap_m :: u16
  fc_altitude_breach_latch_count :: int
  fc_altitude_floor_m :: u16
  fc_goto_altitude_m :: u16
  fc_camera_fov_deg :: dbl
  fc_lowbat_threshold :: int
  fc_low_battery_latch_count :: int
  fc_reconnect_interval_s :: int
  fc_position_stream_interval_ms :: int
  fc_battery_stream_interval_ms :: int
  fc_smm_position_report_interval_ms :: int
  fc_smm_connect_timeout_s :: int
  fc_smm_transfer_timeout_s :: int
  fc_mav_address :: string
  fc_mav_port :: int
  fc_mav_connect_timeout_s :: int
  fc_mav_send_timeout_s :: int
  fc_log_level :: LogLevel
  fc_log_dir :: string

definition FmuConfig_default :: FmuConfig where
  "FmuConfig_default =
     \<lparr>fc_altitude_cap_m = 122, fc_altitude_breach_latch_count = 5, fc_altitude_floor_m = 10,
      fc_goto_altitude_m = 50, fc_camera_fov_deg = Fin 90, fc_lowbat_threshold = 20,
      fc_low_battery_latch_count = 4, fc_reconnect_interval_s = 10, fc_position_stream_interval_ms = 200,
      fc_battery_stream_interval_ms = 1000, fc_smm_position_report_interval_ms = 1000,
      fc_smm_connect_timeout_s = 5, fc_smm_transfer_timeout_s = 10, fc_mav_address = ''127.0.0.1'',
      fc_mav_port = 5760, fc_mav_connect_timeout_s = 5, fc_mav_send_timeout_s = 2,
      fc_log_level = log_info, fc_log_dir = ''/var/log/cap-fmu''\<rparr>"

section \<open>The JSON library and the file\<close>

text \<open>
  \<open>Json::Value\<close>: \<open>js_get\<close> is the member of an object, \<open>js_root_get\<close> the
  member of the root (\<open>None\<close> when the root is not a container of members and the library
  throws), \<open>js_asInt\<close> the value as an \<open>int\<close> (\<open>None\<close> when it throws because the
  value does not fit).
\<close>

record 'j json_api =
  js_isObject :: "'j \<Rightarrow> bool"
  js_isNumeric :: "'j \<Rightarrow> bool"
  js_isIntegral :: "'j \<Rightarrow> bool"
  js_isString :: "'j \<Rightarrow> bool"
  js_isMember :: "'j \<Rightarrow> string \<Rightarrow> bool"
  js_get :: "'j \<Rightarrow> string \<Rightarrow> 'j"
  js_root_get :: "'j \<Rightarrow> string \<Rightarrow> 'j option"
  js_asDouble :: "'j \<Rightarrow> dbl"
  js_asInt :: "'j \<Rightarrow> int option"
  js_asString :: "'j \<Rightarrow> string"

datatype 'j config_file = File_unopenable | File_unparsable | File_json 'j

datatype config_error =
    Cfg_unable_to_open | Cfg_failed_to_parse | Cfg_json_exception
  | Cfg_unspecified_conversion
  | Cfg_mav_address_not_string | Cfg_mav_address_blank
  | Cfg_mav_port_not_integer | Cfg_mav_port_out_of_range int

type_synonym cfg_state = "FmuConfig \<times> string list"
type_synonym cfg_step = "cfg_state \<Rightarrow> config_error + cfg_state"

text \<open>Statements in sequence; an exception ends them.\<close>

fun run_steps :: "cfg_step list \<Rightarrow> cfg_step" where
  "run_steps [] st = Inr st"
| "run_steps (s # ss) st = (case s st of Inl e \<Rightarrow> Inl e | Inr st1 \<Rightarrow> run_steps ss st1)"

section \<open>Helpers of the loader\<close>

definition is_space :: "char \<Rightarrow> bool" where
  "is_space c \<longleftrightarrow> c = CHR 0x20 \<or> c = CHR 0x09 \<or> c = CHR 0x0A \<or> c = CHR 0x0B \<or> c = CHR 0x0C \<or> c = CHR 0x0D"

definition is_blank :: "string \<Rightarrow> bool" where
  "is_blank s = list_all is_space s"

definition config_feet_to_metres :: rat where
  "config_feet_to_metres = lit (3048 / 10000)"

text \<open>The altitude as stored, \<open>Some\<close> of the target and the keys warned about.\<close>

definition setAltitudeMetres :: "'j json_api \<Rightarrow> u16 \<Rightarrow> string \<Rightarrow> 'j \<Rightarrow> rat \<Rightarrow> (u16 \<times> string list) option" where
  "setAltitudeMetres J target key val to_metres =
     (if \<not> js_isNumeric J val then Some (target, [key])
      else let metres = dmul_lit (js_asDouble J val) to_metres
        in if dlt metres (Fin 0) \<or> dgt metres (Fin 65535) then Some (target, [key])
           else map_option (\<lambda>z. (word_of_int z, [])) (lround metres))"

definition loadAltitude :: "'j json_api \<Rightarrow> u16 \<Rightarrow> 'j \<Rightarrow> string \<Rightarrow> string \<Rightarrow> (u16 \<times> string list) option" where
  "loadAltitude J target fmu key_m key_ft =
     (let have_m = js_isMember J fmu key_m;
          have_ft = js_isMember J fmu key_ft;
          warned = (if have_m \<and> have_ft then [key_m] else [])
      in map_option (\<lambda>(v, ws). (v, warned @ ws))
           (if have_ft then setAltitudeMetres J target key_ft (js_get J fmu key_ft) config_feet_to_metres
            else if have_m then setAltitudeMetres J target key_m (js_get J fmu key_m) 1
            else Some (target, [])))"

definition setRangedInt :: "'j json_api \<Rightarrow> int \<Rightarrow> string \<Rightarrow> 'j \<Rightarrow> int \<Rightarrow> int \<Rightarrow> config_error + int \<times> string list" where
  "setRangedInt J target key val lo hi =
     (if \<not> js_isIntegral J val then Inr (target, [key])
      else case js_asInt J val of
        None \<Rightarrow> Inl Cfg_json_exception
      | Some v \<Rightarrow> if v < lo \<or> v > hi then Inr (target, [key]) else Inr (v, []))"

section \<open>The statements of the loader\<close>

definition load_altitude ::
  "'j json_api \<Rightarrow> 'j \<Rightarrow> string \<Rightarrow> string \<Rightarrow> (FmuConfig \<Rightarrow> u16) \<Rightarrow> (u16 \<Rightarrow> FmuConfig \<Rightarrow> FmuConfig) \<Rightarrow> cfg_step" where
  "load_altitude J fmu key_m key_ft get put = (\<lambda>(cfg, ws).
     case loadAltitude J (get cfg) fmu key_m key_ft of
       None \<Rightarrow> Inl Cfg_unspecified_conversion
     | Some (v, w) \<Rightarrow> Inr (put v cfg, ws @ w))"

definition clamp_floor :: cfg_step where
  "clamp_floor = (\<lambda>(cfg, ws).
     if fc_altitude_floor_m cfg > fc_altitude_cap_m cfg
     then Inr (cfg\<lparr>fc_altitude_floor_m := fc_altitude_cap_m cfg\<rparr>, ws @ [''altitude_floor'']) else Inr (cfg, ws))"

definition clamp_goto :: cfg_step where
  "clamp_goto = (\<lambda>(cfg, ws).
     if fc_goto_altitude_m cfg > fc_altitude_cap_m cfg
     then Inr (cfg\<lparr>fc_goto_altitude_m := fc_altitude_cap_m cfg\<rparr>, ws @ [''goto_altitude''])
     else if fc_goto_altitude_m cfg < fc_altitude_floor_m cfg
     then Inr (cfg\<lparr>fc_goto_altitude_m := fc_altitude_floor_m cfg\<rparr>, ws @ [''goto_altitude'']) else Inr (cfg, ws))"

definition load_fov :: "'j json_api \<Rightarrow> 'j \<Rightarrow> cfg_step" where
  "load_fov J fmu = (\<lambda>(cfg, ws).
     if js_isMember J fmu ''camera_fov_deg'' then
       (let fov_value = js_get J fmu ''camera_fov_deg''
        in if \<not> js_isNumeric J fov_value then Inr (cfg, ws @ [''camera_fov_deg''])
           else let fov = js_asDouble J fov_value
             in if dgt fov (Fin 0) \<and> dlt fov (Fin 180) then Inr (cfg\<lparr>fc_camera_fov_deg := fov\<rparr>, ws)
                else Inr (cfg, ws @ [''camera_fov_deg'']))
     else Inr (cfg, ws))"

definition load_int ::
  "'j json_api \<Rightarrow> 'j \<Rightarrow> string \<Rightarrow> int \<Rightarrow> int \<Rightarrow> (FmuConfig \<Rightarrow> int) \<Rightarrow> (int \<Rightarrow> FmuConfig \<Rightarrow> FmuConfig) \<Rightarrow> cfg_step" where
  "load_int J fmu key lo hi get put = (\<lambda>(cfg, ws).
     if js_isMember J fmu key then
       (case setRangedInt J (get cfg) key (js_get J fmu key) lo hi of
          Inl e \<Rightarrow> Inl e
        | Inr (v, w) \<Rightarrow> Inr (put v cfg, ws @ w))
     else Inr (cfg, ws))"

definition load_mav_address :: "'j json_api \<Rightarrow> 'j \<Rightarrow> cfg_step" where
  "load_mav_address J fmu = (\<lambda>(cfg, ws).
     if js_isMember J fmu ''mav_address'' then
       (let addr = js_get J fmu ''mav_address''
        in if \<not> js_isString J addr then Inl Cfg_mav_address_not_string
           else if is_blank (js_asString J addr) then Inl Cfg_mav_address_blank
           else Inr (cfg\<lparr>fc_mav_address := js_asString J addr\<rparr>, ws))
     else Inr (cfg, ws))"

definition load_mav_port :: "'j json_api \<Rightarrow> 'j \<Rightarrow> cfg_step" where
  "load_mav_port J fmu = (\<lambda>(cfg, ws).
     if js_isMember J fmu ''mav_port'' then
       (let port = js_get J fmu ''mav_port''
        in if \<not> js_isIntegral J port then Inl Cfg_mav_port_not_integer
           else case js_asInt J port of
             None \<Rightarrow> Inl Cfg_json_exception
           | Some v \<Rightarrow> if v < 1 \<or> v > 65535 then Inl (Cfg_mav_port_out_of_range v)
               else Inr (cfg\<lparr>fc_mav_port := v\<rparr>, ws))
     else Inr (cfg, ws))"

definition parse_log_level :: "string \<Rightarrow> LogLevel option" where
  "parse_log_level s =
     (if s = ''error'' then Some log_error else if s = ''warning'' then Some log_warning
      else if s = ''info'' then Some log_info else if s = ''debug'' then Some log_debug else None)"

definition load_log_level :: "'j json_api \<Rightarrow> 'j \<Rightarrow> cfg_step" where
  "load_log_level J fmu = (\<lambda>(cfg, ws).
     if js_isMember J fmu ''log_level'' then
       (let lvl = js_get J fmu ''log_level''
        in if \<not> js_isString J lvl then Inr (cfg, ws @ [''log_level''])
           else case parse_log_level (js_asString J lvl) of
             Some l \<Rightarrow> Inr (cfg\<lparr>fc_log_level := l\<rparr>, ws)
           | None \<Rightarrow> Inr (cfg, ws @ [''log_level'']))
     else Inr (cfg, ws))"

definition load_log_dir :: "'j json_api \<Rightarrow> 'j \<Rightarrow> cfg_step" where
  "load_log_dir J fmu = (\<lambda>(cfg, ws).
     if js_isMember J fmu ''log_dir'' then
       (let dir = js_get J fmu ''log_dir''
        in if \<not> js_isString J dir then Inr (cfg, ws @ [''log_dir''])
           else if js_asString J dir = [] then Inr (cfg, ws @ [''log_dir''])
           else Inr (cfg\<lparr>fc_log_dir := js_asString J dir\<rparr>, ws))
     else Inr (cfg, ws))"

definition altitude_steps :: "'j json_api \<Rightarrow> 'j \<Rightarrow> cfg_step list" where
  "altitude_steps J fmu =
     [load_altitude J fmu ''altitude_cap_m'' ''altitude_cap_ft'' fc_altitude_cap_m (\<lambda>v. fc_altitude_cap_m_update (\<lambda>_. v)),
      load_altitude J fmu ''altitude_floor_m'' ''altitude_floor_ft'' fc_altitude_floor_m (\<lambda>v. fc_altitude_floor_m_update (\<lambda>_. v)),
      clamp_floor,
      load_altitude J fmu ''goto_altitude_m'' ''goto_altitude_ft'' fc_goto_altitude_m (\<lambda>v. fc_goto_altitude_m_update (\<lambda>_. v)),
      clamp_goto]"

definition tunable_steps :: "'j json_api \<Rightarrow> 'j \<Rightarrow> cfg_step list" where
  "tunable_steps J fmu =
     [load_fov J fmu,
      load_int J fmu ''lowbat_threshold'' 0 100 fc_lowbat_threshold (\<lambda>v. fc_lowbat_threshold_update (\<lambda>_. v)),
      load_int J fmu ''low_battery_latch_count'' 1 100 fc_low_battery_latch_count (\<lambda>v. fc_low_battery_latch_count_update (\<lambda>_. v)),
      load_int J fmu ''altitude_breach_latch_count'' 1 100 fc_altitude_breach_latch_count (\<lambda>v. fc_altitude_breach_latch_count_update (\<lambda>_. v)),
      load_int J fmu ''reconnect_interval_s'' 1 3600 fc_reconnect_interval_s (\<lambda>v. fc_reconnect_interval_s_update (\<lambda>_. v)),
      load_int J fmu ''position_stream_interval_ms'' 50 60000 fc_position_stream_interval_ms (\<lambda>v. fc_position_stream_interval_ms_update (\<lambda>_. v)),
      load_int J fmu ''battery_stream_interval_ms'' 50 60000 fc_battery_stream_interval_ms (\<lambda>v. fc_battery_stream_interval_ms_update (\<lambda>_. v)),
      load_int J fmu ''smm_position_report_interval_ms'' 100 60000 fc_smm_position_report_interval_ms (\<lambda>v. fc_smm_position_report_interval_ms_update (\<lambda>_. v)),
      load_int J fmu ''smm_connect_timeout_s'' 1 30 fc_smm_connect_timeout_s (\<lambda>v. fc_smm_connect_timeout_s_update (\<lambda>_. v)),
      load_int J fmu ''smm_transfer_timeout_s'' 1 60 fc_smm_transfer_timeout_s (\<lambda>v. fc_smm_transfer_timeout_s_update (\<lambda>_. v)),
      load_mav_address J fmu,
      load_mav_port J fmu,
      load_int J fmu ''mav_connect_timeout_s'' 1 30 fc_mav_connect_timeout_s (\<lambda>v. fc_mav_connect_timeout_s_update (\<lambda>_. v)),
      load_int J fmu ''mav_send_timeout_s'' 1 10 fc_mav_send_timeout_s (\<lambda>v. fc_mav_send_timeout_s_update (\<lambda>_. v)),
      load_log_level J fmu,
      load_log_dir J fmu]"

definition loadFmuConfig :: "'j json_api \<Rightarrow> 'j config_file \<Rightarrow> config_error + cfg_state" where
  "loadFmuConfig J f =
     (case f of
        File_unopenable \<Rightarrow> Inl Cfg_unable_to_open
      | File_unparsable \<Rightarrow> Inl Cfg_failed_to_parse
      | File_json doc \<Rightarrow>
          (case js_root_get J doc ''fmu'' of
             None \<Rightarrow> Inl Cfg_json_exception
           | Some fmu \<Rightarrow>
               if \<not> js_isObject J fmu then Inr (FmuConfig_default, [])
               else run_steps (altitude_steps J fmu @ tunable_steps J fmu) (FmuConfig_default, [])))"


section \<open>Statements in sequence\<close>

lemma run_steps_append:
  "run_steps (xs @ ys) st = (case run_steps xs st of Inl e \<Rightarrow> Inl e | Inr st1 \<Rightarrow> run_steps ys st1)"
  by (induction xs arbitrary: st) (simp_all split: sum.split)

lemma run_steps_Cons_Inr:
  "run_steps (s # ss) st = Inr st' \<longleftrightarrow> (\<exists>st1. s st = Inr st1 \<and> run_steps ss st1 = Inr st')"
  by (simp split: sum.split)

definition keeps_inv :: "(cfg_state \<Rightarrow> bool) \<Rightarrow> cfg_step \<Rightarrow> bool" where
  "keeps_inv I s \<longleftrightarrow> (\<forall>st st'. I st \<longrightarrow> s st = Inr st' \<longrightarrow> I st')"

lemma keeps_invD: "keeps_inv I s \<Longrightarrow> I st \<Longrightarrow> s st = Inr st' \<Longrightarrow> I st'"
  unfolding keeps_inv_def by blast

lemma run_steps_inv: "list_all (keeps_inv I) ss \<Longrightarrow> run_steps ss st = Inr st' \<Longrightarrow> I st \<Longrightarrow> I st'"
proof (induction ss arbitrary: st)
  case (Cons s ss)
  then obtain st1 where "s st = Inr st1" "run_steps ss st1 = Inr st'" by (auto simp: run_steps_Cons_Inr simp del: run_steps.simps)
  then show ?case using Cons keeps_invD [of I s st st1] by simp
qed simp

text \<open>What each kind of statement keeps.\<close>

lemma keeps_load_altitude:
  "(\<And>cfg ws v w. I (cfg, ws) \<Longrightarrow> loadAltitude J (get cfg) fmu km kf = Some (v, w) \<Longrightarrow> I (put v cfg, ws @ w)) \<Longrightarrow>
    keeps_inv I (load_altitude J fmu km kf get put)"
  by (auto simp: keeps_inv_def load_altitude_def split: option.splits)

lemma keeps_load_int:
  "(\<And>cfg ws. I (cfg, ws) \<Longrightarrow> I (put (get cfg) cfg, ws @ [key])) \<Longrightarrow>
    (\<And>cfg ws v. I (cfg, ws) \<Longrightarrow> lo \<le> v \<Longrightarrow> v \<le> hi \<Longrightarrow> I (put v cfg, ws)) \<Longrightarrow>
    keeps_inv I (load_int J fmu key lo hi get put)"
  by (auto simp: keeps_inv_def load_int_def setRangedInt_def split: if_splits option.splits)

lemmas load_defs = clamp_floor_def clamp_goto_def load_fov_def load_mav_address_def load_mav_port_def
  load_log_level_def load_log_dir_def

section \<open>Every configuration that loads is consistent\<close>

definition cfg_altitudes_ok :: "FmuConfig \<Rightarrow> bool" where
  "cfg_altitudes_ok c \<longleftrightarrow> fc_altitude_floor_m c \<le> fc_goto_altitude_m c \<and> fc_goto_altitude_m c \<le> fc_altitude_cap_m c"

definition between :: "int \<Rightarrow> int \<Rightarrow> int \<Rightarrow> bool" where
  "between lo hi v \<longleftrightarrow> lo \<le> v \<and> v \<le> hi"

definition cfg_tunables_ok :: "FmuConfig \<Rightarrow> bool" where
  "cfg_tunables_ok c \<longleftrightarrow>
     dgt (fc_camera_fov_deg c) (Fin 0) \<and> dlt (fc_camera_fov_deg c) (Fin 180) \<and>
     between 0 100 (fc_lowbat_threshold c) \<and> between 1 100 (fc_low_battery_latch_count c) \<and>
     between 1 100 (fc_altitude_breach_latch_count c) \<and> between 1 3600 (fc_reconnect_interval_s c) \<and>
     between 50 60000 (fc_position_stream_interval_ms c) \<and> between 50 60000 (fc_battery_stream_interval_ms c) \<and>
     between 100 60000 (fc_smm_position_report_interval_ms c) \<and> between 1 30 (fc_smm_connect_timeout_s c) \<and>
     between 1 60 (fc_smm_transfer_timeout_s c) \<and> between 1 65535 (fc_mav_port c) \<and>
     between 1 30 (fc_mav_connect_timeout_s c) \<and> between 1 10 (fc_mav_send_timeout_s c) \<and>
     \<not> is_blank (fc_mav_address c) \<and> fc_log_dir c \<noteq> []"

definition cfg_wf :: "FmuConfig \<Rightarrow> bool" where
  "cfg_wf c \<longleftrightarrow> cfg_altitudes_ok c \<and> cfg_tunables_ok c"

lemma default_wf: "cfg_altitudes_ok FmuConfig_default" "cfg_tunables_ok FmuConfig_default"
  by (simp_all add: cfg_altitudes_ok_def cfg_tunables_ok_def between_def FmuConfig_default_def is_blank_def is_space_def)

lemma tunables_kept: "list_all (keeps_inv (\<lambda>st. cfg_tunables_ok (fst st))) (altitude_steps J fmu @ tunable_steps J fmu)"
  unfolding altitude_steps_def tunable_steps_def append.simps list.pred_inject
  by (intro conjI keeps_load_int keeps_load_altitude)
    (auto simp: keeps_inv_def load_defs Let_def cfg_tunables_ok_def between_def split: if_splits option.splits)

lemma altitudes_kept: "list_all (keeps_inv (\<lambda>st. cfg_altitudes_ok (fst st))) (tunable_steps J fmu)"
  unfolding tunable_steps_def list.pred_inject
  by (intro conjI keeps_load_int)
    (auto simp: keeps_inv_def load_defs Let_def cfg_altitudes_ok_def split: if_splits option.splits)

lemma altitudes_established:
  assumes "run_steps (altitude_steps J fmu) st = Inr st'"
  shows "cfg_altitudes_ok (fst st')"
  using assms
  by (auto simp: altitude_steps_def load_altitude_def clamp_floor_def clamp_goto_def cfg_altitudes_ok_def
      split: if_splits option.splits prod.splits)

lemma loaded_cases:
  assumes "loadFmuConfig J f = Inr (cfg, ws)"
  obtains (default) "cfg = FmuConfig_default" "ws = []"
  | (block) fmu st where "run_steps (altitude_steps J fmu) (FmuConfig_default, []) = Inr st"
      "run_steps (tunable_steps J fmu) st = Inr (cfg, ws)"
      "run_steps (altitude_steps J fmu @ tunable_steps J fmu) (FmuConfig_default, []) = Inr (cfg, ws)"
  using assms
  by (auto simp: loadFmuConfig_def run_steps_append split: config_file.splits option.splits if_splits sum.splits)

lemma loaded_altitudes_ok:
  assumes "loadFmuConfig J f = Inr (cfg, ws)"
  shows "cfg_altitudes_ok cfg"
  using assms
proof (cases rule: loaded_cases)
  case (block fmu st)
  then show ?thesis using run_steps_inv [OF altitudes_kept block(2)] altitudes_established [OF block(1)] by simp
qed (simp add: default_wf)

lemma loaded_tunables_ok:
  assumes "loadFmuConfig J f = Inr (cfg, ws)"
  shows "cfg_tunables_ok cfg"
  using assms
proof (cases rule: loaded_cases)
  case (block fmu st)
  then show ?thesis using run_steps_inv [OF tunables_kept block(3)] default_wf by simp
qed (simp add: default_wf)

text \<open>C28: whatever the file holds, a configuration that loads satisfies its type: floor at most goto altitude at most cap, a field of view strictly between 0 and 180 degrees, every count, interval, timeout and port in its documented range, an address and a log directory that are not blank.\<close>

theorem loaded_config_wf:
  assumes "loadFmuConfig J f = Inr (cfg, ws)"
  shows "cfg_wf cfg"
  using loaded_altitudes_ok [OF assms] loaded_tunables_ok [OF assms] by (simp add: cfg_wf_def)

section \<open>What stops the program\<close>

definition fails_when :: "cfg_step \<Rightarrow> bool \<Rightarrow> bool" where
  "fails_when s b \<longleftrightarrow> (\<forall>st. isl (s st) = b)"

lemma isl_run_steps: "list_all2 fails_when ss bs \<Longrightarrow> isl (run_steps ss st) \<longleftrightarrow> list_ex (\<lambda>b. b) bs"
proof (induction ss bs arbitrary: st rule: list_all2_induct)
  case (Cons s ss b bs)
  have "isl (s st) = b" using Cons.hyps(1) by (simp add: fails_when_def del: split_paired_All)
  then show ?case using Cons.IH by (cases "s st") auto
qed simp

definition bad_address :: "'j json_api \<Rightarrow> 'j \<Rightarrow> bool" where
  "bad_address J fmu \<longleftrightarrow> js_isMember J fmu ''mav_address'' \<and>
     (let a = js_get J fmu ''mav_address'' in \<not> js_isString J a \<or> is_blank (js_asString J a))"

definition bad_port :: "'j json_api \<Rightarrow> 'j \<Rightarrow> bool" where
  "bad_port J fmu \<longleftrightarrow> js_isMember J fmu ''mav_port'' \<and>
     (let p = js_get J fmu ''mav_port''
      in \<not> js_isIntegral J p \<or> (case js_asInt J p of None \<Rightarrow> True | Some v \<Rightarrow> v < 1 \<or> 65535 < v))"

text \<open>An integer key whose value is integral and does not fit an \<open>int\<close>; an altitude that is not a number.\<close>

definition int_overflows :: "'j json_api \<Rightarrow> 'j \<Rightarrow> string \<Rightarrow> bool" where
  "int_overflows J fmu key \<longleftrightarrow>
     js_isMember J fmu key \<and> js_isIntegral J (js_get J fmu key) \<and> js_asInt J (js_get J fmu key) = None"

definition altitude_nan :: "'j json_api \<Rightarrow> 'j \<Rightarrow> string \<times> string \<Rightarrow> bool" where
  "altitude_nan J fmu keys =
     (let key = (if js_isMember J fmu (snd keys) then snd keys else fst keys)
      in js_isMember J fmu key \<and> js_isNumeric J (js_get J fmu key) \<and> js_asDouble J (js_get J fmu key) = NaN)"

definition altitude_keys :: "(string \<times> string) list" where
  "altitude_keys = [(''altitude_cap_m'', ''altitude_cap_ft''), (''altitude_floor_m'', ''altitude_floor_ft''),
     (''goto_altitude_m'', ''goto_altitude_ft'')]"

definition int_keys :: "string list" where
  "int_keys = [''lowbat_threshold'', ''low_battery_latch_count'', ''altitude_breach_latch_count'',
     ''reconnect_interval_s'', ''position_stream_interval_ms'', ''battery_stream_interval_ms'',
     ''smm_position_report_interval_ms'', ''smm_connect_timeout_s'', ''smm_transfer_timeout_s'',
     ''mav_connect_timeout_s'', ''mav_send_timeout_s'']"

definition config_refused :: "'j json_api \<Rightarrow> 'j config_file \<Rightarrow> bool" where
  "config_refused J f =
     (case f of
        File_unopenable \<Rightarrow> True
      | File_unparsable \<Rightarrow> True
      | File_json doc \<Rightarrow>
          (case js_root_get J doc ''fmu'' of
             None \<Rightarrow> True
           | Some fmu \<Rightarrow> js_isObject J fmu \<and>
               (bad_address J fmu \<or> bad_port J fmu \<or> list_ex (int_overflows J fmu) int_keys \<or>
                list_ex (altitude_nan J fmu) altitude_keys)))"

lemma dmul_lit_NaN: "dmul_lit x c = NaN \<longleftrightarrow> x = NaN"
  by (cases x) (auto simp: rnd_def Let_def)

lemma setAltitudeMetres_None:
  "setAltitudeMetres J target key val c = None \<longleftrightarrow> js_isNumeric J val \<and> js_asDouble J val = NaN"
proof -
  have "lround (Fin y) \<noteq> None" if "0 \<le> y" "y \<le> 65535" for y
    using round_away_bounds [of 0 y 65535] that by (simp add: in_range_def)
  then show ?thesis
    using dmul_lit_NaN [of "js_asDouble J val" c]
    by (cases "dmul_lit (js_asDouble J val) c") (auto simp: setAltitudeMetres_def Let_def dgt_def simp del: lround.simps(1))
qed

lemma loadAltitude_None: "loadAltitude J target fmu km kf = None \<longleftrightarrow> altitude_nan J fmu (km, kf)"
  by (simp add: loadAltitude_def altitude_nan_def Let_def setAltitudeMetres_None)

lemma fails_load_altitude: "fails_when (load_altitude J fmu km kf get put) (altitude_nan J fmu (km, kf))"
  unfolding fails_when_def
proof
  fix st
  show "isl (load_altitude J fmu km kf get put st) = altitude_nan J fmu (km, kf)"
    using loadAltitude_None [of J "get (fst st)" fmu km kf]
    by (cases "loadAltitude J (get (fst st)) fmu km kf") (auto simp: load_altitude_def case_prod_unfold)
qed

lemma fails_load_int: "fails_when (load_int J fmu key lo hi get put) (int_overflows J fmu key)"
  by (auto simp: fails_when_def load_int_def setRangedInt_def int_overflows_def split: option.split)

lemma fails_others:
  "fails_when clamp_floor False" "fails_when clamp_goto False" "fails_when (load_fov J fmu) False"
  "fails_when (load_mav_address J fmu) (bad_address J fmu)" "fails_when (load_mav_port J fmu) (bad_port J fmu)"
  "fails_when (load_log_level J fmu) False" "fails_when (load_log_dir J fmu) False"
  by (auto simp: fails_when_def load_defs bad_address_def bad_port_def Let_def split: option.split)

text \<open>C29: loading fails exactly for a file that cannot be opened or parsed, a document that is no container, a present but invalid autopilot address or port, and, against the documentation, an integer tunable too large for an int or an altitude that is no number; every other malformed value falls back.\<close>

theorem config_errors_exact: "isl (loadFmuConfig J f) \<longleftrightarrow> config_refused J f"
proof -
  have "isl (run_steps (altitude_steps J fmu @ tunable_steps J fmu) st) \<longleftrightarrow>
      bad_address J fmu \<or> bad_port J fmu \<or> list_ex (int_overflows J fmu) int_keys \<or>
      list_ex (altitude_nan J fmu) altitude_keys" for fmu st
  proof -
    have "list_all2 fails_when (altitude_steps J fmu @ tunable_steps J fmu)
       [altitude_nan J fmu (''altitude_cap_m'', ''altitude_cap_ft''),
        altitude_nan J fmu (''altitude_floor_m'', ''altitude_floor_ft''), False,
        altitude_nan J fmu (''goto_altitude_m'', ''goto_altitude_ft''), False, False,
        int_overflows J fmu ''lowbat_threshold'', int_overflows J fmu ''low_battery_latch_count'',
        int_overflows J fmu ''altitude_breach_latch_count'', int_overflows J fmu ''reconnect_interval_s'',
        int_overflows J fmu ''position_stream_interval_ms'', int_overflows J fmu ''battery_stream_interval_ms'',
        int_overflows J fmu ''smm_position_report_interval_ms'', int_overflows J fmu ''smm_connect_timeout_s'',
        int_overflows J fmu ''smm_transfer_timeout_s'', bad_address J fmu, bad_port J fmu,
        int_overflows J fmu ''mav_connect_timeout_s'', int_overflows J fmu ''mav_send_timeout_s'', False, False]"
      unfolding altitude_steps_def tunable_steps_def append.simps
      by (simp add: fails_load_altitude fails_load_int fails_others)
    from isl_run_steps [OF this] show ?thesis by (auto simp: int_keys_def altitude_keys_def)
  qed
  then show ?thesis
    by (simp add: loadFmuConfig_def config_refused_def split: config_file.split option.split)
qed

section \<open>Fallbacks\<close>

definition neutral :: "string \<Rightarrow> (FmuConfig \<Rightarrow> int) \<Rightarrow> cfg_step \<Rightarrow> bool" where
  "neutral key get s \<longleftrightarrow> (\<forall>st st'. s st = Inr st' \<longrightarrow>
     get (fst st') = get (fst st) \<and> (key \<in> set (snd st') \<longleftrightarrow> key \<in> set (snd st)))"

lemma neutralD: "neutral key get s \<Longrightarrow> s st = Inr st' \<Longrightarrow>
    get (fst st') = get (fst st) \<and> (key \<in> set (snd st') \<longleftrightarrow> key \<in> set (snd st))"
  unfolding neutral_def by blast

lemma neutral_run: "list_all (neutral key get) ss \<Longrightarrow> run_steps ss st = Inr st' \<Longrightarrow>
    get (fst st') = get (fst st) \<and> (key \<in> set (snd st') \<longleftrightarrow> key \<in> set (snd st))"
proof (induction ss arbitrary: st)
  case (Cons s ss)
  then obtain st1 where "s st = Inr st1" "run_steps ss st1 = Inr st'" by (auto simp: run_steps_Cons_Inr simp del: run_steps.simps)
  then show ?case using Cons neutralD [of key get s st st1] by simp
qed simp

lemma neutral_load_int:
  "key \<noteq> key' \<Longrightarrow> (\<And>v c. get (put v c) = get c) \<Longrightarrow> neutral key get (load_int J fmu key' lo hi get' put)"
  by (auto simp: neutral_def load_int_def setRangedInt_def split: if_splits option.splits)

lemma loadAltitude_warns: "loadAltitude J target fmu km kf = Some (v, w) \<Longrightarrow> set w \<subseteq> {km, kf}"
  by (auto simp: loadAltitude_def setAltitudeMetres_def Let_def split: if_splits option.splits)

lemma neutral_load_altitude:
  "key \<noteq> km \<Longrightarrow> key \<noteq> kf \<Longrightarrow> (\<And>v c. get (put v c) = get c) \<Longrightarrow> neutral key get (load_altitude J fmu km kf get' put)"
  by (auto simp: neutral_def load_altitude_def dest!: loadAltitude_warns split: option.splits)

text \<open>The value of an integer key is used when it is an integer in the range.\<close>

definition usable_int :: "'j json_api \<Rightarrow> 'j \<Rightarrow> string \<Rightarrow> int \<Rightarrow> int \<Rightarrow> int option" where
  "usable_int J fmu key lo hi =
     (if js_isMember J fmu key \<and> js_isIntegral J (js_get J fmu key)
      then (case js_asInt J (js_get J fmu key) of
              Some v \<Rightarrow> if lo \<le> v \<and> v \<le> hi then Some v else None | None \<Rightarrow> None)
      else None)"

definition int_key_exact ::
  "'j json_api \<Rightarrow> 'j \<Rightarrow> cfg_state \<Rightarrow> string \<times> int \<times> int \<times> (FmuConfig \<Rightarrow> int) \<Rightarrow> bool" where
  "int_key_exact J fmu st = (\<lambda>(key, lo, hi, get).
     case usable_int J fmu key lo hi of
       Some v \<Rightarrow> get (fst st) = v \<and> key \<notin> set (snd st)
     | None \<Rightarrow> get (fst st) = get FmuConfig_default \<and> (key \<in> set (snd st) \<longleftrightarrow> js_isMember J fmu key))"

lemma load_int_usable:
  assumes "load_int J fmu key lo hi get put (cfg, ws) = Inr st"
  shows "st = (case usable_int J fmu key lo hi of
      Some v \<Rightarrow> (put v cfg, ws)
    | None \<Rightarrow> if js_isMember J fmu key then (put (get cfg) cfg, ws @ [key]) else (cfg, ws))"
  using assms
  by (cases "js_asInt J (js_get J fmu key)") (auto simp: load_int_def setRangedInt_def usable_int_def split: if_splits)

text \<open>One statement of a sequence sets the key, and the others leave it alone.\<close>

definition set_by ::
  "'j json_api \<Rightarrow> 'j \<Rightarrow> string \<times> int \<times> int \<times> (FmuConfig \<Rightarrow> int) \<Rightarrow> cfg_step list \<Rightarrow> bool" where
  "set_by J fmu = (\<lambda>(key, lo, hi, get) ss. \<forall>st0 st. run_steps ss st0 = Inr st \<longrightarrow>
     get (fst st0) = get FmuConfig_default \<longrightarrow> key \<notin> set (snd st0) \<longrightarrow> int_key_exact J fmu st (key, lo, hi, get))"

lemma set_by_here:
  assumes "list_all (neutral key get) ss" and "\<And>v c. get (put v c) = v"
  shows "set_by J fmu (key, lo, hi, get) (load_int J fmu key lo hi get put # ss)"
  unfolding set_by_def prod.case
proof (intro allI impI)
  fix st0 st
  assume run: "run_steps (load_int J fmu key lo hi get put # ss) st0 = Inr st"
    and get: "get (fst st0) = get FmuConfig_default" and key: "key \<notin> set (snd st0)"
  obtain cfg ws where st0: "st0 = (cfg, ws)" by (cases st0)
  obtain st1 where st1: "load_int J fmu key lo hi get put (cfg, ws) = Inr st1" "run_steps ss st1 = Inr st"
    using run unfolding st0 run_steps_Cons_Inr by blast
  show "int_key_exact J fmu st (key, lo, hi, get)"
    using load_int_usable [OF st1(1)] neutral_run [OF assms(1) st1(2)] get key assms(2)
    unfolding st0 int_key_exact_def by (auto split: option.splits if_splits)
qed

lemma set_by_later:
  assumes "set_by J fmu (key, lo, hi, get) ss" and "neutral key get s"
  shows "set_by J fmu (key, lo, hi, get) (s # ss)"
  unfolding set_by_def prod.case run_steps_Cons_Inr
  using neutralD [OF assms(2)] assms(1) unfolding set_by_def prod.case by metis

definition int_settings :: "(string \<times> int \<times> int \<times> (FmuConfig \<Rightarrow> int)) list" where
  "int_settings =
     [(''lowbat_threshold'', 0, 100, fc_lowbat_threshold),
      (''low_battery_latch_count'', 1, 100, fc_low_battery_latch_count),
      (''altitude_breach_latch_count'', 1, 100, fc_altitude_breach_latch_count),
      (''reconnect_interval_s'', 1, 3600, fc_reconnect_interval_s),
      (''position_stream_interval_ms'', 50, 60000, fc_position_stream_interval_ms),
      (''battery_stream_interval_ms'', 50, 60000, fc_battery_stream_interval_ms),
      (''smm_position_report_interval_ms'', 100, 60000, fc_smm_position_report_interval_ms),
      (''smm_connect_timeout_s'', 1, 30, fc_smm_connect_timeout_s),
      (''smm_transfer_timeout_s'', 1, 60, fc_smm_transfer_timeout_s),
      (''mav_connect_timeout_s'', 1, 30, fc_mav_connect_timeout_s),
      (''mav_send_timeout_s'', 1, 10, fc_mav_send_timeout_s)]"

lemma neutral_others:
  "key \<notin> {''altitude_floor'', ''goto_altitude'', ''camera_fov_deg'', ''log_level'', ''log_dir''} \<Longrightarrow>
    (\<And>v c. get (fc_altitude_floor_m_update v c) = get c) \<Longrightarrow> (\<And>v c. get (fc_goto_altitude_m_update v c) = get c) \<Longrightarrow>
    (\<And>v c. get (fc_camera_fov_deg_update v c) = get c) \<Longrightarrow> (\<And>v c. get (fc_log_level_update v c) = get c) \<Longrightarrow>
    (\<And>v c. get (fc_log_dir_update v c) = get c) \<Longrightarrow> (\<And>v c. get (fc_mav_address_update v c) = get c) \<Longrightarrow>
    (\<And>v c. get (fc_mav_port_update v c) = get c) \<Longrightarrow>
    neutral key get clamp_floor \<and> neutral key get clamp_goto \<and> neutral key get (load_fov J fmu) \<and>
    neutral key get (load_mav_address J fmu) \<and> neutral key get (load_mav_port J fmu) \<and>
    neutral key get (load_log_level J fmu) \<and> neutral key get (load_log_dir J fmu)"
  by (auto simp: neutral_def load_defs Let_def split: if_splits option.splits)

lemmas neutral_steps = neutral_load_int neutral_load_altitude
  neutral_others [THEN conjunct1] neutral_others [THEN conjunct2, THEN conjunct1]
  neutral_others [THEN conjunct2, THEN conjunct2, THEN conjunct1]
  neutral_others [THEN conjunct2, THEN conjunct2, THEN conjunct2, THEN conjunct1]
  neutral_others [THEN conjunct2, THEN conjunct2, THEN conjunct2, THEN conjunct2, THEN conjunct1]
  neutral_others [THEN conjunct2, THEN conjunct2, THEN conjunct2, THEN conjunct2, THEN conjunct2, THEN conjunct1]
  neutral_others [THEN conjunct2, THEN conjunct2, THEN conjunct2, THEN conjunct2, THEN conjunct2, THEN conjunct2]

lemma int_settings_set:
  "list_all (\<lambda>setting. set_by J fmu setting (altitude_steps J fmu @ tunable_steps J fmu)) int_settings"
  unfolding int_settings_def list.pred_inject altitude_steps_def tunable_steps_def append.simps
  by (intro conjI list.pred_inject(1); (rule set_by_here | rule set_by_later)+; simp add: neutral_steps)

text \<open>Every integer tunable is either the value of its key, when that is an integer in the documented range, or the default; and a key that is present but not used is always among the warnings.\<close>

lemma int_settings_exact:
  assumes "js_root_get J doc ''fmu'' = Some fmu" and "js_isObject J fmu"
    and "loadFmuConfig J (File_json doc) = Inr st"
  shows "list_all (int_key_exact J fmu st) int_settings"
proof -
  have run: "run_steps (altitude_steps J fmu @ tunable_steps J fmu) (FmuConfig_default, []) = Inr st"
    using assms by (simp add: loadFmuConfig_def)
  have "int_key_exact J fmu st (key, lo, hi, get)" if "(key, lo, hi, get) \<in> set int_settings" for key lo hi get
  proof -
    have "set_by J fmu (key, lo, hi, get) (altitude_steps J fmu @ tunable_steps J fmu)"
      using int_settings_set [of J fmu] that by (auto simp: list_all_iff)
    then show ?thesis using run unfolding set_by_def prod.case by (metis empty_iff fst_conv list.set(1) snd_conv)
  qed
  then show ?thesis by (auto simp: list_all_iff)
qed

section \<open>A JSON library for examples\<close>

datatype json_value = J_object "(string \<times> json_value) list" | J_int int | J_double rat | J_string string | J_null

fun json_members :: "json_value \<Rightarrow> (string \<times> json_value) list" where
  "json_members (J_object ms) = ms"
| "json_members _ = []"

fun json_number :: "json_value \<Rightarrow> rat option" where
  "json_number (J_int i) = Some (of_int i)"
| "json_number (J_double q) = Some q"
| "json_number _ = None"

fun json_text :: "json_value \<Rightarrow> string option" where
  "json_text (J_string s) = Some s"
| "json_text _ = None"

fun json_integer :: "json_value \<Rightarrow> int option" where
  "json_integer (J_int i) = Some i"
| "json_integer _ = None"

fun json_is_object :: "json_value \<Rightarrow> bool" where
  "json_is_object (J_object _) = True"
| "json_is_object _ = False"

definition sample_json_api :: "json_value json_api" where
  "sample_json_api =
     (let member = (\<lambda>v k. case map_of (json_members v) k of Some x \<Rightarrow> x | None \<Rightarrow> J_null)
      in \<lparr>js_isObject = json_is_object, js_isNumeric = (\<lambda>v. json_number v \<noteq> None),
          js_isIntegral = (\<lambda>v. json_integer v \<noteq> None), js_isString = (\<lambda>v. json_text v \<noteq> None),
          js_isMember = (\<lambda>v k. map_of (json_members v) k \<noteq> None), js_get = member,
          js_root_get = (\<lambda>v k. if json_is_object v then Some (member v k) else None),
          js_asDouble = (\<lambda>v. case json_number v of Some q \<Rightarrow> Fin q | None \<Rightarrow> Fin 0),
          js_asInt = (\<lambda>v. case json_integer v of
            Some i \<Rightarrow> if - (2 ^ 31) \<le> i \<and> i < 2 ^ 31 then Some i else None | None \<Rightarrow> None),
          js_asString = (\<lambda>v. case json_text v of Some s \<Rightarrow> s | None \<Rightarrow> [])\<rparr>)"

text \<open>A file with a floor above the cap, a threshold out of range and a port.\<close>

definition sample_fmu :: json_value where
  "sample_fmu = J_object
     [(''altitude_cap_m'', J_int 100), (''altitude_floor_m'', J_int 120), (''camera_fov_deg'', J_int 60),
      (''lowbat_threshold'', J_int 250), (''reconnect_interval_s'', J_int 30), (''mav_port'', J_int 14550),
      (''log_level'', J_string ''debug'')]"

definition sample_file :: "json_value config_file" where
  "sample_file = File_json (J_object [(''fmu'', sample_fmu)])"

definition sample_config :: FmuConfig where
  "sample_config = FmuConfig_default\<lparr>fc_altitude_cap_m := 100, fc_altitude_floor_m := 100, fc_goto_altitude_m := 100,
     fc_camera_fov_deg := Fin 60, fc_reconnect_interval_s := 30, fc_mav_port := 14550, fc_log_level := log_debug\<rparr>"

lemma sample_api_simps:
  "js_isObject sample_json_api = json_is_object" "js_isNumeric sample_json_api v = (json_number v \<noteq> None)"
  "js_isIntegral sample_json_api v = (json_integer v \<noteq> None)" "js_isString sample_json_api v = (json_text v \<noteq> None)"
  "js_isMember sample_json_api v k = (map_of (json_members v) k \<noteq> None)"
  "js_get sample_json_api v k = (case map_of (json_members v) k of Some x \<Rightarrow> x | None \<Rightarrow> J_null)"
  "js_root_get sample_json_api (J_object ms) k = Some (case map_of ms k of Some x \<Rightarrow> x | None \<Rightarrow> J_null)"
  "js_asDouble sample_json_api v = (case json_number v of Some q \<Rightarrow> Fin q | None \<Rightarrow> Fin 0)"
  "js_asInt sample_json_api v = (case json_integer v of
     Some i \<Rightarrow> if - (2 ^ 31) \<le> i \<and> i < 2 ^ 31 then Some i else None | None \<Rightarrow> None)"
  "js_asString sample_json_api v = (case json_text v of Some s \<Rightarrow> s | None \<Rightarrow> [])"
  by (simp_all add: sample_json_api_def)

lemma sample_altitude:
  "setAltitudeMetres sample_json_api target key (J_int 100) 1 = Some (100, [])"
  "setAltitudeMetres sample_json_api target key (J_int 120) 1 = Some (120, [])"
  using rnd_of_int [of 100] rnd_of_int [of 120] floor_divide_of_int_eq [of 201 2, where ?'a = rat]
    floor_divide_of_int_eq [of 241 2, where ?'a = rat]
  by (simp_all add: setAltitudeMetres_def sample_api_simps dgt_def in_range_def round_away_def)

lemma sample_file_loads:
  "loadFmuConfig sample_json_api sample_file =
     Inr (sample_config, [''altitude_floor'', ''goto_altitude'', ''lowbat_threshold''])"
  by (simp add: loadFmuConfig_def sample_file_def sample_fmu_def sample_api_simps altitude_steps_def tunable_steps_def
      load_altitude_def loadAltitude_def sample_altitude clamp_floor_def clamp_goto_def load_fov_def load_int_def
      setRangedInt_def load_mav_address_def load_mav_port_def load_log_level_def load_log_dir_def parse_log_level_def
      FmuConfig_default_def sample_config_def dgt_def)

theorem loaded_config_wf_witness: "cfg_wf sample_config"
  by (rule loaded_config_wf [OF sample_file_loads])

lemma int_settings_exact_witness:
  "list_all (int_key_exact sample_json_api sample_fmu
     (sample_config, [''altitude_floor'', ''goto_altitude'', ''lowbat_threshold''])) int_settings"
  by (rule int_settings_exact [OF _ _ sample_file_loads [unfolded sample_file_def]])
    (simp_all add: sample_api_simps, simp add: sample_fmu_def)

lemma refused_files:
  "config_refused sample_json_api (File_json (J_object [(''fmu'', J_object [(''mav_port'', J_int 0)])]))"
  "config_refused sample_json_api (File_json (J_object [(''fmu'', J_object [(''lowbat_threshold'', J_int 10000000000)])]))"
  "\<not> config_refused sample_json_api sample_file"
  by (simp_all add: config_refused_def sample_api_simps bad_address_def bad_port_def int_keys_def altitude_keys_def
      int_overflows_def altitude_nan_def sample_file_def sample_fmu_def)

end
