(* ===== verification/Fmu_Main.thy ===== *)
theory Fmu_Main
  imports Fmu_Config Mav_Session
begin

text \<open>
  The start of the program, \<open>src/main.cpp\<close>: the command line, the exit code, and the
  parameters that the application hands on from the configuration. What \<open>getopt_long\<close>
  returns, what the configuration file holds and whether the application throws are arguments.
\<close>

section \<open>The command line\<close>

definition parse_terminate_action :: "string \<Rightarrow> terminate_action option" where
  "parse_terminate_action val =
     (if val = ''none'' then Some terminate_none
      else if val = ''disarm'' then Some terminate_disarm
      else if val = ''terminate'' then Some terminate_terminate
      else None)"

text \<open>A return of \<open>getopt_long\<close>, with \<open>optarg\<close>.\<close>

datatype long_option = Opt_terminate_action string | Opt_version | Opt_help | Opt_unknown

text \<open>What the program writes before it exits.\<close>

datatype main_output =
    Out_unknown_action string
  | Out_version
  | Out_help
  | Out_usage
  | Out_action_required
  | Out_fatal config_error
  | Out_fatal_app

text \<open>The option loop: an early return with its code and output, or the action that was chosen.\<close>

fun parse_options ::
  "long_option list \<Rightarrow> terminate_action option \<Rightarrow> (int \<times> main_output list) + terminate_action option" where
  "parse_options [] ta = Inr ta"
| "parse_options (Opt_terminate_action optarg # opts) ta =
     (case parse_terminate_action optarg of
        None \<Rightarrow> Inl (1, [Out_unknown_action optarg])
      | Some a \<Rightarrow> parse_options opts (Some a))"
| "parse_options (Opt_version # opts) ta = Inl (0, [Out_version])"
| "parse_options (Opt_help # opts) ta = Inl (0, [Out_help])"
| "parse_options (Opt_unknown # opts) ta = Inl (1, [Out_usage])"

section \<open>What the application is built from\<close>

text \<open>The casts to 32 bits and the products in 32 bits.\<close>

definition App_MavParams :: "FmuConfig \<Rightarrow> MavParams" where
  "App_MavParams cfg =
     \<lparr>mp_goto_altitude_m = fc_goto_altitude_m cfg, mp_altitude_floor_m = fc_altitude_floor_m cfg,
      mp_altitude_cap_m = fc_altitude_cap_m cfg,
      mp_position_stream_interval_us = word_of_int (fc_position_stream_interval_ms cfg) * 1000,
      mp_battery_stream_interval_us = word_of_int (fc_battery_stream_interval_ms cfg) * 1000,
      mp_mav_connect_timeout_ms = word_of_int (fc_mav_connect_timeout_s cfg) * 1000,
      mp_mav_send_timeout_ms = word_of_int (fc_mav_send_timeout_s cfg) * 1000\<rparr>"

definition App_mav_port :: "FmuConfig \<Rightarrow> u16" where
  "App_mav_port cfg = word_of_int (fc_mav_port cfg)"

definition App_SMM :: "FmuConfig \<Rightarrow> SMM" where
  "App_SMM cfg = SMM_init (fc_altitude_cap_m cfg) (fc_altitude_floor_m cfg) (fc_camera_fov_deg cfg)
     (word_of_int (fc_smm_position_report_interval_ms cfg))"

section \<open>The program\<close>

text \<open>The application was started with these arguments and returned or threw.\<close>

record app_start =
  as_config_file :: string
  as_terminate_action :: terminate_action
  as_config :: FmuConfig

definition fmu_main ::
  "'j json_api \<Rightarrow> (string \<Rightarrow> 'j config_file) \<Rightarrow> (app_start \<Rightarrow> bool) \<Rightarrow> long_option list \<Rightarrow> string list \<Rightarrow>
   int \<times> main_output list \<times> app_start option" where
  "fmu_main J files app_returns opts args =
     (case parse_options opts None of
        Inl (code, out) \<Rightarrow> (code, out, None)
      | Inr None \<Rightarrow> (1, [Out_action_required, Out_usage], None)
      | Inr (Some ta) \<Rightarrow>
          if length args \<noteq> 1 then (1, [Out_usage], None)
          else (case loadFmuConfig J (files (hd args)) of
            Inl e \<Rightarrow> (1, [Out_fatal e], None)
          | Inr (cfg, _) \<Rightarrow>
              let start = \<lparr>as_config_file = hd args, as_terminate_action = ta, as_config = cfg\<rparr>
              in if app_returns start then (0, [], Some start) else (1, [Out_fatal_app], Some start)))"

section \<open>Starting the application\<close>

text \<open>The first option that ends the loop, and the last action before it.\<close>

fun ends_loop :: "long_option \<Rightarrow> bool" where
  "ends_loop (Opt_terminate_action v) = (parse_terminate_action v = None)"
| "ends_loop _ = True"

fun chosen_action :: "long_option \<Rightarrow> terminate_action option" where
  "chosen_action (Opt_terminate_action v) = parse_terminate_action v"
| "chosen_action _ = None"

lemma parse_options_Inr:
  "parse_options opts ta = Inr r \<longleftrightarrow>
     list_all (\<lambda>opt. \<not> ends_loop opt) opts \<and> r = (if opts = [] then ta else chosen_action (last opts))"
  by (induction opts ta rule: parse_options.induct) (auto split: option.splits)

lemma parse_options_code:
  "parse_options opts ta = Inl (code, out) \<Longrightarrow> code = 0 \<Longrightarrow>
   \<exists>pre opt post. opts = pre @ opt # post \<and> list_all (\<lambda>o'. \<not> ends_loop o') pre \<and> opt \<in> {Opt_version, Opt_help}"
proof (induction opts ta rule: parse_options.induct)
  case (2 v opts ta)
  then obtain a where a: "parse_terminate_action v = Some a" by (auto split: option.splits)
  then obtain pre opt post where "opts = pre @ opt # post" "list_all (\<lambda>o'. \<not> ends_loop o') pre" "opt \<in> {Opt_version, Opt_help}"
    using 2 by auto
  then show ?case using a by (intro exI [of _ "Opt_terminate_action v # pre"]) auto
qed (auto intro: exI [of _ "[]"])

text \<open>C30: the application is started exactly when every option is a valid termination action, at least one was given, there is one argument, and the file it names loads; it then gets that file, the action that was given last, and the loaded configuration.\<close>

theorem app_started_exactly:
  "snd (snd (fmu_main J files app_returns opts args)) = Some start \<longleftrightarrow>
     opts \<noteq> [] \<and> list_all (\<lambda>opt. \<not> ends_loop opt) opts \<and> args = [as_config_file start] \<and>
     chosen_action (last opts) = Some (as_terminate_action start) \<and>
     (\<exists>warnings. loadFmuConfig J (files (as_config_file start)) = Inr (as_config start, warnings))"
proof (cases "parse_options opts None")
  case (Inl e)
  then have "\<not> (\<exists>r. parse_options opts None = Inr r)" by simp
  then have "\<not> list_all (\<lambda>opt. \<not> ends_loop opt) opts" by (auto simp: parse_options_Inr)
  then show ?thesis using Inl by (auto simp: fmu_main_def split_beta)
next
  case (Inr r)
  then have ok: "list_all (\<lambda>opt. \<not> ends_loop opt) opts" "r = (if opts = [] then None else chosen_action (last opts))"
    by (simp_all add: parse_options_Inr)
  show ?thesis
  proof (cases r)
    case None
    then show ?thesis using Inr ok by (auto simp: fmu_main_def)
  next
    case (Some ta)
    then show ?thesis
      using Inr ok
      by (cases start; cases args)
         (auto simp: fmu_main_def Let_def split: sum.splits if_splits)
  qed
qed

text \<open>The exit code is zero for a request of help or version and for an application that returned.\<close>

lemma fmu_main_code:
  "fst (fmu_main J files app_returns opts args) \<in> {0, 1}"
proof -
  have "parse_options opts ta = Inl (code, out) \<Longrightarrow> code \<in> {0, 1}" for ta code out
    by (induction opts ta rule: parse_options.induct) (auto split: option.splits)
  then show ?thesis by (auto simp: fmu_main_def Let_def split: sum.splits option.splits)
qed

lemma fmu_main_zero:
  assumes "fst (fmu_main J files app_returns opts args) = 0"
  shows "(\<exists>start. snd (snd (fmu_main J files app_returns opts args)) = Some start \<and> app_returns start) \<or>
         (\<exists>pre opt post. opts = pre @ opt # post \<and> list_all (\<lambda>o'. \<not> ends_loop o') pre \<and> opt \<in> {Opt_version, Opt_help})"
proof (cases "parse_options opts None")
  case (Inl e)
  then show ?thesis
    using assms parse_options_code [of opts None "fst e" "snd e"] by (cases e) (auto simp: fmu_main_def)
next
  case (Inr r)
  then show ?thesis using assms by (auto simp: fmu_main_def Let_def split: option.splits sum.splits if_splits)
qed

section \<open>The parameters are the configured ones\<close>

lemma scaled_u32:
  assumes "0 \<le> v" and "v \<le> 60000"
  shows "uint (word_of_int v * 1000 :: u32) = v * 1000"
  using assms by (simp add: uint_word_ariths uint_word_of_int)

text \<open>C31: none of the conversions that hand the configuration on can lose anything: for every file that loads, the stream intervals, the timeouts, the port and the report interval arrive as the configured number, in the unit of the receiver.\<close>

theorem app_params_exact:
  assumes "loadFmuConfig J f = Inr (cfg, ws)"
  shows "uint (mp_position_stream_interval_us (App_MavParams cfg)) = fc_position_stream_interval_ms cfg * 1000 \<and>
    uint (mp_battery_stream_interval_us (App_MavParams cfg)) = fc_battery_stream_interval_ms cfg * 1000 \<and>
    uint (mp_mav_connect_timeout_ms (App_MavParams cfg)) = fc_mav_connect_timeout_s cfg * 1000 \<and>
    uint (mp_mav_send_timeout_ms (App_MavParams cfg)) = fc_mav_send_timeout_s cfg * 1000 \<and>
    uint (App_mav_port cfg) = fc_mav_port cfg \<and>
    uint (position_report_interval_ms (App_SMM cfg)) = fc_smm_position_report_interval_ms cfg"
proof -
  have "cfg_tunables_ok cfg" using loaded_tunables_ok [OF assms] .
  then have "between 50 60000 (fc_position_stream_interval_ms cfg)" "between 50 60000 (fc_battery_stream_interval_ms cfg)"
    "between 1 30 (fc_mav_connect_timeout_s cfg)" "between 1 10 (fc_mav_send_timeout_s cfg)"
    "between 1 65535 (fc_mav_port cfg)" "between 100 60000 (fc_smm_position_report_interval_ms cfg)"
    by (simp_all add: cfg_tunables_ok_def)
  then show ?thesis
    by (simp add: between_def App_MavParams_def App_mav_port_def App_SMM_def SMM_init_def scaled_u32 uint_word_of_int)
qed

theorem app_params_exact_witness:
  "uint (mp_position_stream_interval_us (App_MavParams sample_config)) = 200 * 1000 \<and>
   uint (App_mav_port sample_config) = 14550"
  using app_params_exact [OF sample_file_loads] by (simp add: sample_config_def FmuConfig_default_def)

text \<open>A start, and a file that names no valid port.\<close>

lemma sample_starts:
  "fmu_main sample_json_api (\<lambda>_. sample_file) (\<lambda>_. True) [Opt_terminate_action ''disarm''] [''client.json''] =
     (0, [], Some \<lparr>as_config_file = ''client.json'', as_terminate_action = terminate_disarm, as_config = sample_config\<rparr>)"
  by (simp add: fmu_main_def parse_terminate_action_def sample_file_loads)

end
