(* ===== verification/Mav_Envelope.thy ===== *)
theory Mav_Envelope
  imports Mav_Supervision Fmu_Main
begin

text \<open>
  The altitude envelope of the whole program: the configuration's limits, through the
  parameters of \<open>src/main.cpp\<close>, the derivation of a search's altitude
  (\<open>src/smm/smm.cpp\<close>) and the clamps of \<open>src/mav/mavlink.cpp\<close>, to the messages
  that reach the autopilot.
\<close>

section \<open>The envelope\<close>

definition message_within :: "u16 \<Rightarrow> u16 \<Rightarrow> mav_msg \<Rightarrow> bool" where
  "message_within lo hi msg =
     (case altitude_of msg of None \<Rightarrow> True | Some a \<Rightarrow> uint lo \<le> a \<and> a \<le> uint hi)"

fun inside :: "u16 \<Rightarrow> u16 \<Rightarrow> mav_out \<Rightarrow> bool" where
  "inside lo hi (Sent msg) = message_within lo hi msg"
| "inside lo hi (Send_failed msg) = message_within lo hi msg"
| "inside lo hi _ = True"

interpretation envelope: trace_discipline "inside lo hi" for lo hi
proof
  show "steady x \<Longrightarrow> inside lo hi x" for x by (cases x) (simp_all add: message_within_def)
qed

text \<open>The searches that the environment of an input reads were derived by the search worker.\<close>

fun input_env :: "session_input \<Rightarrow> mav_os" where
  "input_env (S_link (Link_recv env _)) = env"
| "input_env (S_link (Link_heartbeat env)) = env"
| "input_env (S_link (Link_reconnect env)) = env"
| "input_env (S_call env _) = env"
| "input_env (S_load env _) = env"
| "input_env (S_adsb env _) = env"

definition derived_by :: "SMM \<Rightarrow> SMMSearch \<Rightarrow> bool" where
  "derived_by s ss \<longleftrightarrow>
     (\<exists>tan_fn h wps w. ss_altitude ss =
        ss_altitude (SMMSearch_new tan_fn h wps w (smm_altitude_cap s) (smm_altitude_floor s) (smm_camera_fov_deg s)))"

definition searches_derived :: "SMM \<Rightarrow> mav_os \<Rightarrow> bool" where
  "searches_derived s env \<longleftrightarrow> (\<forall>i. derived_by s (me_search env i))"

section \<open>Every altitude is inside\<close>

definition limits_ok :: "MavParams \<Rightarrow> bool" where
  "limits_ok ps \<longleftrightarrow> mp_altitude_floor_m ps \<le> mp_goto_altitude_m ps \<and> mp_goto_altitude_m ps \<le> mp_altitude_cap_m ps"

definition search_alts_ok :: "u16 \<Rightarrow> u16 \<Rightarrow> mav_os \<Rightarrow> bool" where
  "search_alts_ok lo hi env \<longleftrightarrow> (\<forall>i a. ss_altitude (me_search env i) = Some a \<longrightarrow> lo \<le> a \<and> a \<le> hi)"

lemma clamp_search_altitude_within:
  assumes "clamp_search_altitude x lo hi = Some a" and "lo \<le> hi"
  shows "lo \<le> a \<and> a \<le> hi"
proof (cases "x = NaN")
  case True
  then show ?thesis using assms by (simp add: clamp_search_altitude_def dgt_def dbl_of_u16_def)
next
  case False
  then show ?thesis using clamp_search_altitude_bounds [OF assms(2) False] assms(1) by simp
qed

lemma derived_altitude_within:
  assumes "derived_by s ss" and "ss_altitude ss = Some a" and "smm_altitude_floor s \<le> smm_altitude_cap s"
  shows "smm_altitude_floor s \<le> a \<and> a \<le> smm_altitude_cap s"
proof -
  obtain x where "clamp_search_altitude x (smm_altitude_floor s) (smm_altitude_cap s) = Some a"
    using assms(1,2) by (auto simp: derived_by_def SMMSearch_new_def case_prod_unfold Let_def)
  then show ?thesis using assms(3) by (rule clamp_search_altitude_within)
qed

lemma waypoint_item_within:
  assumes "mc_params c = ps" and "waypoint_item env sq mt c = Some it" and "limits_ok ps"
    and "search_alts_ok (mp_altitude_floor_m ps) (mp_altitude_cap_m ps) env"
  shows "permits (inside (mp_altitude_floor_m ps) (mp_altitude_cap_m ps)) (Msg_mission_item s t it)"
proof -
  have "it_command it = MAV_CMD_NAV_RETURN_TO_LAUNCH \<or> it_z it = mp_goto_altitude_m ps \<or>
      (\<exists>i. ss_altitude (me_search env i) = Some (it_z it))"
    using assms(1,2) unfolding waypoint_item_def Let_def
    by (auto split: MissionItemKind.splits option.splits if_splits)
  then show ?thesis
    using assms(3,4) by (auto simp: permits_def message_within_def limits_ok_def search_alts_ok_def u16_le_uint)
qed

lemma commanded_within:
  assumes "clamp_command_altitude alt lo hi = Some a" and "lo \<le> hi"
  shows "permits (inside lo hi) (Msg_command_long s t MAV_CMD_DO_CHANGE_ALTITUDE (P_num (uint a) # ps))"
  using clamp_search_altitude_within [OF assms(1) [unfolded clamp_command_altitude_def] assms(2)]
  by (simp add: permits_def message_within_def u16_le_uint)

section \<open>Runs\<close>

definition lawful :: "mav_connection \<Rightarrow> mav_connection \<Rightarrow> bool" where
  "lawful c c' \<longleftrightarrow> does (inside (mp_altitude_floor_m (mc_params c)) (mp_altitude_cap_m (mc_params c))) c c' \<and>
     mc_params c' = mc_params c"

lemma lawful_refl [simp]: "lawful c c"
  by (simp add: lawful_def does_refl)

lemma lawful_trans: "lawful c c' \<Longrightarrow> lawful c' c'' \<Longrightarrow> lawful c c''"
  by (auto simp: lawful_def intro: does_trans)

lemma lawful_keeps:
  "keeps (inside (mp_altitude_floor_m (mc_params c)) (mp_altitude_cap_m (mc_params c))) c c' \<Longrightarrow> lawful c c'"
  by (simp add: lawful_def keeps_def)

lemma lawful_same: "lawful c c' \<Longrightarrow> mc_out c'' = mc_out c' \<Longrightarrow> mc_params c'' = mc_params c' \<Longrightarrow> lawful c c''"
  by (auto simp: lawful_def intro: does_out)

lemma lawful_emit: "lawful c c' \<Longrightarrow> (\<And>lo hi. inside lo hi x) \<Longrightarrow> lawful c (emit x c')"
  by (auto simp: lawful_def emit_def intro: does_emit [unfolded emit_def])

lemma lawful_log: "lawful c c' \<Longrightarrow> lawful c (log_line l c')"
  by (simp add: log_line_def lawful_emit)

lemma lawful_updates:
  "lawful c d \<Longrightarrow> lawful c (d\<lparr>mc_broken := b\<rparr>)"
  "lawful c d \<Longrightarrow> lawful c (d\<lparr>mc_comms_ok := u\<rparr>)"
  "lawful c d \<Longrightarrow> lawful c (d\<lparr>mc_goto_ack_pending := u\<rparr>)"
  "lawful c d \<Longrightarrow> lawful c (d\<lparr>mc_last_tried := ts\<rparr>)"
  "lawful c d \<Longrightarrow> lawful c (d\<lparr>mc_retry_count := n\<rparr>)"
  "lawful c d \<Longrightarrow> lawful c (d\<lparr>mc_retry_count := n, mc_broken := b, mc_connected_since_ts := ts, mc_fd := fd,
     mc_recv_thread := u\<rparr>)"
  by (erule lawful_same; simp)+

lemma lawful_edge: "lawful c d \<Longrightarrow> lawful c (report_link_edge fd_open up d)"
  by (auto simp: report_link_edge_def Let_def intro!: lawful_emit lawful_log lawful_updates)

lemma lawful_heartbeat_pass: "lawful c (heartbeat_pass env c)"
proof -
  have "lawful c (sendHeartBeat env c)"
    by (simp add: sendHeartBeat_def lawful_keeps envelope.keeps_send)
  then show ?thesis
    by (auto simp: heartbeat_pass_def Let_def intro!: lawful_log lawful_updates lawful_edge)
qed

lemma lawful_connect: "lawful c d \<Longrightarrow> lawful c (connect_to_mav env d)"
proof -
  assume d: "lawful c d"
  have dial: "lawful c e \<Longrightarrow> lawful c (snd (dial_endpoints es e))" for es e
    by (induction es e rule: dial_endpoints.induct) (simp_all add: lawful_log)
  have "lawful c (emit (Sock_dial (me_dial_ts env)) (d\<lparr>mc_last_tried := me_dial_ts env\<rparr>))"
    using d by (intro lawful_emit lawful_updates) simp_all
  from dial [OF this, of "me_endpoints env"] this show ?thesis
    by (auto simp: connect_to_mav_def Let_def split: prod.splits option.splits intro!: lawful_log lawful_updates)
qed

lemma lawful_reconnect: "lawful c (attemptReconnect env c)"
proof -
  have "lawful c (disconnect_from_mav c)" by (intro lawful_keeps envelope.keeps_disconnect)
  then show ?thesis
    by (auto simp: attemptReconnect_def Let_def intro!: lawful_connect lawful_updates)
qed

lemma lawful_step:
  fixes m :: MAV
  defines "ps \<equiv> mc_params (mv_connection m)"
  assumes "session_step i m = Some m'" and "limits_ok ps"
    and "search_alts_ok (mp_altitude_floor_m ps) (mp_altitude_cap_m ps) (input_env i)"
  shows "lawful (mv_connection m) (mv_connection m')"
proof -
  have range: "mp_altitude_floor_m ps \<le> mp_altitude_cap_m ps" using assms(3) by (auto simp: limits_ok_def)
  show ?thesis
  proof (cases i)
    case (S_link l)
    show ?thesis
    proof (cases l)
      case (Link_recv env msg)
      then have "processMavLinkMsg env msg (mv_connection m) = Some (mv_connection m')"
        using assms(2) S_link by auto
      then show ?thesis
        using waypoint_item_within [of _ ps env] assms(3,4) S_link Link_recv unfolding ps_def
        by (intro lawful_keeps envelope.keeps_processMavLinkMsg) auto
    qed (use assms(2) S_link lawful_heartbeat_pass lawful_reconnect in auto)
  next
    case (S_call env call)
    then show ?thesis
      using assms(2) commanded_within range unfolding ps_def
      by (intro lawful_keeps envelope.keeps_MAV_perform) auto
  next
    case (S_load env t)
    then show ?thesis
      using assms(2) by (auto simp: MAV_loadSearch_def intro!: lawful_keeps envelope.keeps_loadSearch)
  next
    case (S_adsb env pd)
    then show ?thesis
      using assms(2) by (auto simp: MAV_sendADSB_def Let_def intro!: lawful_keeps envelope.keeps_sendADSB)
  qed
qed

lemma lawful_run:
  fixes m :: MAV
  assumes "session_run is m = Some m'" and "limits_ok (mc_params (mv_connection m))"
    and "list_all (\<lambda>i. search_alts_ok (mp_altitude_floor_m (mc_params (mv_connection m)))
      (mp_altitude_cap_m (mc_params (mv_connection m))) (input_env i)) is"
  shows "lawful (mv_connection m) (mv_connection m')"
  using assms
proof (induction "is" arbitrary: m)
  case (Cons i "is")
  obtain m1 where m1: "session_step i m = Some m1" "session_run is m1 = Some m'"
    using Cons.prems(1) by (auto split: option.splits)
  have step: "lawful (mv_connection m) (mv_connection m1)"
    using lawful_step [OF m1(1)] Cons.prems(2,3) by simp
  then have "lawful (mv_connection m1) (mv_connection m')"
    using Cons.prems(2,3) by (intro Cons.IH [OF m1(2)]) (simp_all add: lawful_def)
  with step show ?case by (rule lawful_trans)
qed simp

text \<open>C1: the altitude envelope: when the application runs on a file that loads, no message it sends or tries to send to the autopilot commands an altitude under the configured floor or over the configured cap, whatever the operators, the autopilot and the search server ask for and however the link behaves; that covers altitude commands, gotos and every item of an uploaded search.\<close>

theorem altitude_envelope:
  assumes "loadFmuConfig J f = Inr (cfg, ws)"
    and "session_run is (MAV_start env0 (MAV_new K (App_MavParams cfg) ta)) = Some m"
    and "list_all (\<lambda>i. searches_derived (App_SMM cfg) (input_env i)) is"
  shows "list_all (inside (fc_altitude_floor_m cfg) (fc_altitude_cap_m cfg)) (mc_out (mv_connection m))"
proof -
  have cfg: "cfg_altitudes_ok cfg" using loaded_altitudes_ok [OF assms(1)] .
  then have "fc_altitude_floor_m cfg \<le> fc_altitude_cap_m cfg" by (auto simp: cfg_altitudes_ok_def)
  then have alts: "list_all (\<lambda>i. search_alts_ok (fc_altitude_floor_m cfg) (fc_altitude_cap_m cfg) (input_env i)) is"
    using assms(3) derived_altitude_within [of "App_SMM cfg"]
    by (fastforce simp: searches_derived_def search_alts_ok_def list_all_iff App_SMM_def SMM_init_def)
  let ?c0 = "mav_connection_init K (App_MavParams cfg) ta"
  have ps: "mc_params (mav_connection_init K p ta) = p" "mc_out (mav_connection_init K p ta) = []" for p
    by (simp_all add: mav_connection_init_def)
  have "lawful ?c0 (mv_connection (MAV_start env0 (MAV_new K (App_MavParams cfg) ta)))"
    by (auto simp: MAV_start_def MAV_new_def mav_start_def intro!: lawful_connect lawful_same [OF lawful_refl])
  moreover from this have "lawful (mv_connection (MAV_start env0 (MAV_new K (App_MavParams cfg) ta))) (mv_connection m)"
    using cfg alts by (intro lawful_run [OF assms(2)])
      (simp_all add: lawful_def ps limits_ok_def App_MavParams_def cfg_altitudes_ok_def)
  ultimately have "lawful ?c0 (mv_connection m)" by (rule lawful_trans)
  then show ?thesis by (auto simp: lawful_def does_def ps App_MavParams_def list_all_iff)
qed

text \<open>A takeoff that the autopilot asks for, from a search over an unbounded sweep width.\<close>

definition derived_env :: "u64 \<Rightarrow> mav_os" where
  "derived_env ts = (sample_mav_env ts)\<lparr>me_search := (\<lambda>_. sample_search\<lparr>ss_altitude := Some 100\<rparr>)\<rparr>"

definition derived_session :: "session_input list" where
  "derived_session =
     [S_link (Link_recv (derived_env 2000) (from_autopilot (In_heartbeat 1 0))), S_load (derived_env 2100) 0,
      S_link (Link_recv (derived_env 2200) (from_autopilot (In_mission_request_int SYS_ID COMP_ID 1 0)))]"

fun sent_altitude :: "mav_out \<Rightarrow> int option" where
  "sent_altitude (Sent msg) = altitude_of msg"
| "sent_altitude _ = None"

lemma derived_session_runs:
  "map_option (\<lambda>m. List.map_filter sent_altitude (mc_out (mv_connection m)))
     (session_run derived_session (MAV_start (derived_env 1000) (MAV_new sample_consts (App_MavParams sample_config)
        terminate_disarm))) = Some [100]"
  by code_simp

lemma derived_env_searches: "searches_derived (App_SMM sample_config) (derived_env ts)"
proof -
  have "ss_altitude (SMMSearch_new (\<lambda>_. Fin 1) h wps PInf 100 100 (Fin 60)) = Some 100" for h wps
    using rnd_of_int [of 2] by (simp add: SMMSearch_new_def case_prod_unfold Let_def raw_search_altitude_def clamp_search_altitude_def
        dbl_of_u16_def dgt_def)
  then have "\<exists>tan_fn h wps w. Some 100 = ss_altitude (SMMSearch_new tan_fn h wps w 100 100 (Fin 60))"
    by metis
  then show ?thesis
    by (simp add: searches_derived_def derived_by_def derived_env_def App_SMM_def SMM_init_def sample_config_def
        FmuConfig_default_def)
qed

theorem altitude_envelope_witness:
  "\<exists>m. session_run derived_session (MAV_start (derived_env 1000) (MAV_new sample_consts (App_MavParams sample_config)
          terminate_disarm)) = Some m \<and> list_all (inside 100 100) (mc_out (mv_connection m)) \<and>
       List.map_filter sent_altitude (mc_out (mv_connection m)) = [100]"
proof -
  obtain m where m: "session_run derived_session (MAV_start (derived_env 1000) (MAV_new sample_consts
      (App_MavParams sample_config) terminate_disarm)) = Some m"
    "List.map_filter sent_altitude (mc_out (mv_connection m)) = [100]"
    using derived_session_runs by auto
  have "list_all (\<lambda>i. searches_derived (App_SMM sample_config) (input_env i)) derived_session"
    by (simp add: derived_session_def derived_env_searches)
  from altitude_envelope [OF sample_file_loads m(1) this] m show ?thesis
    by (simp add: sample_config_def)
qed

end
