(* ===== verification/Mav_Dial.thy ===== *)
theory Mav_Dial
  imports Mav_Upload
begin

text \<open>
  Dialling the autopilot: the addresses a name resolves to, \<open>src/mav/addr-resolve.hpp\<close>, and
  the resolution, the bounded connect and the loop over the addresses in
  \<open>src/mav/mavlink.cpp\<close>. The layout of the system's socket addresses and what the system
  calls return are arguments. \<open>Mav_Session\<close> uses the outcome of each address only; the
  dial here is what it stands for.
\<close>

section \<open>Addresses\<close>

text \<open>
  The system headers: the address families, the sizes of the address structures, the offset
  of the port (which is the same in both), how the family reads from the bytes before the
  port, and \<open>inet_ntop\<close>.
\<close>

record sock_abi =
  AF_INET :: int
  AF_INET6 :: int
  sizeof_in :: nat
  sizeof_in6 :: nat
  sizeof_storage :: nat
  port_offset :: nat
  family_of :: "u8 list \<Rightarrow> int"
  ntop :: "int \<Rightarrow> u8 list \<Rightarrow> string option"

type_synonym sockaddr_storage = "u8 list"

definition ss_family :: "sock_abi \<Rightarrow> sockaddr_storage \<Rightarrow> int" where
  "ss_family A sa = family_of A (take (port_offset A) sa)"

definition sockaddr_len_for_family :: "sock_abi \<Rightarrow> int \<Rightarrow> nat" where
  "sockaddr_len_for_family A family =
     (if family = AF_INET A then sizeof_in A
      else if family = AF_INET6 A then sizeof_in6 A
      else 0)"

text \<open>\<open>htons\<close> and \<open>ntohs\<close>: the port in network order.\<close>

definition write_port :: "sock_abi \<Rightarrow> u16 \<Rightarrow> sockaddr_storage \<Rightarrow> sockaddr_storage" where
  "write_port A port sa = sa[port_offset A := ucast (drop_bit 8 port), port_offset A + 1 := ucast port]"

definition read_port :: "sock_abi \<Rightarrow> sockaddr_storage \<Rightarrow> nat" where
  "read_port A sa = 256 * unat (sa ! port_offset A) + unat (sa ! (port_offset A + 1))"

definition set_sockaddr_port :: "sock_abi \<Rightarrow> u16 \<Rightarrow> sockaddr_storage \<Rightarrow> sockaddr_storage \<times> bool" where
  "set_sockaddr_port A port sa =
     (if ss_family A sa = AF_INET A then (write_port A port sa, True)
      else if ss_family A sa = AF_INET6 A then (write_port A port sa, True)
      else (sa, False))"

text \<open>A result of the resolver; its address has as many bytes as it says.\<close>

record addrinfo =
  ai_addr :: "u8 list option"
  ai_addrlen :: nat

fun sockaddr_endpoints :: "sock_abi \<Rightarrow> addrinfo list \<Rightarrow> u16 \<Rightarrow> sockaddr_storage list" where
  "sockaddr_endpoints A [] port = []"
| "sockaddr_endpoints A (cur # rest) port =
     (case ai_addr cur of
        None \<Rightarrow> sockaddr_endpoints A rest port
      | Some bytes \<Rightarrow>
          if ai_addrlen cur = 0 \<or> ai_addrlen cur > sizeof_storage A then sockaddr_endpoints A rest port
          else let sa = take (ai_addrlen cur) bytes @ replicate (sizeof_storage A - ai_addrlen cur) 0
            in if sockaddr_len_for_family A (ss_family A sa) = 0 \<or> \<not> snd (set_sockaddr_port A port sa)
               then sockaddr_endpoints A rest port
               else fst (set_sockaddr_port A port sa) # sockaddr_endpoints A rest port)"

definition describe_sockaddr :: "sock_abi \<Rightarrow> sockaddr_storage \<Rightarrow> string" where
  "describe_sockaddr A sa =
     (if ss_family A sa = AF_INET A then
        (case ntop A (AF_INET A) sa of
           None \<Rightarrow> ''<unknown>''
         | Some host \<Rightarrow> host @ '':'' @ to_string_int (int (read_port A sa)))
      else if ss_family A sa = AF_INET6 A then
        (case ntop A (AF_INET6 A) sa of
           None \<Rightarrow> ''<unknown>''
         | Some host \<Rightarrow> ''['' @ host @ '']:'' @ to_string_int (int (read_port A sa)))
      else ''<unknown>'')"

section \<open>Resolving and connecting\<close>

datatype dial_op =
    Dial_resolve_failed string int
  | Dial_no_usable_address string
  | Dial_connect_timed_out string
  | Dial_error string
  | Dial_open nat
  | Dial_close nat
  | Dial_trying_more string nat nat

definition resolve_mav_endpoints ::
  "sock_abi \<Rightarrow> int + addrinfo list \<Rightarrow> string \<Rightarrow> u16 \<Rightarrow> sockaddr_storage list \<times> dial_op list" where
  "resolve_mav_endpoints A gai addr port =
     (case gai of
        Inl rc \<Rightarrow> ([], [Dial_resolve_failed addr rc])
      | Inr ai \<Rightarrow>
          (let endpoints = sockaddr_endpoints A ai port
           in (endpoints, if endpoints = [] then [Dial_no_usable_address addr] else [])))"

text \<open>
  What the system calls of one connect return. The clock is in nanoseconds; each pass of the
  wait reads it and polls.
\<close>

datatype connect_result = Connect_ok | Connect_in_progress | Connect_failed

datatype poll_result = Poll_ready | Poll_timeout | Poll_eintr | Poll_error

record connect_os =
  co_getfl :: bool
  co_setfl :: bool
  co_connect :: connect_result
  co_start_ns :: int
  co_polls :: "(int \<times> poll_result) list"
  co_so_error :: "int option"
  co_restore :: bool

datatype wait_result = Wait_ready | Wait_timed_out | Wait_error

text \<open>
  The milliseconds that are left, and the timeouts that \<open>poll\<close> is called with. A script that
  is used up has no result yet.
\<close>

definition remaining_ms :: "int \<Rightarrow> int \<Rightarrow> int" where
  "remaining_ms deadline_ns now_ns = (deadline_ns - now_ns) div 1000000"

fun poll_loop :: "int \<Rightarrow> (int \<times> poll_result) list \<Rightarrow> int list \<times> wait_result option" where
  "poll_loop deadline [] = ([], None)"
| "poll_loop deadline ((now, r) # rest) =
     (let remaining = remaining_ms deadline now
      in if remaining \<le> 0 then ([], Some Wait_timed_out)
         else case r of
           Poll_eintr \<Rightarrow> (case poll_loop deadline rest of (ts, w) \<Rightarrow> (remaining # ts, w))
         | Poll_error \<Rightarrow> ([remaining], Some Wait_error)
         | Poll_timeout \<Rightarrow> ([remaining], Some Wait_timed_out)
         | Poll_ready \<Rightarrow> ([remaining], Some Wait_ready))"

definition connect_deadline :: "u32 \<Rightarrow> connect_os \<Rightarrow> int" where
  "connect_deadline connect_timeout_ms os = co_start_ns os + uint connect_timeout_ms * 1000000"

definition connectWithTimeout :: "u32 \<Rightarrow> string \<Rightarrow> connect_os \<Rightarrow> (bool \<times> dial_op list) option" where
  "connectWithTimeout connect_timeout_ms target os =
     (if \<not> co_getfl os \<or> \<not> co_setfl os
      then Some (False, [Dial_error ''Failed to set MAV socket non-blocking for connect''])
      else if co_connect os = Connect_failed then Some (False, [Dial_error (''Failed to connect to '' @ target)])
      else (case snd (poll_loop (connect_deadline connect_timeout_ms os) (co_polls os)) of
          None \<Rightarrow> None
        | Some Wait_timed_out \<Rightarrow> Some (False, [Dial_connect_timed_out target])
        | Some Wait_error \<Rightarrow> Some (False, [Dial_error ''poll() failed while connecting to MAV''])
        | Some Wait_ready \<Rightarrow>
            if co_so_error os \<noteq> Some 0 then Some (False, [Dial_error (''Failed to connect to '' @ target)])
            else if \<not> co_restore os
            then Some (False, [Dial_error ''Failed to restore MAV socket to blocking mode after connect''])
            else Some (True, [])))"

text \<open>One address: what \<open>socket\<close> returns for it, and the connect.\<close>

record dial_attempt =
  da_socket :: "nat option"
  da_connect :: connect_os

definition dial_one ::
  "u32 \<Rightarrow> string \<Rightarrow> dial_attempt \<Rightarrow> (nat option \<times> dial_op list) option" where
  "dial_one connect_timeout_ms target att =
     (case da_socket att of
        None \<Rightarrow> Some (None, [Dial_error (''Failed to create MAV socket for '' @ target)])
      | Some sock \<Rightarrow>
          (case connectWithTimeout connect_timeout_ms target (da_connect att) of
             None \<Rightarrow> None
           | Some (True, ops) \<Rightarrow> Some (Some sock, Dial_open sock # ops)
           | Some (False, ops) \<Rightarrow> Some (None, Dial_open sock # ops @ [Dial_close sock])))"

fun dial_loop ::
  "sock_abi \<Rightarrow> u32 \<Rightarrow> string \<Rightarrow> nat \<Rightarrow> (sockaddr_storage \<times> dial_attempt) list \<Rightarrow> (nat option \<times> dial_op list) option" where
  "dial_loop A connect_timeout_ms addr tot [] = Some (None, [])"
| "dial_loop A connect_timeout_ms addr tot ((remote, att) # rest) =
     (let target = addr @ '' ('' @ describe_sockaddr A remote @ '')''
      in case dial_one connect_timeout_ms target att of
           None \<Rightarrow> None
         | Some (Some fd, ops) \<Rightarrow> Some (Some fd, ops)
         | Some (None, ops) \<Rightarrow>
             (case dial_loop A connect_timeout_ms addr tot rest of
                None \<Rightarrow> None
              | Some (fd, ops') \<Rightarrow>
                  Some (fd, ops @ (if rest \<noteq> [] then [Dial_trying_more target (length rest) tot] else []) @ ops')))"

text \<open>The options of the connected socket, times in seconds and microseconds.\<close>

datatype sock_option = SO_RCVTIMEO int int | SO_SNDTIMEO int int | TCP_USER_TIMEOUT u32

definition dial_options :: "u32 \<Rightarrow> sock_option list" where
  "dial_options send_timeout_ms =
     [SO_RCVTIMEO 1 0,
      SO_SNDTIMEO (uint (send_timeout_ms div 1000)) (uint (send_timeout_ms mod 1000 * 1000)),
      TCP_USER_TIMEOUT send_timeout_ms]"

lemma dial_options_exact:
  "SO_SNDTIMEO sec usec \<in> set (dial_options ms) \<Longrightarrow> sec * 1000000 + usec = uint ms * 1000 \<and> usec < 1000000"
proof -
  assume "SO_SNDTIMEO sec usec \<in> set (dial_options ms)"
  then have u: "sec = uint ms div 1000" "usec = uint (ms mod 1000 * 1000)"
    by (simp_all add: dial_options_def uint_div_distrib)
  have m: "uint ms mod 1000 < 1000" "0 \<le> uint ms mod 1000" by simp_all
  then have "usec = uint ms mod 1000 * 1000"
    using u(2) by (simp add: uint_word_ariths uint_mod_distrib)
  then show ?thesis using u(1) m div_mult_mod_eq [of "uint ms" 1000] by linarith
qed

section \<open>Lemmas on addresses\<close>

lemma ss_family_write_port [simp]: "ss_family A (write_port A port sa) = ss_family A sa"
  by (simp add: ss_family_def write_port_def)

lemma length_write_port [simp]: "length (write_port A port sa) = length sa"
  by (simp add: write_port_def)

lemma port_bytes: "256 * unat (ucast (drop_bit 8 (p :: u16)) :: u8) + unat (ucast p :: u8) = unat p"
proof -
  have "unat p < 65536" using unsigned_less [of p] by simp
  then have "unat p div 256 mod 256 = unat p div 256" by simp
  moreover have "unat (p div 256) = unat p div 256" by (simp add: unat_div)
  ultimately show ?thesis
    by (simp add: unsigned_ucast_eq drop_bit_eq_div take_bit_eq_mod)
qed

lemma read_write_port:
  "port_offset A + 1 < length sa \<Longrightarrow> read_port A (write_port A port sa) = unat port"
  using port_bytes [of port] by (simp add: read_port_def write_port_def)

text \<open>A result that can be dialled, and the address it gives.\<close>

definition usable :: "sock_abi \<Rightarrow> addrinfo \<Rightarrow> sockaddr_storage option" where
  "usable A cur =
     (case ai_addr cur of
        None \<Rightarrow> None
      | Some bytes \<Rightarrow>
          let sa = take (ai_addrlen cur) bytes @ replicate (sizeof_storage A - ai_addrlen cur) 0
          in if 0 < ai_addrlen cur \<and> ai_addrlen cur \<le> sizeof_storage A \<and>
                (ss_family A sa = AF_INET A \<or> ss_family A sa = AF_INET6 A)
             then Some sa else None)"

lemma sockaddr_endpoints_usable:
  assumes "0 < sizeof_in A" and "0 < sizeof_in6 A"
  shows "sockaddr_endpoints A ai port = map (write_port A port) (List.map_filter (usable A) ai)"
  using assms
  by (induction ai)
     (auto simp: usable_def set_sockaddr_port_def sockaddr_len_for_family_def Let_def List.map_filter_simps
       split: option.split)

text \<open>Every address that is dialled has the configured port and a family whose length is known.\<close>

lemma sockaddr_endpoints_dialable:
  assumes "sa \<in> set (sockaddr_endpoints A ai port)" and "0 < sizeof_in A" and "0 < sizeof_in6 A"
    and "port_offset A + 1 < sizeof_storage A"
    and "\<And>cur bytes. cur \<in> set ai \<Longrightarrow> ai_addr cur = Some bytes \<Longrightarrow> length bytes = ai_addrlen cur"
  shows "read_port A sa = unat port \<and> 0 < sockaddr_len_for_family A (ss_family A sa) \<and> length sa = sizeof_storage A"
proof -
  obtain cur sa0 where cur: "cur \<in> set ai" "usable A cur = Some sa0" "sa = write_port A port sa0"
    using assms(1) by (auto simp: sockaddr_endpoints_usable [OF assms(2,3)] List.map_filter_def)
  then have "length sa0 = sizeof_storage A" "ss_family A sa0 = AF_INET A \<or> ss_family A sa0 = AF_INET6 A"
    using assms(5) by (auto simp: usable_def Let_def split: option.splits if_splits)
  then show ?thesis
    using cur(3) assms(2-4) by (auto simp: read_write_port sockaddr_len_for_family_def)
qed

section \<open>The wait is bounded\<close>

text \<open>
  A wait never polls beyond its deadline: at the moment of each poll the timeout it is given
  ends before the deadline, and is at most the configured one when the clock is monotone.
\<close>

lemma poll_loop_within:
  assumes "poll_loop deadline script = (ts, w)"
  shows "list_all2 (\<lambda>t (now, r). 0 < t \<and> now + t * 1000000 \<le> deadline) ts (take (length ts) script)"
  using assms
proof (induction deadline script arbitrary: ts w rule: poll_loop.induct)
  case (2 deadline now r rest)
  have t: "now + remaining_ms deadline now * 1000000 \<le> deadline"
    using div_mult_mod_eq [of "deadline - now" 1000000] pos_mod_sign [of 1000000 "deadline - now"]
    unfolding remaining_ms_def by linarith
  show ?case
  proof (cases "remaining_ms deadline now \<le> 0 \<or> r \<noteq> Poll_eintr")
    case True
    then show ?thesis using 2(2) t by (auto simp: Let_def split: if_splits poll_result.splits)
  next
    case False
    then obtain ts1 where "poll_loop deadline rest = (ts1, w)" "ts = remaining_ms deadline now # ts1"
      using 2(2) by (auto simp: Let_def split: prod.splits)
    then show ?thesis using 2(1) [OF refl] False t by auto
  qed
qed simp

section \<open>The dial\<close>

fun opened_fds :: "dial_op list \<Rightarrow> nat list" where
  "opened_fds [] = []" | "opened_fds (Dial_open n # ops) = n # opened_fds ops" | "opened_fds (_ # ops) = opened_fds ops"

fun closed_fds :: "dial_op list \<Rightarrow> nat list" where
  "closed_fds [] = []" | "closed_fds (Dial_close n # ops) = n # closed_fds ops" | "closed_fds (_ # ops) = closed_fds ops"

lemma opened_append [simp]: "opened_fds (xs @ ys) = opened_fds xs @ opened_fds ys"
  by (induction xs rule: opened_fds.induct) auto

lemma closed_append [simp]: "closed_fds (xs @ ys) = closed_fds xs @ closed_fds ys"
  by (induction xs rule: closed_fds.induct) auto

lemma connect_ops:
  "connectWithTimeout tmo target os = Some (ok, ops) \<Longrightarrow> opened_fds ops = [] \<and> closed_fds ops = []"
  by (auto simp: connectWithTimeout_def split: if_splits option.splits wait_result.splits)

lemma dial_one_balance:
  "dial_one tmo target att = Some (fd, ops) \<Longrightarrow> opened_fds ops = closed_fds ops @ (case fd of Some f \<Rightarrow> [f] | None \<Rightarrow> [])"
  by (auto simp: dial_one_def split: option.splits bool.splits dest!: connect_ops)

text \<open>The outcome of an address, as \<open>Mav_Session\<close> uses it.\<close>

definition attempt_result :: "u32 \<Rightarrow> dial_attempt \<Rightarrow> nat option" where
  "attempt_result tmo att =
     (case dial_one tmo [] att of Some (fd, _) \<Rightarrow> fd | None \<Rightarrow> None)"

lemma connect_target:
  "map_option fst (connectWithTimeout tmo target os) = map_option fst (connectWithTimeout tmo target' os)"
  by (auto simp: connectWithTimeout_def split: option.split wait_result.split)

lemma dial_one_target: "map_option fst (dial_one tmo target att) = map_option fst (dial_one tmo target' att)"
proof -
  have "map_option fst (connectWithTimeout tmo target (da_connect att)) = map_option fst (connectWithTimeout tmo target' (da_connect att))"
    by (rule connect_target)
  then show ?thesis
    by (cases "connectWithTimeout tmo target (da_connect att)"; cases "connectWithTimeout tmo target' (da_connect att)")
       (auto simp: dial_one_def split: option.split bool.split)
qed

lemma dial_one_result: "dial_one tmo target att = Some (fd, ops) \<Longrightarrow> fd = attempt_result tmo att"
  using dial_one_target [of tmo target att "[]"] by (cases "dial_one tmo [] att") (auto simp: attempt_result_def)

text \<open>C38: a dial tries the resolved addresses in order, keeps the first that connects and leaks no descriptor: whenever it returns, every socket it opened has been closed, except the one that it returns, which is the one that the abstract dial of the connection takes.\<close>

theorem dial_leaks_nothing:
  assumes "dial_loop A tmo addr tot atts = Some (fd, ops)"
  shows "opened_fds ops = closed_fds ops @ (case fd of Some f \<Rightarrow> [f] | None \<Rightarrow> []) \<and>
    fst (dial_endpoints (map (attempt_result tmo \<circ> snd) atts) c) = fd"
  using assms
proof (induction A tmo addr tot atts arbitrary: fd ops c rule: dial_loop.induct)
  case (2 A tmo addr tot remote att rest)
  let ?target = "addr @ '' ('' @ describe_sockaddr A remote @ '')''"
  obtain r ops1 where one: "dial_one tmo ?target att = Some (r, ops1)"
    using 2(2) by (auto simp: Let_def split: option.splits)
  note balance = dial_one_balance [OF one] dial_one_result [OF one]
  show ?case
  proof (cases r)
    case (Some f)
    then have "attempt_result tmo att = Some f" "fd = Some f" "ops = ops1"
      using 2(2) one balance(2) by (simp_all add: Let_def)
    then show ?thesis using balance(1) Some by simp
  next
    case None
    obtain ops2 where "dial_loop A tmo addr tot rest = Some (fd, ops2)"
      "ops = ops1 @ (if rest \<noteq> [] then [Dial_trying_more ?target (length rest) tot] else []) @ ops2"
      using 2(2) one None by (auto simp: Let_def split: option.splits)
    then show ?thesis
      using 2(1) [OF refl one] None balance(1) balance(2) [symmetric] by auto
  qed
qed simp

text \<open>Linux on a little-endian machine; a first address that times out and a second that connects.\<close>

definition sample_abi :: sock_abi where
  "sample_abi = \<lparr>AF_INET = 2, AF_INET6 = 10, sizeof_in = 16, sizeof_in6 = 28, sizeof_storage = 128, port_offset = 2,
     family_of = (\<lambda>bs. uint (bs ! 0) + 256 * uint (bs ! 1)), ntop = (\<lambda>_ _. None)\<rparr>"

definition sample_attempts :: "(sockaddr_storage \<times> dial_attempt) list" where
  "sample_attempts =
     (let os = \<lparr>co_getfl = True, co_setfl = True, co_connect = Connect_in_progress, co_start_ns = 0,
                co_polls = [(1000000, Poll_eintr), (2000000, Poll_timeout)], co_so_error = Some 0, co_restore = True\<rparr>;
          v6 = [10, 0] @ replicate 126 0; v4 = [2, 0] @ replicate 126 0
      in [(v6, \<lparr>da_socket = Some 5, da_connect = os\<rparr>),
          (v4, \<lparr>da_socket = Some 6, da_connect = os\<lparr>co_polls := [(3000000, Poll_ready)]\<rparr>\<rparr>)])"

lemma sample_dial:
  "dial_loop sample_abi 5000 ''mav'' 2 sample_attempts =
     Some (Some 6, [Dial_open 5, Dial_connect_timed_out ''mav (<unknown>)'', Dial_close 5,
       Dial_trying_more ''mav (<unknown>)'' 1 2, Dial_open 6])"
  by code_simp

theorem dial_leaks_nothing_witness:
  "opened_fds [Dial_open 5, Dial_connect_timed_out ''mav (<unknown>)'', Dial_close 5,
     Dial_trying_more ''mav (<unknown>)'' 1 2, Dial_open 6] = [5, 6] \<and>
   fst (dial_endpoints (map (attempt_result 5000 \<circ> snd) sample_attempts)
     (mav_connection_init sample_consts MavParams_default terminate_none)) = Some 6"
  using dial_leaks_nothing [OF sample_dial] by simp

end
