(* ===== verification/Dispatcher.thy ===== *)
theory Dispatcher
  imports State_Machine
begin

text \<open>
  The event loop's routing policy, \<open>src/event-dispatcher.cpp\<close>, \<open>src/event-dispatcher.hpp\<close>
  and \<open>src/event.hpp\<close>: which event reaches the state machine, which outcome of the search
  worker is gated on the state, and the rate limit of the ADS-B rebroadcast. The calls on the
  interfaces \<open>IMAV\<close>, \<open>ISMM\<close>, \<open>IFSSReporter\<close> and the log are the output of a dispatch.
\<close>

section \<open>Events\<close>

text \<open>A responder is named by the epoch it carries, a search by its object.\<close>

datatype event =
    FSSCommandEvent FSSCommand FSSCommandTarget "u64 option"
  | FSSCommsStatusEvent FSSCommsStatus
  | MavCommsStatusEvent MavCommsStatus
  | MavAutopilotRestart
  | SMMSettingsEvent SMMSettings
  | PositionDataEvent PositionData
  | BatteryDataEvent BatteryData
  | ReachedPoint int
  | OtherAircraftReport PositionData
  | SmmLoadSearch nat
  | SmmRtl
  | SmmOperatorCommand SMMCommand
  | Nudge

datatype disp_call =
    D_fmu fmu_call
  | D_log LogLevel string
  | D_postAck u64 FSSCommandResolution
  | D_smm_connect string string string string
  | D_fss_reportPosition PositionData
  | D_smm_reportPosition PositionData
  | D_fss_reachedPoint int int
  | D_smm_reachedPoint int
  | D_loadSearch nat
  | D_fss_reportBatteryStatus BatteryData
  | D_sendADSB PositionData

section \<open>State\<close>

definition adsb_forward_interval_ms :: u64 where
  "adsb_forward_interval_ms = 1000"

record EventDispatcher =
  state_machine :: fmu
  asset_name :: string
  lowbat_threshold :: int
  adsb_last_forwarded_ms :: "u32 \<Rightarrow> u64 option"

definition EventDispatcher_init :: "fmu \<Rightarrow> string \<Rightarrow> int \<Rightarrow> EventDispatcher" where
  "EventDispatcher_init sm t_asset_name t_lowbat_threshold =
     \<lparr>state_machine = setStateChangeCB True sm, asset_name = t_asset_name,
      lowbat_threshold = t_lowbat_threshold, adsb_last_forwarded_ms = (\<lambda>_. None)\<rparr>"

text \<open>What the interfaces answer while an event is dispatched.\<close>

record disp_env =
  de_mav :: mav_env
  de_now :: u64
  de_currentSearchPoints :: int

section \<open>Dispatch\<close>

text \<open>The state-change callback that the dispatcher installs writes a log line.\<close>

fun of_fmu_call :: "fmu_call \<Rightarrow> disp_call" where
  "of_fmu_call (Call_state_change st) = D_log log_info (''STATE '' @ fmu_state_name st)"
| "of_fmu_call c = D_fmu c"

definition run_fmu :: "fmu \<times> fmu_call list \<Rightarrow> EventDispatcher \<Rightarrow> EventDispatcher \<times> disp_call list" where
  "run_fmu r d = (d\<lparr>state_machine := fst r\<rparr>, map of_fmu_call (snd r))"

definition pruneAdsbThrottle :: "u64 \<Rightarrow> (u32 \<Rightarrow> u64 option) \<Rightarrow> u32 \<Rightarrow> u64 option" where
  "pruneAdsbThrottle now m =
     (\<lambda>k. case m k of
            Some t \<Rightarrow> if now - t \<ge> adsb_forward_interval_ms then None else Some t
          | None \<Rightarrow> None)"

definition adsb_may_forward :: "u64 \<Rightarrow> u64 option \<Rightarrow> bool" where
  "adsb_may_forward now entry =
     (case entry of None \<Rightarrow> True | Some t \<Rightarrow> now - t \<ge> adsb_forward_interval_ms)"

definition dispatch_other_aircraft ::
  "u64 \<Rightarrow> PositionData \<Rightarrow> EventDispatcher \<Rightarrow> EventDispatcher \<times> disp_call list" where
  "dispatch_other_aircraft now pd d =
     (if pd_callsign pd = asset_name d then (d, [])
      else if \<not> Point_isValid (pd_p pd)
      then (d, [D_log log_debug ''ADSB: dropping a peer report with an invalid coordinate''])
      else let icao = pd_icaoaddress pd; m = adsb_last_forwarded_ms d;
               forward = adsb_may_forward now (m icao);
               m1 = (if forward then m(icao \<mapsto> now) else m)
        in (d\<lparr>adsb_last_forwarded_ms := pruneAdsbThrottle now m1\<rparr>, if forward then [D_sendADSB pd] else []))"

fun dispatch :: "disp_env \<Rightarrow> event \<Rightarrow> EventDispatcher \<Rightarrow> EventDispatcher \<times> disp_call list" where
  "dispatch env (FSSCommandEvent cmd target ack) d =
     (case FSSNewCommand (de_mav env) cmd target (state_machine d) of
        (r, res) \<Rightarrow> (case run_fmu r d of
          (d1, calls) \<Rightarrow>
            (d1, [D_log log_info (''CMD fss '' @ fss_cmd_name cmd)] @ calls @
                 (case ack of Some e \<Rightarrow> [D_postAck e res] | None \<Rightarrow> []))))"
| "dispatch env (FSSCommsStatusEvent status) d =
     (case run_fmu (setCommsFailure (de_mav env) (status = fss_comms_failure) (state_machine d)) d of
        (d1, calls) \<Rightarrow>
          (d1, [D_log log_info (''COMMS fss '' @ (if status = fss_comms_failure then ''failure'' else ''okay''))] @ calls))"
| "dispatch env (MavCommsStatusEvent status) d =
     (case run_fmu (setMavCommsFailure (de_mav env) (status = mav_comms_status_failure) (state_machine d)) d of
        (d1, calls) \<Rightarrow>
          (d1, [D_log log_info (''COMMS mav '' @ (if status = mav_comms_status_failure then ''failure'' else ''okay''))]
               @ calls))"
| "dispatch env MavAutopilotRestart d =
     (case run_fmu (reassertState (de_mav env) (state_machine d)) d of
        (d1, calls) \<Rightarrow> (d1, [D_log log_warning
          (''COMMS mav autopilot restart '' @ [CHR 0xE2, CHR 0x80, CHR 0x94] @ '' re-applying commanded state'')] @ calls))"
| "dispatch env (SMMSettingsEvent settings) d =
     (d, [D_log log_info (''SMM connect '' @ smm_url settings),
          D_smm_connect (smm_url settings) (smm_settings_user settings) (smm_settings_pass settings) (asset_name d)])"
| "dispatch env (PositionDataEvent pd) d =
     (let fix_valid = (and (pd_flags pd) POSITION_FLAG_VALID_COORDS \<noteq> 0)
      in (case run_fmu (setCurrentAltitude (de_mav env) fix_valid (pd_alt_agl_m pd) (state_machine d)) d of
            (d1, calls) \<Rightarrow> (d1, calls @ [D_fss_reportPosition pd, D_smm_reportPosition pd])))"
| "dispatch env (ReachedPoint pt) d =
     (if isSearching (state_machine d)
      then (d, [D_log log_info (''WAYPOINT '' @ to_string_int pt),
                D_fss_reachedPoint pt (de_currentSearchPoints env), D_smm_reachedPoint pt])
      else (d, []))"
| "dispatch env (SmmLoadSearch search) d =
     (if isSearching (state_machine d) then (d, [D_loadSearch search])
      else if isWaitingForTasking (state_machine d)
      then run_fmu (SMMNewCommand (de_mav env) smm_cmd_none (state_machine d)) d
      else (d, []))"
| "dispatch env SmmRtl d =
     (case run_fmu (SMMNewCommand (de_mav env) smm_cmd_mission_complete (state_machine d)) d of
        (d1, calls) \<Rightarrow> (d1, [D_log log_info ''CMD smm rtl''] @ calls))"
| "dispatch env (SmmOperatorCommand cmd) d =
     (case run_fmu (SMMNewCommand (de_mav env) cmd (state_machine d)) d of
        (d1, calls) \<Rightarrow> (d1, [D_log log_info (''CMD smm '' @ smm_cmd_name cmd)] @ calls))"
| "dispatch env (BatteryDataEvent bd) d =
     (let remaining = sint (bd_remaining bd);
          low = (remaining \<ge> 0 \<and> remaining < lowbat_threshold d)
      in (case run_fmu (setLowBattery (de_mav env) low (state_machine d)) d of
            (d1, calls) \<Rightarrow>
              (d1, (if low then [D_log log_info (''BATTERY low '' @ to_string_int remaining @ ''%'')] else []) @
                   calls @ [D_fss_reportBatteryStatus bd])))"
| "dispatch env (OtherAircraftReport pd) d = dispatch_other_aircraft (de_now env) pd d"
| "dispatch env Nudge d = (d, [])"

definition adsbThrottleEntries :: "EventDispatcher \<Rightarrow> nat" where
  "adsbThrottleEntries d = card (dom (adsb_last_forwarded_ms d))"

section \<open>The rate limit\<close>

lemma other_aircraft_entry:
  "adsb_last_forwarded_ms (fst (dispatch_other_aircraft now pd d)) k =
     (if pd_callsign pd = asset_name d \<or> \<not> Point_isValid (pd_p pd) then adsb_last_forwarded_ms d k
      else if k = pd_icaoaddress pd \<and> adsb_may_forward now (adsb_last_forwarded_ms d k) then Some now
      else case adsb_last_forwarded_ms d k of
        Some t \<Rightarrow> if now - t \<ge> adsb_forward_interval_ms then None else Some t | None \<Rightarrow> None)"
  by (auto simp: dispatch_other_aircraft_def pruneAdsbThrottle_def adsb_may_forward_def adsb_forward_interval_ms_def
      Let_def split: option.splits)

definition forwards :: "u32 \<Rightarrow> u64 \<times> PositionData \<Rightarrow> EventDispatcher \<Rightarrow> bool" where
  "forwards k r d \<longleftrightarrow> pd_icaoaddress (snd r) = k \<and> D_sendADSB (snd r) \<in> set (snd (dispatch_other_aircraft (fst r) (snd r) d))"

lemma forwards_iff:
  "forwards k (now, pd) d \<longleftrightarrow> pd_icaoaddress pd = k \<and> pd_callsign pd \<noteq> asset_name d \<and> Point_isValid (pd_p pd) \<and>
     adsb_may_forward now (adsb_last_forwarded_ms d k)"
  by (auto simp: forwards_def dispatch_other_aircraft_def Let_def)

lemma interval_elapsed:
  "uint t \<le> uint (now :: u64) \<Longrightarrow> adsb_forward_interval_ms \<le> now - t \<longleftrightarrow> uint t + 1000 \<le> uint now"
  by (simp add: adsb_forward_interval_ms_def word_le_def uint_sub_if') linarith

interpretation adsb: throttle "\<lambda>r d. fst (dispatch_other_aircraft (fst r) (snd r) d)" "\<lambda>r. uint (fst r)"
    "\<lambda>r d. forwards k r d" "\<lambda>d. map_option uint (adsb_last_forwarded_ms d k)" 1000 for k
proof unfold_locales
  fix r :: "u64 \<times> PositionData" and d and t
  obtain now pd where r: "r = (now, pd)" by (cases r)
  { assume "forwards k r d"
    then show "map_option uint (adsb_last_forwarded_ms (fst (dispatch_other_aircraft (fst r) (snd r) d)) k) =
        Some (uint (fst r))"
      by (auto simp: r forwards_iff other_aircraft_entry)
  next
    assume "forwards k r d" "map_option uint (adsb_last_forwarded_ms d k) = Some t" "t \<le> uint (fst r)"
    then show "t + 1000 \<le> uint (fst r)"
      using interval_elapsed by (auto simp: r forwards_iff adsb_may_forward_def)
  next
    assume "\<not> forwards k r d" "map_option uint (adsb_last_forwarded_ms d k) = Some t" "t \<le> uint (fst r)"
    then show "map_option uint (adsb_last_forwarded_ms (fst (dispatch_other_aircraft (fst r) (snd r) d)) k) = Some t \<or>
        map_option uint (adsb_last_forwarded_ms (fst (dispatch_other_aircraft (fst r) (snd r) d)) k) = None \<and>
        t + 1000 \<le> uint (fst r)"
      using interval_elapsed by (auto simp: r forwards_iff other_aircraft_entry split: if_splits)
  next
    assume "\<not> forwards k r d" "map_option uint (adsb_last_forwarded_ms d k) = None"
    then show "map_option uint (adsb_last_forwarded_ms (fst (dispatch_other_aircraft (fst r) (snd r) d)) k) = None"
      by (auto simp: r forwards_iff other_aircraft_entry adsb_may_forward_def split: option.splits)
  }
qed

section \<open>What the rate limit means\<close>

text \<open>
  A series of peer reports, each with the clock at which it is dispatched: the times at which
  one address is forwarded, and the reports that are forwarded.
\<close>

fun forward_times :: "u32 \<Rightarrow> EventDispatcher \<Rightarrow> (u64 \<times> PositionData) list \<Rightarrow> int list" where
  "forward_times k d [] = []"
| "forward_times k d ((now, pd) # rs) =
     (case dispatch_other_aircraft now pd d of
        (d1, out) \<Rightarrow> (if pd_icaoaddress pd = k \<and> D_sendADSB pd \<in> set out then [uint now] else []) @ forward_times k d1 rs)"

lemma forwards_pair:
  "forwards k (now, pd) d \<longleftrightarrow> pd_icaoaddress pd = k \<and> D_sendADSB pd \<in> set (snd (dispatch_other_aircraft now pd d))"
  by (simp add: forwards_def)

lemma forward_times_fire: "forward_times k d rs = adsb.fire_times k d rs"
proof (induction rs arbitrary: d)
  case (Cons r rs)
  then show ?case by (cases r) (simp add: forwards_pair case_prod_unfold)
qed simp

text \<open>On a monotone clock the autopilot gets at most one ADS-B report per address and second, however fast peers report and however the table of addresses is pruned.\<close>

lemma adsb_forwards_spaced:
  assumes "sorted (map (\<lambda>r. uint (fst r)) rs)"
  shows "sorted_wrt (\<lambda>a b. a + 1000 \<le> b) (forward_times k (EventDispatcher_init sm name threshold) rs)"
  unfolding forward_times_fire using assms by (intro adsb.spaced) (auto simp: EventDispatcher_init_def)

definition sample_peer :: PositionData where
  "sample_peer = PositionData_peer (Fin 1) (Fin 2) (Fin 300) 0 0 0 ''ZK-ABC'' 0 77 0 0 0 0"

lemma adsb_forwards_spaced_witness:
  "sorted_wrt (\<lambda>a b. a + 1000 \<le> b) (forward_times 77 (EventDispatcher_init (FMUStateMachine_init 4 122 5) ''uav'' 20)
     [(5000, sample_peer), (5400, sample_peer), (6100, sample_peer)])"
  by (rule adsb_forwards_spaced) simp

text \<open>The same dispatch with a table that is never pruned.\<close>

definition dispatch_unpruned :: "u64 \<Rightarrow> PositionData \<Rightarrow> EventDispatcher \<Rightarrow> EventDispatcher \<times> disp_call list" where
  "dispatch_unpruned now pd d =
     (if pd_callsign pd = asset_name d \<or> \<not> Point_isValid (pd_p pd) then (d, snd (dispatch_other_aircraft now pd d))
      else let m = adsb_last_forwarded_ms d; icao = pd_icaoaddress pd
        in if adsb_may_forward now (m icao) then (d\<lparr>adsb_last_forwarded_ms := m(icao \<mapsto> now)\<rparr>, [D_sendADSB pd])
           else (d, []))"

fun outputs_of ::
  "(u64 \<Rightarrow> PositionData \<Rightarrow> EventDispatcher \<Rightarrow> EventDispatcher \<times> disp_call list) \<Rightarrow> EventDispatcher
   \<Rightarrow> (u64 \<times> PositionData) list \<Rightarrow> disp_call list list" where
  "outputs_of f d [] = []"
| "outputs_of f d ((now, pd) # rs) = (case f now pd d of (d1, out) \<Rightarrow> out # outputs_of f d1 rs)"

text \<open>The pruned table lacks only entries that can no longer suppress a forward.\<close>

definition entry_sim :: "u64 \<Rightarrow> u64 option \<Rightarrow> u64 option \<Rightarrow> bool" where
  "entry_sim now a b \<longleftrightarrow> (a = b \<or> a = None \<and> adsb_may_forward now b) \<and> (\<forall>t. b = Some t \<longrightarrow> t \<le> now)"

definition prune_sim :: "u64 \<Rightarrow> EventDispatcher \<Rightarrow> EventDispatcher \<Rightarrow> bool" where
  "prune_sim now d e \<longleftrightarrow> asset_name d = asset_name e \<and>
     (\<forall>k. entry_sim now (adsb_last_forwarded_ms d k) (adsb_last_forwarded_ms e k))"

lemma may_forward_later:
  assumes "adsb_may_forward now entry" and "now \<le> now'" and "\<And>t. entry = Some t \<Longrightarrow> t \<le> now"
  shows "adsb_may_forward now' entry"
proof (cases entry)
  case (Some t)
  then show ?thesis using assms clock_diff_mono [of t now now'] by (simp add: adsb_may_forward_def)
qed (simp add: adsb_may_forward_def)

lemma entry_sim_later: "entry_sim now a b \<Longrightarrow> now \<le> now' \<Longrightarrow> entry_sim now' a b"
  using may_forward_later [of now b now'] by (auto simp: entry_sim_def)

lemma prune_sim_later: "prune_sim now d e \<Longrightarrow> now \<le> now' \<Longrightarrow> prune_sim now' d e"
  unfolding prune_sim_def using entry_sim_later by blast

lemma entry_sim_may: "entry_sim now a b \<Longrightarrow> adsb_may_forward now a = adsb_may_forward now b"
  by (auto simp: entry_sim_def adsb_may_forward_def)

lemma entry_sim_pruned:
  "entry_sim now a b \<Longrightarrow>
   entry_sim now (case a of Some t \<Rightarrow> if now - t \<ge> adsb_forward_interval_ms then None else Some t | None \<Rightarrow> None) b"
  by (auto simp: entry_sim_def adsb_may_forward_def split: option.splits)

lemma unpruned_entry:
  "adsb_last_forwarded_ms (fst (dispatch_unpruned now pd e)) k =
     (if pd_callsign pd = asset_name e \<or> \<not> Point_isValid (pd_p pd) then adsb_last_forwarded_ms e k
      else if k = pd_icaoaddress pd \<and> adsb_may_forward now (adsb_last_forwarded_ms e k) then Some now
      else adsb_last_forwarded_ms e k)"
  by (auto simp: dispatch_unpruned_def Let_def)

lemma asset_name_kept [simp]:
  "asset_name (fst (dispatch_other_aircraft now pd d)) = asset_name d"
  "asset_name (fst (dispatch_unpruned now pd d)) = asset_name d"
  by (simp_all add: dispatch_other_aircraft_def dispatch_unpruned_def Let_def)

lemma prune_sim_step:
  assumes "prune_sim now d e"
  shows "snd (dispatch_other_aircraft now pd d) = snd (dispatch_unpruned now pd e) \<and>
    prune_sim now (fst (dispatch_other_aircraft now pd d)) (fst (dispatch_unpruned now pd e))"
proof -
  have name: "asset_name d = asset_name e" using assms by (simp add: prune_sim_def)
  have ent: "entry_sim now (adsb_last_forwarded_ms d k) (adsb_last_forwarded_ms e k)" for k
    using assms by (simp add: prune_sim_def)
  have may: "adsb_may_forward now (adsb_last_forwarded_ms d k) = adsb_may_forward now (adsb_last_forwarded_ms e k)" for k
    by (rule entry_sim_may [OF ent])
  have fresh: "entry_sim now (Some now) (Some now)" by (simp add: entry_sim_def)
  have "entry_sim now (adsb_last_forwarded_ms (fst (dispatch_other_aircraft now pd d)) k)
      (adsb_last_forwarded_ms (fst (dispatch_unpruned now pd e)) k)" for k
    unfolding other_aircraft_entry unpruned_entry may name
    using ent [of k] entry_sim_pruned [OF ent] fresh by (cases "k = pd_icaoaddress pd") auto
  then have "prune_sim now (fst (dispatch_other_aircraft now pd d)) (fst (dispatch_unpruned now pd e))"
    using name by (simp add: prune_sim_def)
  moreover have "snd (dispatch_other_aircraft now pd d) = snd (dispatch_unpruned now pd e)"
    using name may by (simp add: dispatch_other_aircraft_def dispatch_unpruned_def Let_def)
  ultimately show ?thesis by simp
qed

lemma outputs_sim:
  assumes "prune_sim now0 d e" and "sorted (uint now0 # map (\<lambda>r. uint (fst r)) rs)"
  shows "outputs_of dispatch_other_aircraft d rs = outputs_of dispatch_unpruned e rs"
  using assms
proof (induction rs arbitrary: now0 d e)
  case (Cons r rs)
  obtain now pd where r: "r = (now, pd)" by (cases r)
  have "now0 \<le> now" using Cons.prems(2) r by (simp add: word_le_def)
  note st = prune_sim_step [OF prune_sim_later [OF Cons.prems(1) this], of pd]
  then show ?case using Cons.IH [of now] Cons.prems(2) r st by (simp add: case_prod_unfold)
qed simp

text \<open>C33: pruning the table of addresses changes no forwarding decision: on a monotone clock the pruned and the unpruned dispatcher make the same calls on every report of every series, and after a report the pruned table holds only addresses forwarded within the last second.\<close>

theorem adsb_pruning_equivalent:
  assumes "sorted (map (\<lambda>r. uint (fst r)) rs)"
  shows "outputs_of dispatch_other_aircraft (EventDispatcher_init sm name threshold) rs =
      outputs_of dispatch_unpruned (EventDispatcher_init sm name threshold) rs \<and>
    (pd_callsign pd = asset_name d \<or> \<not> Point_isValid (pd_p pd) \<or>
     (\<forall>k t. adsb_last_forwarded_ms (fst (dispatch_other_aircraft now pd d)) k = Some t \<longrightarrow>
        now - t < adsb_forward_interval_ms))"
proof
  have "prune_sim 0 (EventDispatcher_init sm name threshold) (EventDispatcher_init sm name threshold)"
    by (simp add: prune_sim_def entry_sim_def EventDispatcher_init_def)
  then show "outputs_of dispatch_other_aircraft (EventDispatcher_init sm name threshold) rs =
      outputs_of dispatch_unpruned (EventDispatcher_init sm name threshold) rs"
  proof (rule outputs_sim)
    show "sorted (uint (0 :: u64) # map (\<lambda>r. uint (fst r)) rs)" using assms by simp
  qed
qed (auto simp: other_aircraft_entry adsb_forward_interval_ms_def split: if_splits option.splits)

theorem adsb_pruning_equivalent_witness:
  "outputs_of dispatch_other_aircraft (EventDispatcher_init (FMUStateMachine_init 4 122 5) ''uav'' 20)
     [(5000, sample_peer), (5400, sample_peer), (6100, sample_peer)] =
   outputs_of dispatch_unpruned (EventDispatcher_init (FMUStateMachine_init 4 122 5) ''uav'' 20)
     [(5000, sample_peer), (5400, sample_peer), (6100, sample_peer)]"
  by (rule adsb_pruning_equivalent [THEN conjunct1]) simp

section \<open>Gates\<close>

lemma of_fmu_call_image: "D_fmu c \<in> of_fmu_call ` A \<longleftrightarrow> c \<in> A \<and> (\<forall>st. c \<noteq> Call_state_change st)"
proof
  assume "D_fmu c \<in> of_fmu_call ` A"
  then obtain c' where "c' \<in> A" "D_fmu c = of_fmu_call c'" by auto
  then show "c \<in> A \<and> (\<forall>st. c \<noteq> Call_state_change st)" by (cases c') auto
next
  assume a: "c \<in> A \<and> (\<forall>st. c \<noteq> Call_state_change st)"
  then have "D_fmu c = of_fmu_call c" by (cases c) auto
  then show "D_fmu c \<in> of_fmu_call ` A" using a by (simp add: rev_image_eqI)
qed

lemma of_fmu_call_not [simp]:
  "D_loadSearch i \<notin> of_fmu_call ` A" "D_sendADSB pd \<notin> of_fmu_call ` A" "D_postAck e r \<notin> of_fmu_call ` A"
  "D_smm_reachedPoint k \<notin> of_fmu_call ` A" "D_fss_reachedPoint k n \<notin> of_fmu_call ` A"
proof -
  have "of_fmu_call c \<noteq> D_loadSearch i \<and> of_fmu_call c \<noteq> D_sendADSB pd \<and> of_fmu_call c \<noteq> D_postAck e r \<and>
      of_fmu_call c \<noteq> D_smm_reachedPoint k \<and> of_fmu_call c \<noteq> D_fss_reachedPoint k n" for c
    by (cases c) auto
  then show "D_loadSearch i \<notin> of_fmu_call ` A" "D_sendADSB pd \<notin> of_fmu_call ` A" "D_postAck e r \<notin> of_fmu_call ` A"
    "D_smm_reachedPoint k \<notin> of_fmu_call ` A" "D_fss_reachedPoint k n \<notin> of_fmu_call ` A"
    by (metis imageE)+
qed

text \<open>Outcomes of the search worker and of peers are gated: a mission is uploaded and search progress is reported only while the machine is searching, a peer is rebroadcast only if it is not the own aircraft and its coordinates are valid, and a command is answered once, with the resolution of the state machine.\<close>

lemma dispatch_gates:
  assumes "dispatch env e d = (d', out)"
  shows "(\<forall>i. D_loadSearch i \<in> set out \<longrightarrow> e = SmmLoadSearch i \<and> isSearching (state_machine d)) \<and>
    (\<forall>k. D_smm_reachedPoint k \<in> set out \<longrightarrow> e = ReachedPoint k \<and> isSearching (state_machine d)) \<and>
    (\<forall>pd. D_sendADSB pd \<in> set out \<longrightarrow>
       e = OtherAircraftReport pd \<and> pd_callsign pd \<noteq> asset_name d \<and> Point_isValid (pd_p pd)) \<and>
    (\<forall>a res. D_postAck a res \<in> set out \<longrightarrow>
       (\<exists>cmd tgt. e = FSSCommandEvent cmd tgt (Some a) \<and>
          res = snd (FSSNewCommand (de_mav env) cmd tgt (state_machine d))))"
  using assms
  by (cases e)
    (auto simp: run_fmu_def dispatch_other_aircraft_def case_prod_unfold Let_def split: if_splits option.splits)

lemma dispatch_gates_witness:
  "isSearching (state_machine ((EventDispatcher_init (FMUStateMachine_init 4 122 5) ''uav'' 20)
     \<lparr>state_machine := (FMUStateMachine_init 4 122 5)\<lparr>current_state := fmu_state_searching\<rparr>\<rparr>))"
proof -
  let ?d = "(EventDispatcher_init (FMUStateMachine_init 4 122 5) ''uav'' 20)
     \<lparr>state_machine := (FMUStateMachine_init 4 122 5)\<lparr>current_state := fmu_state_searching\<rparr>\<rparr>"
  let ?env = "\<lparr>de_mav = answer_yes, de_now = 0, de_currentSearchPoints = 0\<rparr>"
  have "dispatch ?env (SmmLoadSearch 3) ?d = (?d, [D_loadSearch 3])" by (simp add: isSearching_def)
  from dispatch_gates [OF this] show ?thesis by simp
qed

text \<open>A battery reading counts as low only when it is known and under the threshold: an unknown remaining charge never feeds the low-battery latch.\<close>

lemma battery_unknown_not_low:
  assumes "dispatch env (BatteryDataEvent bd) d = (d', out)" and "sint (bd_remaining bd) < 0 \<or> lowbat_threshold d \<le> sint (bd_remaining bd)"
  shows "low_battery (state_machine d') = low_battery (state_machine d) \<and> low_battery_count (state_machine d') = 0 \<and>
    out = [D_fss_reportBatteryStatus bd]"
proof -
  have "\<not> (0 \<le> sint (bd_remaining bd) \<and> sint (bd_remaining bd) < lowbat_threshold d)" using assms(2) by linarith
  then show ?thesis using assms(1) by (auto simp: run_fmu_def setLowBattery_def Let_def)
qed

lemma battery_unknown_not_low_witness:
  "low_battery_count (state_machine (fst (dispatch \<lparr>de_mav = answer_yes, de_now = 0, de_currentSearchPoints = 0\<rparr>
     (BatteryDataEvent \<lparr>bd_remaining = - 1, bd_consumed = 0, bd_voltage = Fin 0\<rparr>)
     (EventDispatcher_init (FMUStateMachine_init 4 122 5) ''uav'' 20)))) = 0"
  by (rule battery_unknown_not_low [OF surjective_pairing, THEN conjunct2, THEN conjunct1]) simp

end
