(* ===== verification/Aircraft.thy ===== *)
theory Aircraft
  imports Core_Types
begin

text \<open>
  The other aircraft that are known, \<open>src/aircraft.hpp\<close>: the key of an aircraft, its
  one-second debounce, the table with its sweep of stale entries, the allocation of synthetic
  addresses, and the callback of \<open>src/main.cpp\<close> that turns a peer's report into an
  event. The clock is an argument. A \<open>std::chrono::milliseconds\<close> is an integer; its
  64 bits do not overflow before a clock reading of 292 million years.
\<close>

section \<open>Data and operations\<close>

definition first_icao_address_for_unknown_aircraft :: u32 where
  "first_icao_address_for_unknown_aircraft = 0x1000"

definition last_icao_address_for_unknown_aircraft :: u32 where
  "last_icao_address_for_unknown_aircraft = 0xFFFFFF"

definition next_synthetic_icao :: "u32 \<Rightarrow> u32" where
  "next_synthetic_icao current =
     (if current \<ge> last_icao_address_for_unknown_aircraft then first_icao_address_for_unknown_aircraft
      else current + 1)"

definition aircraft_key :: "string \<Rightarrow> u32 \<Rightarrow> string" where
  "aircraft_key call_sign icao =
     (if icao \<noteq> 0 then ''icao:'' @ to_string_nat (unat icao) else ''cs:'' @ call_sign)"

record aircraft_details =
  ad_ts :: int
  ad_icao_address :: u32

definition aircraft_details_new :: "u32 \<Rightarrow> aircraft_details" where
  "aircraft_details_new icao = \<lparr>ad_ts = 0, ad_icao_address = icao\<rparr>"

definition ts_1sec_interval :: int where
  "ts_1sec_interval = 1000"

text \<open>The conversion of the \<open>uint64_t\<close> clock to the signed count of milliseconds.\<close>

definition millis :: "u64 \<Rightarrow> int" where
  "millis now_ms = sint now_ms"

definition acceptableUpdate :: "u64 \<Rightarrow> aircraft_details \<Rightarrow> aircraft_details \<times> bool" where
  "acceptableUpdate now_ms d =
     (if ad_ts d + ts_1sec_interval \<le> millis now_ms then (d\<lparr>ad_ts := millis now_ms\<rparr>, True) else (d, False))"

definition aircraft_eviction_age :: int where
  "aircraft_eviction_age = 5 * 60 * 1000"

record known_aircraft =
  lastAllocatedICAO :: u32
  ka_aircraft :: "string \<rightharpoonup> aircraft_details"
  ka_log :: "(LogLevel \<times> string) list"

definition known_aircraft_init :: known_aircraft where
  "known_aircraft_init =
     \<lparr>lastAllocatedICAO = first_icao_address_for_unknown_aircraft, ka_aircraft = Map.empty, ka_log = []\<rparr>"

definition findAircraft :: "string \<Rightarrow> u32 \<Rightarrow> known_aircraft \<Rightarrow> known_aircraft \<times> aircraft_details" where
  "findAircraft call_sign icao k =
     (let key = aircraft_key call_sign icao
      in case ka_aircraft k key of
           Some d \<Rightarrow> (k, d)
         | None \<Rightarrow>
             let last = (if icao = 0 then next_synthetic_icao (lastAllocatedICAO k) else lastAllocatedICAO k);
                 addr = (if icao = 0 then last else icao);
                 d = aircraft_details_new addr
             in (k\<lparr>lastAllocatedICAO := last,
                   ka_log := ka_log k @ [(log_info, ''Aircraft: Creating new aircraft with callsign '' @ call_sign @
                     '' ICAO: '' @ to_string_nat (unat addr))],
                   ka_aircraft := (ka_aircraft k)(key \<mapsto> d)\<rparr>, d))"

definition evictStaleLocked :: "int \<Rightarrow> known_aircraft \<Rightarrow> known_aircraft" where
  "evictStaleLocked now k =
     k\<lparr>ka_aircraft := (\<lambda>key. case ka_aircraft k key of
         None \<Rightarrow> None
       | Some d \<Rightarrow> if ad_ts d + aircraft_eviction_age < now then None else Some d)\<rparr>"

definition newPositionReport :: "u64 \<Rightarrow> PositionData \<Rightarrow> known_aircraft \<Rightarrow> known_aircraft \<times> bool" where
  "newPositionReport now_ms pd k =
     (case findAircraft (pd_callsign pd) (pd_icaoaddress pd) k of (k1, d) \<Rightarrow>
      case acceptableUpdate now_ms d of (d1, accepted) \<Rightarrow>
        let k2 = k1\<lparr>ka_aircraft := (ka_aircraft k1)(aircraft_key (pd_callsign pd) (pd_icaoaddress pd) \<mapsto> d1)\<rparr>
        in (evictStaleLocked (millis now_ms) k2, accepted))"

definition getAircraftICAOAddress :: "string \<Rightarrow> known_aircraft \<Rightarrow> known_aircraft \<times> u32" where
  "getAircraftICAOAddress call_sign k =
     (case findAircraft call_sign 0 k of (k1, d) \<Rightarrow> (k1, ad_icao_address d))"

text \<open>
  The position callback that \<open>App::run\<close> registers with FSS: the report to enqueue. Its two
  calls take the mutex of the table one after the other and are one step here: what another
  thread may do between them is to handle a report of its own.
\<close>

definition other_aircraft_callback :: "u64 \<Rightarrow> PositionData \<Rightarrow> known_aircraft \<Rightarrow> known_aircraft \<times> PositionData option" where
  "other_aircraft_callback now_ms pd k =
     (case newPositionReport now_ms pd k of (k1, accepted) \<Rightarrow>
        if \<not> accepted then (k1, None)
        else if pd_icaoaddress pd = 0
        then (case getAircraftICAOAddress (pd_callsign pd) k1 of (k2, addr) \<Rightarrow> (k2, Some (setICAOAddress addr pd)))
        else (k1, Some pd))"

section \<open>Keys\<close>

lemma aircraft_key_eq:
  "aircraft_key c i = aircraft_key c' i' \<longleftrightarrow> (if i = 0 then i' = 0 \<and> c = c' else i = i')"
  by (auto simp: aircraft_key_def word_unat_eq_iff)

abbreviation cs_key :: "string \<Rightarrow> string" where
  "cs_key c \<equiv> aircraft_key c 0"

section \<open>The effect of an operation on one entry\<close>

definition swept :: "int \<Rightarrow> aircraft_details option \<Rightarrow> aircraft_details option" where
  "swept now e = (case e of None \<Rightarrow> None | Some d \<Rightarrow> if ad_ts d + 300000 < now then None else Some d)"

definition entry_or_new :: "u32 \<Rightarrow> aircraft_details option \<Rightarrow> aircraft_details" where
  "entry_or_new addr e = (case e of Some d \<Rightarrow> d | None \<Rightarrow> aircraft_details_new addr)"

text \<open>The address that a new entry for this address would get.\<close>

definition next_address :: "u32 \<Rightarrow> known_aircraft \<Rightarrow> u32" where
  "next_address icao k = (if icao = 0 then next_synthetic_icao (lastAllocatedICAO k) else icao)"

lemma findAircraft_entry:
  "ka_aircraft (fst (findAircraft c i k)) = (ka_aircraft k)(aircraft_key c i \<mapsto> entry_or_new (next_address i k) (ka_aircraft k (aircraft_key c i)))"
  "snd (findAircraft c i k) = entry_or_new (next_address i k) (ka_aircraft k (aircraft_key c i))"
  "lastAllocatedICAO (fst (findAircraft c i k)) =
     (if i = 0 \<and> ka_aircraft k (cs_key c) = None then next_synthetic_icao (lastAllocatedICAO k) else lastAllocatedICAO k)"
  by (auto simp: findAircraft_def entry_or_new_def next_address_def Let_def fun_eq_iff split: option.splits)

definition accepts :: "u64 \<Rightarrow> PositionData \<Rightarrow> known_aircraft \<Rightarrow> bool" where
  "accepts now pd k \<longleftrightarrow> snd (newPositionReport now pd k)"

abbreviation pd_key :: "PositionData \<Rightarrow> string" where
  "pd_key pd \<equiv> aircraft_key (pd_callsign pd) (pd_icaoaddress pd)"

lemma accepts_iff:
  "accepts now pd k \<longleftrightarrow> (case ka_aircraft k (pd_key pd) of None \<Rightarrow> 1000 \<le> millis now | Some d \<Rightarrow> ad_ts d + 1000 \<le> millis now)"
  by (auto simp: accepts_def newPositionReport_def acceptableUpdate_def ts_1sec_interval_def case_prod_unfold
      findAircraft_entry entry_or_new_def aircraft_details_new_def Let_def split: option.splits)

lemma newPositionReport_entry:
  "ka_aircraft (fst (newPositionReport now pd k)) key =
     swept (millis now)
       (if key = pd_key pd
        then Some (let d = entry_or_new (next_address (pd_icaoaddress pd) k) (ka_aircraft k key)
                   in if accepts now pd k then d\<lparr>ad_ts := millis now\<rparr> else d)
        else ka_aircraft k key)"
  by (auto simp: newPositionReport_def acceptableUpdate_def ts_1sec_interval_def case_prod_unfold findAircraft_entry
      evictStaleLocked_def swept_def aircraft_eviction_age_def Let_def accepts_iff entry_or_new_def
      aircraft_details_new_def split: option.splits)

lemma newPositionReport_last:
  "lastAllocatedICAO (fst (newPositionReport now pd k)) =
     (if pd_icaoaddress pd = 0 \<and> ka_aircraft k (pd_key pd) = None then next_synthetic_icao (lastAllocatedICAO k)
      else lastAllocatedICAO k)"
  by (auto simp: newPositionReport_def acceptableUpdate_def case_prod_unfold findAircraft_entry evictStaleLocked_def Let_def)

lemma getAircraftICAOAddress_entry:
  "ka_aircraft (fst (getAircraftICAOAddress c k)) = (ka_aircraft k)(cs_key c \<mapsto> entry_or_new (next_address 0 k) (ka_aircraft k (cs_key c)))"
  "snd (getAircraftICAOAddress c k) = ad_icao_address (entry_or_new (next_address 0 k) (ka_aircraft k (cs_key c)))"
  "lastAllocatedICAO (fst (getAircraftICAOAddress c k)) =
     (if ka_aircraft k (cs_key c) = None then next_synthetic_icao (lastAllocatedICAO k) else lastAllocatedICAO k)"
  by (simp_all add: getAircraftICAOAddress_def case_prod_unfold findAircraft_entry)


section \<open>Histories\<close>

datatype aircraft_op = Op_report u64 PositionData | Op_address string

fun aircraft_step :: "aircraft_op \<Rightarrow> known_aircraft \<Rightarrow> known_aircraft" where
  "aircraft_step (Op_report now pd) k = fst (newPositionReport now pd k)"
| "aircraft_step (Op_address c) k = fst (getAircraftICAOAddress c k)"

fun verdicts :: "aircraft_op list \<Rightarrow> known_aircraft \<Rightarrow> bool list" where
  "verdicts [] k = []"
| "verdicts (Op_report now pd # ops) k =
     (case newPositionReport now pd k of (k1, accepted) \<Rightarrow> accepted # verdicts ops k1)"
| "verdicts (Op_address c # ops) k = verdicts ops (fst (getAircraftICAOAddress c k))"

fun op_clocks :: "aircraft_op list \<Rightarrow> int list" where
  "op_clocks [] = []"
| "op_clocks (Op_report now pd # ops) = millis now # op_clocks ops"
| "op_clocks (Op_address c # ops) = op_clocks ops"

section \<open>The debounce against its specification\<close>

text \<open>
  The specification remembers, for every aircraft and for ever, when a report was last
  accepted: a report is accepted when that is a second ago, and before any when the clock
  shows a second.
\<close>

fun spec_verdicts :: "aircraft_op list \<Rightarrow> (string \<rightharpoonup> int) \<Rightarrow> bool list" where
  "spec_verdicts [] m = []"
| "spec_verdicts (Op_report now pd # ops) m =
     (let ok = (case m (pd_key pd) of None \<Rightarrow> 1000 \<le> millis now | Some t \<Rightarrow> t + 1000 \<le> millis now)
      in ok # spec_verdicts ops (if ok then m(pd_key pd \<mapsto> millis now) else m))"
| "spec_verdicts (Op_address c # ops) m = spec_verdicts ops m"

text \<open>The clock from which the next report of an aircraft is accepted, in the table and in the specification.\<close>

definition due_at :: "known_aircraft \<Rightarrow> string \<Rightarrow> int" where
  "due_at k key = (case ka_aircraft k key of None \<Rightarrow> 1000 | Some d \<Rightarrow> ad_ts d + 1000)"

definition spec_due :: "(string \<rightharpoonup> int) \<Rightarrow> string \<Rightarrow> int" where
  "spec_due m key = (case m key of None \<Rightarrow> 1000 | Some t \<Rightarrow> t + 1000)"

definition table_sim :: "int \<Rightarrow> known_aircraft \<Rightarrow> (string \<rightharpoonup> int) \<Rightarrow> bool" where
  "table_sim now k m \<longleftrightarrow>
     (\<forall>key. 1000 \<le> due_at k key \<and> (due_at k key = spec_due m key \<or> due_at k key \<le> now \<and> spec_due m key \<le> now))"

lemma accepts_due: "accepts now pd k \<longleftrightarrow> due_at k (pd_key pd) \<le> millis now"
  by (simp add: accepts_iff due_at_def split: option.split)

lemma due_at_report:
  "due_at (fst (newPositionReport now pd k)) key =
     (let due = (if key = pd_key pd \<and> accepts now pd k then millis now + 1000 else due_at k key)
      in if due + 299000 < millis now then 1000 else due)"
  by (auto simp: due_at_def newPositionReport_entry swept_def entry_or_new_def aircraft_details_new_def Let_def
      accepts_iff split: option.split)

lemma due_at_address [simp]: "due_at (fst (getAircraftICAOAddress c k)) = due_at k"
  by (auto simp: due_at_def getAircraftICAOAddress_entry entry_or_new_def aircraft_details_new_def fun_eq_iff split: option.split)

lemma table_sim_report:
  assumes "table_sim t k m" and "t \<le> millis now"
  shows "accepts now pd k \<longleftrightarrow> spec_due m (pd_key pd) \<le> millis now"
    and "table_sim (millis now) (fst (newPositionReport now pd k))
          (if accepts now pd k then m(pd_key pd \<mapsto> millis now) else m)"
proof -
  have s: "1000 \<le> due_at k key" "due_at k key = spec_due m key \<or> due_at k key \<le> t \<and> spec_due m key \<le> t" for key
    using assms(1) by (auto simp: table_sim_def)
  show "accepts now pd k \<longleftrightarrow> spec_due m (pd_key pd) \<le> millis now"
    using s(2) [of "pd_key pd"] assms(2) by (auto simp: accepts_due)
  show "table_sim (millis now) (fst (newPositionReport now pd k))
          (if accepts now pd k then m(pd_key pd \<mapsto> millis now) else m)"
    unfolding table_sim_def
  proof
    fix key
    have upd: "spec_due (if accepts now pd k then m(pd_key pd \<mapsto> millis now) else m) key =
        (if key = pd_key pd \<and> accepts now pd k then millis now + 1000 else spec_due m key)"
      by (simp add: spec_due_def)
    show "1000 \<le> due_at (fst (newPositionReport now pd k)) key \<and>
        (due_at (fst (newPositionReport now pd k)) key = spec_due (if accepts now pd k then m(pd_key pd \<mapsto> millis now) else m) key \<or>
         due_at (fst (newPositionReport now pd k)) key \<le> millis now \<and>
         spec_due (if accepts now pd k then m(pd_key pd \<mapsto> millis now) else m) key \<le> millis now)"
      unfolding upd due_at_report Let_def
      using s [of key] assms(2) accepts_due [of now pd k] by (auto split: if_splits)
  qed
qed

lemma verdicts_sim:
  assumes "table_sim t k m" and "sorted (op_clocks ops)" and "\<And>x. x \<in> set (op_clocks ops) \<Longrightarrow> t \<le> x"
  shows "verdicts ops k = spec_verdicts ops m"
  using assms
proof (induction ops k arbitrary: t m rule: verdicts.induct)
  case (2 now pd ops k)
  note sim = table_sim_report [OF 2(2), of now pd]
  have t: "t \<le> millis now" using 2(4) by simp
  have acc: "snd (newPositionReport now pd k) \<longleftrightarrow> spec_due m (pd_key pd) \<le> millis now"
    using sim(1) [OF t] by (simp add: accepts_def)
  have "verdicts ops (fst (newPositionReport now pd k)) =
      spec_verdicts ops (if accepts now pd k then m(pd_key pd \<mapsto> millis now) else m)"
    using 2(3) by (intro 2(1) [OF prod.collapse sim(2) [OF t]]) simp_all
  then show ?case
    using acc by (simp add: case_prod_unfold accepts_def spec_due_def Let_def split: option.split)
next
  case (3 c ops k)
  then show ?case by (auto simp: table_sim_def)
qed simp

text \<open>C32: which peer reports pass the debounce does not depend on the sweeping of the table or on the addresses asked for in between: on a monotone clock a report is accepted exactly when the same aircraft (by address, or by callsign when it has none) had no report accepted within the last second.\<close>

theorem aircraft_debounce_exact:
  assumes "sorted (op_clocks ops)" and "list_all (\<lambda>t. 0 \<le> t) (op_clocks ops)"
  shows "verdicts ops known_aircraft_init = spec_verdicts ops Map.empty"
proof (rule verdicts_sim [of 0])
  show "table_sim 0 known_aircraft_init Map.empty"
    by (simp add: table_sim_def due_at_def spec_due_def known_aircraft_init_def)
qed (use assms in \<open>auto simp: list_all_iff\<close>)

definition sample_aircraft :: "string \<Rightarrow> u32 \<Rightarrow> PositionData" where
  "sample_aircraft cs icao = PositionData_peer (Fin 1) (Fin 2) (Fin 300) 0 0 0 cs 0 icao 0 0 0 0"

theorem aircraft_debounce_exact_witness:
  "verdicts [Op_report 5000 (sample_aircraft ''A'' 0), Op_address ''A'', Op_report 5500 (sample_aircraft ''A'' 0),
     Op_report 5600 (sample_aircraft ''A'' 9), Op_report 400000 (sample_aircraft ''A'' 0)] known_aircraft_init =
   [True, False, True, True]"
  by (subst aircraft_debounce_exact)
    (simp_all add: millis_def sample_aircraft_def PositionData_peer_def aircraft_key_eq)


section \<open>Synthetic addresses\<close>

definition address_of :: "known_aircraft \<Rightarrow> string \<rightharpoonup> u32" where
  "address_of k c = map_option ad_icao_address (ka_aircraft k (cs_key c))"

text \<open>An operation forgets addresses, and allocates at most the next one, to a callsign without.\<close>

definition allocates :: "known_aircraft \<Rightarrow> known_aircraft \<Rightarrow> bool" where
  "allocates k k' \<longleftrightarrow>
     lastAllocatedICAO k' = lastAllocatedICAO k \<and> address_of k' \<subseteq>\<^sub>m address_of k \<or>
     lastAllocatedICAO k' = next_synthetic_icao (lastAllocatedICAO k) \<and>
       (\<exists>c. address_of k' \<subseteq>\<^sub>m (address_of k)(c \<mapsto> next_synthetic_icao (lastAllocatedICAO k)))"

lemma address_of_report:
  "address_of (fst (newPositionReport now pd k)) \<subseteq>\<^sub>m
     (if pd_icaoaddress pd = 0
      then (address_of k)(pd_callsign pd \<mapsto>
        (case address_of k (pd_callsign pd) of Some a \<Rightarrow> a | None \<Rightarrow> next_synthetic_icao (lastAllocatedICAO k)))
      else address_of k)"
  by (auto simp: map_le_def address_of_def newPositionReport_entry swept_def aircraft_key_eq entry_or_new_def
      aircraft_details_new_def next_address_def Let_def split: option.splits if_splits)

lemma address_of_address:
  "address_of (fst (getAircraftICAOAddress c k)) =
     (address_of k)(c \<mapsto> (case address_of k c of Some a \<Rightarrow> a | None \<Rightarrow> next_synthetic_icao (lastAllocatedICAO k)))"
  by (auto simp: address_of_def getAircraftICAOAddress_entry aircraft_key_eq entry_or_new_def
      aircraft_details_new_def next_address_def fun_eq_iff split: option.splits)

lemma step_allocates: "allocates k (aircraft_step op k)"
proof (cases op)
  case (Op_report now pd)
  then show ?thesis
    using address_of_report [of now pd k]
    by (auto simp: allocates_def newPositionReport_last address_of_def map_upd_triv split: option.splits if_splits)
next
  case (Op_address c)
  show ?thesis
  proof (cases "address_of k c")
    case None
    then have "ka_aircraft k (cs_key c) = None" by (simp add: address_of_def)
    with None show ?thesis
      unfolding allocates_def Op_address aircraft_step.simps address_of_address getAircraftICAOAddress_entry
      by (auto intro: exI [of _ c])
  next
    case (Some a)
    then have "ka_aircraft k (cs_key c) \<noteq> None" by (auto simp: address_of_def)
    with Some show ?thesis
      unfolding allocates_def Op_address aircraft_step.simps address_of_address getAircraftICAOAddress_entry
      by (auto simp: map_upd_triv)
  qed
qed

definition address_range :: "u32 \<Rightarrow> bool" where
  "address_range a \<longleftrightarrow> 0x1000 \<le> a \<and> a \<le> 0xFFFFFF"

lemma next_synthetic_below:
  "unat a < 0xFFFFFF \<Longrightarrow> next_synthetic_icao a = a + 1 \<and> unat (a + 1) = unat a + 1"
  by (auto simp: next_synthetic_icao_def last_icao_address_for_unknown_aircraft_def word_le_nat_alt unat_word_ariths)

lemma next_synthetic_range: "address_range (next_synthetic_icao a)" if "address_range a"
proof (cases "unat a < 0xFFFFFF")
  case True
  then show ?thesis using that next_synthetic_below [OF True] by (simp add: address_range_def word_le_nat_alt)
qed (simp add: address_range_def next_synthetic_icao_def last_icao_address_for_unknown_aircraft_def
    first_icao_address_for_unknown_aircraft_def word_le_nat_alt)

definition range_inv :: "known_aircraft \<Rightarrow> bool" where
  "range_inv k \<longleftrightarrow> address_range (lastAllocatedICAO k) \<and> (\<forall>a \<in> ran (address_of k). address_range a)"

lemma ran_map_le: "m \<subseteq>\<^sub>m m' \<Longrightarrow> ran m \<subseteq> ran m'"
  by (fastforce simp: map_le_def ran_def dom_def)

lemma ran_upd_subset: "ran (m(k \<mapsto> v)) \<subseteq> insert v (ran m)"
  by (auto simp: ran_def split: if_splits)

lemma range_inv_step: "range_inv k \<Longrightarrow> allocates k k' \<Longrightarrow> range_inv k'"
  unfolding range_inv_def allocates_def
  using ran_map_le ran_upd_subset next_synthetic_range by (metis (no_types, lifting) insertE subsetD)

text \<open>Before the counter wraps, the addresses in use are distinct.\<close>

definition fresh_inv :: "nat \<Rightarrow> known_aircraft \<Rightarrow> bool" where
  "fresh_inv n k \<longleftrightarrow> unat (lastAllocatedICAO k) \<le> 0x1000 + n \<and>
     (\<forall>a \<in> ran (address_of k). a \<le> lastAllocatedICAO k) \<and> inj_on (address_of k) (dom (address_of k))"

lemma inj_on_map_le: "m \<subseteq>\<^sub>m m' \<Longrightarrow> inj_on m' (dom m') \<Longrightarrow> inj_on m (dom m)"
  unfolding map_le_def inj_on_def by (metis domD domI)

lemma inj_on_upd_new: "inj_on m (dom m) \<Longrightarrow> v \<notin> ran m \<Longrightarrow> inj_on (m(k \<mapsto> v)) (dom (m(k \<mapsto> v)))"
  by (auto simp: inj_on_def ran_def dom_def)

lemma fresh_inv_step:
  assumes "fresh_inv n k" and "allocates k k'" and "n < 0xFFEFFF"
  shows "fresh_inv (Suc n) k'"
proof -
  have f: "unat (lastAllocatedICAO k) \<le> 0x1000 + n" "\<And>a. a \<in> ran (address_of k) \<Longrightarrow> a \<le> lastAllocatedICAO k"
    "inj_on (address_of k) (dom (address_of k))"
    using assms(1) by (auto simp: fresh_inv_def)
  have nx: "next_synthetic_icao (lastAllocatedICAO k) = lastAllocatedICAO k + 1"
    "unat (lastAllocatedICAO k + 1) = unat (lastAllocatedICAO k) + 1"
    using next_synthetic_below [of "lastAllocatedICAO k"] f(1) assms(3) by auto
  have new: "lastAllocatedICAO k + 1 \<notin> ran (address_of k)"
    using f(2) [of "lastAllocatedICAO k + 1"] nx(2) by (auto simp: word_le_nat_alt)
  from assms(2) consider (kept) "lastAllocatedICAO k' = lastAllocatedICAO k" "address_of k' \<subseteq>\<^sub>m address_of k"
    | (new) c where "lastAllocatedICAO k' = lastAllocatedICAO k + 1"
        "address_of k' \<subseteq>\<^sub>m (address_of k)(c \<mapsto> lastAllocatedICAO k + 1)"
    unfolding allocates_def nx(1) by blast
  then show ?thesis
  proof cases
    case kept
    then show ?thesis using f ran_map_le [OF kept(2)] inj_on_map_le [OF kept(2) f(3)] by (auto simp: fresh_inv_def)
  next
    case (new c)
    have "a \<le> lastAllocatedICAO k + 1" if "a \<in> ran (address_of k')" for a
      using that subsetD [OF ran_map_le [OF new(2)]] ran_upd_subset [of "address_of k" c] f(2) nx(2)
      by (fastforce simp: word_le_nat_alt)
    then show ?thesis
      using new f nx(2) inj_on_map_le [OF new(2) inj_on_upd_new [OF f(3) \<open>_ \<notin> ran _\<close>]] by (simp add: fresh_inv_def)
  qed
qed

lemma known_aircraft_init_invs: "range_inv known_aircraft_init" "fresh_inv 0 known_aircraft_init"
  by (simp_all add: range_inv_def fresh_inv_def address_range_def known_aircraft_init_def address_of_def
      first_icao_address_for_unknown_aircraft_def inj_on_def dom_def ran_def)

lemma range_inv_fold: "range_inv (fold aircraft_step ops known_aircraft_init)"
  by (induction ops rule: rev_induct) (auto intro: known_aircraft_init_invs range_inv_step step_allocates)

lemma fresh_inv_fold: "length ops \<le> 0xFFEFFF \<Longrightarrow> fresh_inv (length ops) (fold aircraft_step ops known_aircraft_init)"
  by (induction ops rule: rev_induct) (auto intro: known_aircraft_init_invs fresh_inv_step step_allocates)

lemma other_aircraft_callback_history:
  assumes "other_aircraft_callback now pd (fold aircraft_step ops known_aircraft_init) = (k', Some ev)"
    and "pd_icaoaddress pd = 0"
  shows "k' = fold aircraft_step (ops @ [Op_report now pd, Op_address (pd_callsign pd)]) known_aircraft_init"
    and "ev = setICAOAddress (pd_icaoaddress ev) pd"
    and "address_of k' (pd_callsign pd) = Some (pd_icaoaddress ev)"
  using assms
  by (auto simp: other_aircraft_callback_def setICAOAddress_def case_prod_unfold address_of_def
      getAircraftICAOAddress_entry split: if_splits)

text \<open>C34: a peer's report becomes an event with an address that names the aircraft: the one it reported, or else the synthetic one of its callsign, which fits the 24-bit field, lies outside the first 4096 addresses, and is shared with no other callsign in the table as long as the counter has not been round once.\<close>

theorem peer_events_addressed:
  assumes "other_aircraft_callback now pd (fold aircraft_step ops known_aircraft_init) = (k', Some ev)"
  shows "if pd_icaoaddress pd \<noteq> 0 then ev = pd
    else ev = setICAOAddress (pd_icaoaddress ev) pd \<and> 0x1000 \<le> pd_icaoaddress ev \<and> pd_icaoaddress ev \<le> 0xFFFFFF \<and>
      address_of k' (pd_callsign pd) = Some (pd_icaoaddress ev) \<and>
      (length ops \<le> 0xFFEFFD \<longrightarrow> inj_on (address_of k') (dom (address_of k')))"
proof (cases "pd_icaoaddress pd = 0")
  case True
  note h = other_aircraft_callback_history [OF assms True]
  have "address_range (pd_icaoaddress ev)"
    using range_inv_fold h(1,3) unfolding range_inv_def by (metis ranI)
  moreover have "inj_on (address_of k') (dom (address_of k'))" if "length ops \<le> 0xFFEFFD"
    using fresh_inv_fold [of "ops @ [Op_report now pd, Op_address (pd_callsign pd)]"] that
    unfolding h(1) fresh_inv_def by simp
  ultimately show ?thesis using True h(2,3) by (simp add: address_range_def)
next
  case False
  then show ?thesis
    using assms by (auto simp: other_aircraft_callback_def case_prod_unfold split: if_splits)
qed

text \<open>Two peers without an address, and the first again.\<close>

definition sample_history :: "aircraft_op list" where
  "sample_history = [Op_report 5000 (sample_aircraft ''A'' 0), Op_address ''A'', Op_report 5100 (sample_aircraft ''B'' 0)]"

lemma other_aircraft_callback_event:
  "snd (other_aircraft_callback now pd k) =
     (if accepts now pd k
      then Some (if pd_icaoaddress pd = 0
                 then setICAOAddress (snd (getAircraftICAOAddress (pd_callsign pd) (fst (newPositionReport now pd k)))) pd
                 else pd)
      else None)"
  by (simp add: other_aircraft_callback_def case_prod_unfold accepts_def)

lemma sample_aircraft_fields [simp]:
  "pd_callsign (sample_aircraft cs icao) = cs" "pd_icaoaddress (sample_aircraft cs icao) = icao"
  "setICAOAddress a (sample_aircraft cs icao) = sample_aircraft cs a"
  by (simp_all add: sample_aircraft_def PositionData_peer_def setICAOAddress_def)

theorem peer_events_addressed_witness:
  "case other_aircraft_callback 7000 (sample_aircraft ''A'' 0) (fold aircraft_step sample_history known_aircraft_init) of
     (k', event) \<Rightarrow> event = Some (sample_aircraft ''A'' 0x1001) \<and> {''A'', ''B''} \<subseteq> dom (address_of k') \<and>
       inj_on (address_of k') (dom (address_of k'))"
proof -
  let ?k = "fold aircraft_step sample_history known_aircraft_init"
  let ?r = "other_aircraft_callback 7000 (sample_aircraft ''A'' 0) ?k"
  note entries = newPositionReport_entry getAircraftICAOAddress_entry swept_def aircraft_key_eq entry_or_new_def
    aircraft_details_new_def millis_def known_aircraft_init_def Let_def accepts_iff next_address_def
    newPositionReport_last next_synthetic_icao_def last_icao_address_for_unknown_aircraft_def
    first_icao_address_for_unknown_aircraft_def
  have ev: "snd ?r = Some (sample_aircraft ''A'' 0x1001)"
    by (simp add: other_aircraft_callback_event sample_history_def entries)
  then have run: "?r = (fst ?r, Some (sample_aircraft ''A'' 0x1001))" by (simp add: prod_eq_iff)
  have "inj_on (address_of (fst ?r)) (dom (address_of (fst ?r)))"
    using peer_events_addressed [OF run] by (simp add: sample_history_def)
  moreover have "address_of (fst ?r) ''A'' \<noteq> None" "address_of (fst ?r) ''B'' \<noteq> None"
    unfolding other_aircraft_callback_history(1) [OF run sample_aircraft_fields(2)]
    by (simp_all add: sample_history_def address_of_def entries)
  ultimately show ?thesis unfolding case_prod_unfold ev by auto
qed

end
