(* ===== verification/Ack_Group.thy ===== *)
theory Ack_Group
  imports Units "HOL-Library.Multiset"
begin

text \<open>
  Grouping of the redundant deliveries of one logical command,
  \<open>src/fss/command-ack-group.hpp\<close>: the identity of a command, the disposition of a
  delivery, and the resolution that acknowledges every copy. The class holds a mutex around
  each method, so a method is one step. The target of an acknowledgement is the type
  parameter of the template.
\<close>

section \<open>Identity of a command\<close>

datatype PayloadKind = payload_none | payload_position | payload_altitude

record CommandPayload =
  kind :: PayloadKind
  cp_lat :: dbl
  cp_lng :: dbl
  cp_altitude :: i32

definition position_tolerance_deg :: rat where
  "position_tolerance_deg = lit (1 / 10000000)"

definition CommandPayload_default :: CommandPayload where
  "CommandPayload_default = \<lparr>kind = payload_none, cp_lat = Fin 0, cp_lng = Fin 0, cp_altitude = 0\<rparr>"

definition forPosition :: "dbl \<Rightarrow> dbl \<Rightarrow> CommandPayload" where
  "forPosition t_lat t_lng =
     CommandPayload_default\<lparr>kind := payload_position, cp_lat := t_lat, cp_lng := t_lng\<rparr>"

definition forAltitude :: "i32 \<Rightarrow> CommandPayload" where
  "forAltitude t_altitude =
     CommandPayload_default\<lparr>kind := payload_altitude, cp_altitude := t_altitude\<rparr>"

definition sameAs :: "CommandPayload \<Rightarrow> CommandPayload \<Rightarrow> bool" where
  "sameAs c other =
     (if kind c \<noteq> kind other then False
      else case kind c of
        payload_none \<Rightarrow> True
      | payload_altitude \<Rightarrow> cp_altitude c = cp_altitude other
      | payload_position \<Rightarrow>
          dlt (dabs (dsub (cp_lat c) (cp_lat other))) (Fin position_tolerance_deg) \<and>
          dlt (dabs (dsub (cp_lng c) (cp_lng other))) (Fin position_tolerance_deg))"

section \<open>State and results\<close>

datatype Disposition = actuate | already_resolved | pending_copy | stale_superseded

record 'a DeliveryResult =
  disposition :: Disposition
  dr_epoch :: u64
  dr_resolution :: "FSSCommandResolution option"
  superseded :: "'a list"

record 'a CommandAckGroup =
  tolerance_ms :: u64
  active :: bool
  epoch :: u64
  command :: int
  cmd_payload :: CommandPayload
  cmd_timestamp :: u64
  pending :: "'a list"
  resolution :: "FSSCommandResolution option"
  last_id_by_connection :: "string \<Rightarrow> u64 option"

definition CommandAckGroup_init :: "u64 \<Rightarrow> 'a CommandAckGroup" where
  "CommandAckGroup_init t_tolerance_ms =
     \<lparr>tolerance_ms = t_tolerance_ms, active = False, epoch = 0, command = 0,
      cmd_payload = CommandPayload_default, cmd_timestamp = 0, pending = [], resolution = None,
      last_id_by_connection = (\<lambda>_. None)\<rparr>"

section \<open>Operations\<close>

definition withinTolerance :: "u64 \<Rightarrow> 'a CommandAckGroup \<Rightarrow> bool" where
  "withinTolerance t_timestamp g =
     (let skew = (if cmd_timestamp g \<le> t_timestamp then t_timestamp - cmd_timestamp g
                  else cmd_timestamp g - t_timestamp)
      in skew < tolerance_ms g)"

definition deliberate_retry :: "u64 \<Rightarrow> string \<Rightarrow> 'a CommandAckGroup \<Rightarrow> bool" where
  "deliberate_retry t_server_command_id t_connection_key g =
     (active g \<and> t_server_command_id \<noteq> 0 \<and>
      (case last_id_by_connection g t_connection_key of
         None \<Rightarrow> False | Some seen \<Rightarrow> seen \<noteq> t_server_command_id))"

definition note_id :: "u64 \<Rightarrow> string \<Rightarrow> 'a CommandAckGroup \<Rightarrow> 'a CommandAckGroup" where
  "note_id t_server_command_id t_connection_key g =
     (if t_server_command_id \<noteq> 0
      then g\<lparr>last_id_by_connection := (last_id_by_connection g)(t_connection_key \<mapsto> t_server_command_id)\<rparr>
      else g)"

definition onDelivery ::
  "int \<Rightarrow> u64 \<Rightarrow> 'a \<Rightarrow> CommandPayload \<Rightarrow> u64 \<Rightarrow> string \<Rightarrow> 'a CommandAckGroup
   \<Rightarrow> 'a CommandAckGroup \<times> 'a DeliveryResult" where
  "onDelivery t_command t_timestamp copy t_payload t_server_command_id t_connection_key g =
     (let result = \<lparr>disposition = pending_copy, dr_epoch = 0, dr_resolution = None, superseded = []\<rparr>;
          same_logical_command = (command g = t_command \<and> sameAs (cmd_payload g) t_payload);
          retry = deliberate_retry t_server_command_id t_connection_key g
      in if active g \<and> same_logical_command \<and> \<not> retry \<and> withinTolerance t_timestamp g
         then let g1 = note_id t_server_command_id t_connection_key g
           in (case resolution g1 of
                 Some res \<Rightarrow> (g1, result\<lparr>disposition := already_resolved, dr_resolution := Some res\<rparr>)
               | None \<Rightarrow> (g1\<lparr>pending := pending g1 @ [copy]\<rparr>, result\<lparr>disposition := pending_copy\<rparr>))
         else if active g \<and> \<not> same_logical_command \<and> \<not> retry \<and> t_timestamp < cmd_timestamp g
         then (g, result\<lparr>disposition := stale_superseded\<rparr>)
         else let old = pending g;
                  g1 = g\<lparr>active := True, epoch := epoch g + 1, command := t_command,
                         cmd_payload := t_payload, cmd_timestamp := t_timestamp, pending := [copy],
                         resolution := None, last_id_by_connection := (\<lambda>_. None)\<rparr>;
                  g2 = note_id t_server_command_id t_connection_key g1
           in (g2, result\<lparr>superseded := old, disposition := actuate, dr_epoch := epoch g2\<rparr>))"

definition resolve :: "u64 \<Rightarrow> FSSCommandResolution \<Rightarrow> 'a CommandAckGroup \<Rightarrow> 'a CommandAckGroup \<times> 'a list" where
  "resolve t_epoch res g =
     (if epoch g \<noteq> t_epoch then (g, [])
      else (g\<lparr>resolution := Some res, pending := []\<rparr>, pending g))"

section \<open>Identity\<close>

lemma position_tolerance_pos: "0 < position_tolerance_deg"
proof -
  have "pow2 (- 30) \<le> lit (1 / 10000000)" by (rule lit_bounds) simp_all
  then show ?thesis using pow2_pos [of "- 30"] unfolding position_tolerance_deg_def by linarith
qed

lemma rnd_zero [simp]: "rnd 0 = Fin 0"
  using rnd_small_Fin [of 0] by simp

lemma dsub_self [simp]: "isfinite x \<Longrightarrow> dsub x x = Fin 0"
  by (cases x) simp_all

text \<open>A payload with finite coordinates is the same as itself; one with a NaN never is.\<close>

definition payload_wf :: "CommandPayload \<Rightarrow> bool" where
  "payload_wf c \<longleftrightarrow> kind c = payload_position \<longrightarrow> isfinite (cp_lat c) \<and> isfinite (cp_lng c)"

lemma sameAs_refl [simp]: "payload_wf c \<Longrightarrow> sameAs c c"
  using position_tolerance_pos by (auto simp: sameAs_def payload_wf_def split: PayloadKind.splits)

section \<open>Redelivery\<close>

lemma note_id_simps [simp]:
  "active (note_id i k g) = active g" "epoch (note_id i k g) = epoch g"
  "command (note_id i k g) = command g" "cmd_payload (note_id i k g) = cmd_payload g"
  "cmd_timestamp (note_id i k g) = cmd_timestamp g" "pending (note_id i k g) = pending g"
  "resolution (note_id i k g) = resolution g" "tolerance_ms (note_id i k g) = tolerance_ms g"
  by (simp_all add: note_id_def)

lemma deliberate_retry_note [simp]: "\<not> deliberate_retry i k (note_id i k g)"
  by (simp add: deliberate_retry_def note_id_def)

lemma withinTolerance_cong [simp]:
  "withinTolerance t (note_id i k g) = withinTolerance t g"
  "withinTolerance t (g\<lparr>pending := c\<rparr>) = withinTolerance t g"
  "withinTolerance t (g\<lparr>resolution := r\<rparr>) = withinTolerance t g"
  by (simp_all add: withinTolerance_def)

lemma deliberate_retry_cong [simp]:
  "deliberate_retry i k (g\<lparr>pending := c\<rparr>) = deliberate_retry i k g"
  "deliberate_retry i k (g\<lparr>resolution := r\<rparr>) = deliberate_retry i k g"
  by (simp_all add: deliberate_retry_def)

lemma onDelivery_actuate_state:
  assumes "onDelivery c t x pl i k g = (g', r)" and "disposition r = actuate"
  shows "active g' \<and> command g' = c \<and> cmd_payload g' = pl \<and> cmd_timestamp g' = t \<and>
    pending g' = [x] \<and> resolution g' = None \<and> epoch g' = epoch g + 1 \<and> dr_epoch r = epoch g' \<and>
    superseded r = pending g \<and> tolerance_ms g' = tolerance_ms g \<and> \<not> deliberate_retry i k g'"
  using assms
  by (auto simp: onDelivery_def Let_def split: if_splits option.splits)

lemma onDelivery_other_state:
  assumes "onDelivery c t x pl i k g = (g', r)" and "disposition r \<noteq> actuate"
  shows "active g \<and> active g' \<and> command g' = command g \<and> cmd_payload g' = cmd_payload g \<and>
    cmd_timestamp g' = cmd_timestamp g \<and> resolution g' = resolution g \<and> epoch g' = epoch g \<and>
    tolerance_ms g' = tolerance_ms g \<and> superseded r = []"
  using assms by (auto simp: onDelivery_def Let_def split: if_splits option.splits)

text \<open>When a delivery actuates.\<close>

lemma onDelivery_actuate_iff:
  "disposition (snd (onDelivery c t x pl i k g)) = actuate \<longleftrightarrow>
     \<not> active g \<or> deliberate_retry i k g \<or>
     (if command g = c \<and> sameAs (cmd_payload g) pl then \<not> withinTolerance t g else cmd_timestamp g \<le> t)"
  by (auto simp: onDelivery_def Let_def not_le split: option.splits)

definition actioned_now :: FSSCommandResolution where
  "actioned_now = \<lparr>outcome = fss_command_actioned, superseding_state = None, transitioned = True\<rparr>"

section \<open>Every copy is acknowledged once\<close>

text \<open>
  A history of the group: deliveries and resolutions. The acknowledgements are those the
  owner sends on a result: the copy itself when the outcome is cached or the copy is stale,
  the displaced copies when a new command opens, and the pending copies at a resolution.
\<close>

datatype 'a group_input =
    Deliver int u64 'a CommandPayload u64 string
  | Resolve u64 FSSCommandResolution

fun group_step :: "'a group_input \<Rightarrow> 'a CommandAckGroup \<Rightarrow> 'a CommandAckGroup \<times> 'a list" where
  "group_step (Deliver c t x pl i k) g =
     (case onDelivery c t x pl i k g of (g', r) \<Rightarrow>
        (g', case disposition r of
               actuate \<Rightarrow> superseded r
             | already_resolved \<Rightarrow> [x]
             | pending_copy \<Rightarrow> []
             | stale_superseded \<Rightarrow> [x]))"
| "group_step (Resolve e res) g = resolve e res g"

fun group_run :: "'a CommandAckGroup \<Rightarrow> 'a group_input list \<Rightarrow> 'a CommandAckGroup \<times> 'a list" where
  "group_run g [] = (g, [])"
| "group_run g (i # is) =
     (case group_step i g of (g1, acks) \<Rightarrow> (case group_run g1 is of (g2, acks') \<Rightarrow> (g2, acks @ acks')))"

fun delivered_copies :: "'a group_input list \<Rightarrow> 'a list" where
  "delivered_copies [] = []"
| "delivered_copies (Deliver c t x pl i k # is) = x # delivered_copies is"
| "delivered_copies (Resolve e res # is) = delivered_copies is"

lemma onDelivery_conserves:
  assumes "onDelivery c t x pl i k g = (g', r)"
  shows "mset (pending g) + {#x#} =
    mset (pending g') + mset (case disposition r of actuate \<Rightarrow> superseded r | already_resolved \<Rightarrow> [x]
      | pending_copy \<Rightarrow> [] | stale_superseded \<Rightarrow> [x])"
  using assms by (auto simp: onDelivery_def Let_def split: if_splits option.splits)

lemma group_step_conserves:
  assumes "group_step i g = (g1, acks)"
  shows "mset (pending g) + mset (delivered_copies [i]) = mset (pending g1) + mset acks"
  using assms
  by (cases i) (auto simp: resolve_def split: if_splits prod.splits dest!: onDelivery_conserves)

lemma delivered_copies_Cons: "delivered_copies (i # is) = delivered_copies [i] @ delivered_copies is"
  by (cases i) simp_all

lemma group_run_conserves:
  assumes "group_run g is = (g', acks)"
  shows "mset (pending g) + mset (delivered_copies is) = mset (pending g') + mset acks"
  using assms
proof (induction g "is" arbitrary: acks rule: group_run.induct)
  case (2 g i "is")
  obtain g1 a1 where s: "group_step i g = (g1, a1)" by (cases "group_step i g")
  obtain a2 where r: "group_run g1 is = (g', a2)" "acks = a1 @ a2"
    using 2(2) s by (auto split: prod.splits)
  note IH = 2(1) [OF s [symmetric] r(1)]
  have "mset (pending g) + mset (delivered_copies (i # is)) =
      (mset (pending g) + mset (delivered_copies [i])) + mset (delivered_copies is)"
    by (simp add: delivered_copies_Cons [of i "is"] add.assoc)
  also have "\<dots> = (mset (pending g1) + mset (delivered_copies is)) + mset a1"
    unfolding group_step_conserves [OF s] by (simp add: ac_simps)
  also have "\<dots> = mset (pending g') + mset acks" unfolding IH r(2) by (simp add: ac_simps)
  finally show ?case .
qed simp

lemma resolve_clears: "pending (fst (resolve (epoch g) res g)) = []"
  by (simp add: resolve_def)

lemma group_run_append:
  "group_run g (is @ js) =
     (case group_run g is of (g1, a) \<Rightarrow> (case group_run g1 js of (g2, b) \<Rightarrow> (g2, a @ b)))"
  by (induction g "is" rule: group_run.induct) (auto split: prod.splits)

text \<open>C7: no copy is left without an answer and none is answered twice: in any history of deliveries and resolutions the copies delivered are exactly the copies acknowledged and the copies still pending, and once the current group resolves nothing is pending.\<close>

theorem every_copy_acked_once:
  assumes "group_run (CommandAckGroup_init tol) is = (g, acks)"
  shows "mset (delivered_copies is) = mset acks + mset (pending g) \<and>
    (\<forall>res. mset (delivered_copies is) =
       mset (snd (group_run (CommandAckGroup_init tol) (is @ [Resolve (epoch g) res]))))"
  using group_run_conserves [OF assms] assms
  by (simp add: CommandAckGroup_init_def group_run_append resolve_def add.commute)

theorem every_copy_acked_once_witness:
  "mset [1, 2] = mset (snd (group_run (CommandAckGroup_init 60000)
     ([Deliver 4 1000 (1::nat) CommandPayload_default 0 [], Deliver 5 2000 2 CommandPayload_default 0 []]
      @ [Resolve (epoch (fst (group_run (CommandAckGroup_init 60000)
          [Deliver 4 1000 (1::nat) CommandPayload_default 0 [], Deliver 5 2000 2 CommandPayload_default 0 []])))
        actioned_now])))"
  using every_copy_acked_once [of 60000
      "[Deliver 4 1000 (1::nat) CommandPayload_default 0 [], Deliver 5 2000 2 CommandPayload_default 0 []]", OF surjective_pairing]
  by simp

section \<open>A command is actuated once\<close>

fun actuates :: "'a group_input \<Rightarrow> 'a CommandAckGroup \<Rightarrow> bool" where
  "actuates (Deliver c t x pl i k) g = (disposition (snd (onDelivery c t x pl i k g)) = actuate)"
| "actuates (Resolve e res) g = False"

text \<open>A history in which no delivery actuates: no new command opens and no retry is taken.\<close>

fun quiet :: "'a CommandAckGroup \<Rightarrow> 'a group_input list \<Rightarrow> bool" where
  "quiet g [] = True"
| "quiet g (i # is) = (\<not> actuates i g \<and> quiet (fst (group_step i g)) is)"

text \<open>The identifiers a connection reported in a history.\<close>

fun ids_on :: "string \<Rightarrow> 'a group_input list \<Rightarrow> u64 set" where
  "ids_on k [] = {}"
| "ids_on k (Deliver c t x pl i k' # is) = (if k' = k \<and> i \<noteq> 0 then {i} else {}) \<union> ids_on k is"
| "ids_on k (Resolve e res # is) = ids_on k is"

definition same_command :: "'a CommandAckGroup \<Rightarrow> 'a CommandAckGroup \<Rightarrow> bool" where
  "same_command g g' \<longleftrightarrow> active g' = active g \<and> command g' = command g \<and> cmd_payload g' = cmd_payload g \<and>
     cmd_timestamp g' = cmd_timestamp g \<and> tolerance_ms g' = tolerance_ms g"

lemma onDelivery_quiet_ids:
  assumes "disposition (snd (onDelivery c t x pl i k g)) \<noteq> actuate"
  shows "last_id_by_connection (fst (onDelivery c t x pl i k g)) k' \<in>
      {last_id_by_connection g k'} \<union> (if k = k' \<and> i \<noteq> 0 then {Some i} else {})"
    and "last_id_by_connection g k' = Some j \<Longrightarrow>
      last_id_by_connection (fst (onDelivery c t x pl i k g)) k' = Some j"
  using assms
  by (auto simp: onDelivery_def note_id_def deliberate_retry_def Let_def split: if_splits option.splits)

lemma quiet_step:
  assumes "\<not> actuates inp g"
  shows "same_command g (fst (group_step inp g))"
    and "last_id_by_connection g k = Some j \<Longrightarrow> last_id_by_connection (fst (group_step inp g)) k = Some j"
    and "last_id_by_connection (fst (group_step inp g)) k = Some j \<Longrightarrow>
      last_id_by_connection g k = Some j \<or> j \<in> ids_on k [inp]"
proof -
  show "same_command g (fst (group_step inp g))"
  proof (cases inp)
    case (Deliver c t x pl i k)
    then show ?thesis using onDelivery_other_state [OF surjective_pairing, of c t x pl i k g] assms
      by (auto simp: same_command_def case_prod_unfold)
  qed (auto simp: same_command_def resolve_def)
  show "last_id_by_connection g k = Some j \<Longrightarrow> last_id_by_connection (fst (group_step inp g)) k = Some j"
    using assms onDelivery_quiet_ids(2) by (cases inp) (auto simp: case_prod_unfold resolve_def)
  show "last_id_by_connection (fst (group_step inp g)) k = Some j \<Longrightarrow>
      last_id_by_connection g k = Some j \<or> j \<in> ids_on k [inp]"
  proof (cases inp)
    case (Deliver c t x pl i k'')
    then show "last_id_by_connection (fst (group_step inp g)) k = Some j \<Longrightarrow> ?thesis"
      using assms onDelivery_quiet_ids(1) [of c t x pl i k'' g k]
      by (auto simp: case_prod_unfold split: if_splits)
  qed (auto simp: resolve_def split: if_splits)
qed

lemma ids_on_Cons: "ids_on k (i # is) = ids_on k [i] \<union> ids_on k is"
  by (cases i) auto

lemma quiet_run:
  assumes "quiet g is"
  shows "same_command g (fst (group_run g is))"
    and "last_id_by_connection g k = Some j \<Longrightarrow> last_id_by_connection (fst (group_run g is)) k = Some j"
    and "last_id_by_connection (fst (group_run g is)) k = Some j \<Longrightarrow>
      last_id_by_connection g k = Some j \<or> j \<in> ids_on k is"
proof -
  have "same_command g (fst (group_run g is)) \<and>
      (last_id_by_connection g k = Some j \<longrightarrow> last_id_by_connection (fst (group_run g is)) k = Some j) \<and>
      (last_id_by_connection (fst (group_run g is)) k = Some j \<longrightarrow>
        last_id_by_connection g k = Some j \<or> j \<in> ids_on k is)"
    using assms
  proof (induction "is" arbitrary: g)
    case (Cons i "is")
    have q: "\<not> actuates i g" "quiet (fst (group_step i g)) is" using Cons.prems by simp_all
    show ?case
      using Cons.IH [OF q(2)] quiet_step [OF q(1)] ids_on_Cons [of k i "is"]
      by (auto simp: case_prod_unfold same_command_def)
  qed (simp add: same_command_def)
  then show "same_command g (fst (group_run g is))"
    "last_id_by_connection g k = Some j \<Longrightarrow> last_id_by_connection (fst (group_run g is)) k = Some j"
    "last_id_by_connection (fst (group_run g is)) k = Some j \<Longrightarrow>
      last_id_by_connection g k = Some j \<or> j \<in> ids_on k is" by blast+
qed

lemma onDelivery_actuate_ids:
  assumes "onDelivery c t x pl i k g = (g', r)" and "disposition r = actuate"
  shows "last_id_by_connection g' k' = (if k' = k \<and> i \<noteq> 0 then Some i else None)"
  using assms by (auto simp: onDelivery_def note_id_def Let_def split: if_splits option.splits)

text \<open>C8: a command is actuated once per opening of the group. With a dedup window above 0 and coordinates that are numbers, once a delivery has actuated, and for as long as no further delivery actuates, whatever resolutions, copies and stale deliveries arrive meanwhile: the same delivery repeated does not actuate; and neither does a copy of the command, with a payload that is the same for the group, from any server, whose timestamp is within the window and whose connection has reported no other identifier since the group opened.\<close>

theorem redelivery_not_actuated:
  assumes "0 < tolerance_ms g" and "payload_wf pl"
    and "onDelivery c t x pl i k g = (g1, r)" and "disposition r = actuate"
    and "quiet g1 is"
  shows "disposition (snd (onDelivery c t y pl i k (fst (group_run g1 is)))) \<noteq> actuate \<and>
    (sameAs pl pl' \<and> withinTolerance t' g1 \<and> ids_on k' (Deliver c t x pl i k # is) \<subseteq> {i'} \<longrightarrow>
       disposition (snd (onDelivery c t' y pl' i' k' (fst (group_run g1 is)))) \<noteq> actuate)"
proof -
  let ?g2 = "fst (group_run g1 is)"
  note st = onDelivery_actuate_state [OF assms(3,4)] and ids = onDelivery_actuate_ids [OF assms(3,4)]
  have same: "active ?g2" "command ?g2 = c" "cmd_payload ?g2 = pl" "cmd_timestamp ?g2 = t"
    "tolerance_ms ?g2 = tolerance_ms g"
    using quiet_run(1) [OF assms(5)] st by (auto simp: same_command_def)
  have "\<not> deliberate_retry i k ?g2"
    using quiet_run(2) [OF assms(5), of k i] ids [of k] by (auto simp: deliberate_retry_def)
  then have "disposition (snd (onDelivery c t y pl i k ?g2)) \<noteq> actuate"
    using same assms(1,2) by (auto simp: onDelivery_actuate_iff withinTolerance_def)
  moreover have "disposition (snd (onDelivery c t' y pl' i' k' ?g2)) \<noteq> actuate"
    if "sameAs pl pl'" "withinTolerance t' g1" "ids_on k' (Deliver c t x pl i k # is) \<subseteq> {i'}"
  proof -
    have "last_id_by_connection ?g2 k' \<in> {None, Some i'}"
      using quiet_run(3) [OF assms(5), of k'] ids [of k'] that(3)
      by (cases "last_id_by_connection ?g2 k'") (auto split: if_splits)
    then have "\<not> deliberate_retry i' k' ?g2" by (auto simp: deliberate_retry_def)
    moreover have "withinTolerance t' ?g2 = withinTolerance t' g1"
      using quiet_run(1) [OF assms(5)] by (simp add: same_command_def withinTolerance_def)
    ultimately show ?thesis using same that by (simp add: onDelivery_actuate_iff)
  qed
  ultimately show ?thesis by blast
qed

text \<open>A copy from another server, a resolution and a stale command between the delivery and its repetitions.\<close>

definition between :: "nat group_input list" where
  "between = [Deliver 4 900500 2 CommandPayload_default 9 ''b:1'', Resolve 1 actioned_now,
     Deliver 5 1000 3 CommandPayload_default 0 ''b:1'']"

theorem redelivery_not_actuated_witness:
  "disposition (snd (onDelivery 4 900000 (5::nat) CommandPayload_default 7 ''a:1'' (fst (group_run
     (fst (onDelivery 4 900000 1 CommandPayload_default 7 ''a:1'' (CommandAckGroup_init 60000))) between)))) \<noteq> actuate"
proof -
  let ?d = "onDelivery 4 900000 (1::nat) CommandPayload_default 7 ''a:1'' (CommandAckGroup_init 60000)"
  have d: "disposition (snd ?d) = actuate" by (simp add: onDelivery_actuate_iff CommandAckGroup_init_def)
  have q: "quiet (fst ?d) between"
    by (simp add: between_def onDelivery_def CommandAckGroup_init_def Let_def note_id_def deliberate_retry_def
        withinTolerance_def sameAs_def CommandPayload_default_def resolve_def)
  show ?thesis
    using redelivery_not_actuated [of "CommandAckGroup_init 60000" CommandPayload_default 4 900000 1 7
        "''a:1''" "fst ?d" "snd ?d" between 5, OF _ _ surjective_pairing d q, THEN conjunct1]
    by (simp add: CommandAckGroup_init_def payload_wf_def CommandPayload_default_def)
qed

section \<open>Staleness\<close>

text \<open>A delivery of a different command that is older than the one in effect, and no operator retry, is not actuated however old it is: it is answered as superseded and leaves the group as it was.\<close>

lemma older_command_superseded:
  assumes "active g" and "t < cmd_timestamp g" and "\<not> deliberate_retry i k g"
    and "command g \<noteq> c \<or> \<not> sameAs (cmd_payload g) pl"
  shows "fst (onDelivery c t x pl i k g) = g \<and>
    disposition (snd (onDelivery c t x pl i k g)) = stale_superseded"
  using assms by (auto simp: onDelivery_def Let_def)

lemma older_command_superseded_witness:
  "disposition (snd (onDelivery 9 1000 (2::nat) CommandPayload_default 0 []
     (fst (onDelivery 4 900000 1 CommandPayload_default 0 [] (CommandAckGroup_init 60000))))) = stale_superseded"
proof -
  let ?g = "fst (onDelivery 4 900000 (1::nat) CommandPayload_default 0 [] (CommandAckGroup_init 60000))"
  have "active ?g" "cmd_timestamp ?g = 900000" "command ?g = 4"
    by (simp_all add: onDelivery_def CommandAckGroup_init_def Let_def)
  then show ?thesis
    using older_command_superseded [of ?g 1000 0 "[]" 9 CommandPayload_default 2]
    by (simp add: deliberate_retry_def)
qed

text \<open>C39: the staleness rule has a gap: a replay of the command in effect that is older than the tolerance window is actuated as new and moves the clock of the group back, after which a different command that was already replaced is actuated again.\<close>

theorem stale_replay_reopens_group:
  assumes "active g" and "command g = c" and "sameAs (cmd_payload g) pl"
    and "t < cmd_timestamp g" and "tolerance_ms g \<le> cmd_timestamp g - t"
    and "t \<le> t'" and "t' < cmd_timestamp g" and "c' \<noteq> c"
  shows "let (g1, r1) = onDelivery c t x pl 0 k g; (g2, r2) = onDelivery c' t' y pl' 0 k' g1
    in disposition r1 = actuate \<and> cmd_timestamp g1 = t \<and> disposition r2 = actuate \<and> command g2 = c'"
proof -
  obtain g1 r1 where d1: "onDelivery c t x pl 0 k g = (g1, r1)" by fastforce
  obtain g2 r2 where d2: "onDelivery c' t' y pl' 0 k' g1 = (g2, r2)" by fastforce
  have "disposition r1 = actuate"
    using onDelivery_actuate_iff [of c t x pl 0 k g] d1 assms
    by (auto simp: withinTolerance_def deliberate_retry_def not_less)
  note st1 = this onDelivery_actuate_state [OF d1 this]
  then have "disposition r2 = actuate"
    using onDelivery_actuate_iff [of c' t' y pl' 0 k' g1] d2 assms(6,8) by auto
  note st2 = this onDelivery_actuate_state [OF d2 this]
  show ?thesis using st1 st2 d1 d2 by simp
qed

theorem stale_replay_reopens_group_witness:
  "let (g0, r0) = onDelivery 1 200000 (0::nat) CommandPayload_default 0 [] (CommandAckGroup_init 60000);
       (g1, r1) = onDelivery 1 1000 1 CommandPayload_default 0 [] g0;
       (g2, r2) = onDelivery 4 100000 2 CommandPayload_default 0 [] g1
   in disposition r1 = actuate \<and> cmd_timestamp g1 = 1000 \<and> disposition r2 = actuate \<and> command g2 = 4"
proof -
  let ?g = "fst (onDelivery 1 200000 (0::nat) CommandPayload_default 0 [] (CommandAckGroup_init 60000))"
  have "active ?g" "cmd_timestamp ?g = 200000" "command ?g = 1" "tolerance_ms ?g = 60000"
    "cmd_payload ?g = CommandPayload_default"
    by (simp_all add: onDelivery_def CommandAckGroup_init_def Let_def)
  then show ?thesis
    using stale_replay_reopens_group [of ?g 1 CommandPayload_default 1000 100000 4 1 "[]" 2 CommandPayload_default "[]"]
    by (simp add: case_prod_unfold Let_def sameAs_def CommandPayload_default_def)
qed

end
