(* ===== verification/Fss_Client.thy ===== *)
theory Fss_Client
  imports Ack_Group
begin

text \<open>
  The client of the ground station servers, \<open>src/fss/fss-client-ssl.cpp\<close>,
  \<open>src/fss/internal.hpp\<close> and \<open>src/fss/command-ack.hpp\<close>. The transport library is not
  part of the repository: its enumerations appear by name, and what it answers (which
  connections are alive, what they negotiated, the clock) is the environment of a step. The
  messages sent and the callbacks made are the output of a step, in the order of the code.
\<close>

section \<open>Transport vocabulary\<close>

datatype fss_asset_command =
    asset_command_unknown | asset_command_rtl | asset_command_disarm | asset_command_goto
  | asset_command_altitude | asset_command_hold | asset_command_resume | asset_command_terminate
  | asset_command_manual | asset_command_unlisted nat

datatype fss_command_ack_outcome =
    command_ack_received | command_ack_rejected | command_ack_superseded | command_ack_actioned
  | command_ack_noop

datatype fss_command_ack_reason =
    supersede_none | supersede_low_battery | supersede_comms_loss | supersede_newer_command

datatype connection_status =
    CLIENT_CONNECTION_STATUS_UNKNOWN | CLIENT_CONNECTION_STATUS_DISCONNECTED
  | CLIENT_CONNECTION_STATUS_CONNECTED_1_SERVER | CLIENT_CONNECTION_STATUS_CONNECTED_2_OR_MORE

text \<open>A connection is named by a number; a message arrives on a server object.\<close>

type_synonym conn_id = nat

record fss_message_asset_command =
  am_id :: u64
  am_timestamp :: u64
  am_command :: fss_asset_command
  am_latitude :: dbl
  am_longitude :: dbl
  am_altitude :: u32
  am_server_command_id :: u64

record fss_server =
  fs_connection :: "conn_id option"
  fs_address :: string
  fs_port :: nat

record fss_message_position =
  pm_latitude :: dbl
  pm_longitude :: dbl
  pm_altitude :: int
  pm_heading :: u16
  pm_horz_vel :: u16
  pm_vert_vel :: i16
  pm_callsign :: string
  pm_squawk :: u16
  pm_icao :: u32
  pm_timestamp :: u64
  pm_flags :: u16
  pm_altitude_type :: u8
  pm_emitter_type :: u8

text \<open>What the library answers during a step.\<close>

record fss_env =
  fe_alive :: "conn_id \<Rightarrow> bool"
  fe_negotiated :: "conn_id \<Rightarrow> u64"
  fe_FEATURE_COMMAND_ACK :: u64
  fe_skewed_timestamp :: u64
  fe_steady_now_ns :: int
  fe_asset_name :: string
  fe_command_code :: "fss_asset_command \<Rightarrow> int"

section \<open>Acknowledgement fields (command-ack.hpp)\<close>

definition fss_command_ack_outcome_for :: "FSSCommandResolution \<Rightarrow> fss_command_ack_outcome" where
  "fss_command_ack_outcome_for res =
     (if outcome res = fss_command_superseded then command_ack_superseded
      else if transitioned res then command_ack_actioned
      else command_ack_noop)"

definition stale_command_ack_outcome :: fss_command_ack_outcome where
  "stale_command_ack_outcome = command_ack_superseded"

definition stale_command_ack_reason :: fss_command_ack_reason where
  "stale_command_ack_reason = supersede_newer_command"

definition fss_command_ack_reason_for :: "FSSCommandResolution \<Rightarrow> fss_command_ack_reason" where
  "fss_command_ack_reason_for res =
     (if outcome res \<noteq> fss_command_superseded \<or> superseding_state res = None then supersede_none
      else case the (superseding_state res) of
        fmu_state_low_battery \<Rightarrow> supersede_low_battery
      | fmu_state_failsafe \<Rightarrow> supersede_comms_loss
      | _ \<Rightarrow> supersede_none)"

section \<open>State and output\<close>

record pending_command_ack =
  pa_conn :: "conn_id option"
  pa_acked_id :: u64
  pa_raw_command :: fss_asset_command

record fss_client_ssl =
  command_cb :: bool
  comms_status_cb :: bool
  smm_settings_cb :: bool
  position_data_cb :: bool
  position_last_sent :: int
  command_group :: "pending_command_ack CommandAckGroup"

record fss_position_report =
  fr_latitude :: dbl
  fr_longitude :: dbl
  fr_altitude :: i16
  fr_heading :: u16
  fr_hor_vel :: u16
  fr_ver_vel :: i16
  fr_icao :: u32
  fr_callsign :: string
  fr_squawk :: u16
  fr_ts_since_contact :: nat
  fr_valid_fields :: u32
  fr_altitude_type :: u8
  fr_emitter_type :: u8
  fr_timestamp :: u64

datatype fss_out =
    Out_command_ack conn_id u64 fss_asset_command fss_command_ack_outcome fss_command_ack_reason u64
  | Out_command FSSCommand FSSCommandTarget u64
  | Out_comms_status FSSCommsStatus
  | Out_smm_settings SMMSettings
  | Out_position_data PositionData
  | Out_position_report fss_position_report
  | Out_search_status nat int int
  | Out_system_status i8 i32 dbl

definition command_dedup_tolerance_ms :: u64 where
  "command_dedup_tolerance_ms = 60000"

definition fss_client_ssl_init :: fss_client_ssl where
  "fss_client_ssl_init =
     \<lparr>command_cb = False, comms_status_cb = False, smm_settings_cb = False, position_data_cb = False,
      position_last_sent = 0, command_group = CommandAckGroup_init command_dedup_tolerance_ms\<rparr>"

section \<open>Callbacks\<close>

text \<open>A responder is named by the epoch that its closure carries.\<close>

definition report_command :: "FSSCommand \<Rightarrow> FSSCommandTarget \<Rightarrow> u64 \<Rightarrow> fss_client_ssl \<Rightarrow> fss_out list" where
  "report_command cmd target ack c = (if command_cb c then [Out_command cmd target ack] else [])"

definition report_comms_status :: "FSSCommsStatus \<Rightarrow> fss_client_ssl \<Rightarrow> fss_out list" where
  "report_comms_status status c = (if comms_status_cb c then [Out_comms_status status] else [])"

definition report_smm_settings :: "SMMSettings \<Rightarrow> fss_client_ssl \<Rightarrow> fss_out list" where
  "report_smm_settings settings c = (if smm_settings_cb c then [Out_smm_settings settings] else [])"

definition report_position_data :: "PositionData \<Rightarrow> fss_client_ssl \<Rightarrow> fss_out list" where
  "report_position_data pd c = (if position_data_cb c then [Out_position_data pd] else [])"

definition registerCommandCB :: "bool \<Rightarrow> fss_client_ssl \<Rightarrow> fss_client_ssl" where
  "registerCommandCB cb c = c\<lparr>command_cb := cb\<rparr>"

definition registerCommsStatusCB :: "bool \<Rightarrow> fss_client_ssl \<Rightarrow> fss_client_ssl \<times> fss_out list" where
  "registerCommsStatusCB cb c =
     (let c1 = c\<lparr>comms_status_cb := cb\<rparr> in (c1, report_comms_status fss_comms_failure c1))"

definition registerSMMSettingsCB :: "bool \<Rightarrow> fss_client_ssl \<Rightarrow> fss_client_ssl" where
  "registerSMMSettingsCB cb c = c\<lparr>smm_settings_cb := cb\<rparr>"

definition registerPositionDataCB :: "bool \<Rightarrow> fss_client_ssl \<Rightarrow> fss_client_ssl" where
  "registerPositionDataCB cb c = c\<lparr>position_data_cb := cb\<rparr>"

section \<open>Acknowledging\<close>

definition sendCommandAck ::
  "fss_env \<Rightarrow> conn_id option \<Rightarrow> u64 \<Rightarrow> fss_asset_command \<Rightarrow> fss_command_ack_outcome
   \<Rightarrow> fss_command_ack_reason \<Rightarrow> fss_out list" where
  "sendCommandAck env conn acked_id raw_command oc reason =
     (case conn of
        None \<Rightarrow> []
      | Some c \<Rightarrow>
          if and (fe_negotiated env c) (fe_FEATURE_COMMAND_ACK env) = 0 then []
          else [Out_command_ack c acked_id raw_command oc reason (fe_skewed_timestamp env)])"

text \<open>\<open>weak_ptr::lock\<close>: empty when the connection is gone.\<close>

definition lock_conn :: "fss_env \<Rightarrow> conn_id option \<Rightarrow> conn_id option" where
  "lock_conn env w = (case w of Some c \<Rightarrow> if fe_alive env c then Some c else None | None \<Rightarrow> None)"

definition ackPending :: "fss_env \<Rightarrow> pending_command_ack \<Rightarrow> FSSCommandResolution \<Rightarrow> fss_out list" where
  "ackPending env target res =
     sendCommandAck env (lock_conn env (pa_conn target)) (pa_acked_id target) (pa_raw_command target)
       (fss_command_ack_outcome_for res) (fss_command_ack_reason_for res)"

definition ackStale :: "fss_env \<Rightarrow> pending_command_ack \<Rightarrow> fss_out list" where
  "ackStale env target =
     sendCommandAck env (lock_conn env (pa_conn target)) (pa_acked_id target) (pa_raw_command target)
       stale_command_ack_outcome stale_command_ack_reason"

text \<open>The closure that the responder of a command runs.\<close>

definition run_responder ::
  "fss_env \<Rightarrow> u64 \<Rightarrow> FSSCommandResolution \<Rightarrow> fss_client_ssl \<Rightarrow> fss_client_ssl \<times> fss_out list" where
  "run_responder env my_epoch res c =
     (case resolve my_epoch res (command_group c) of
        (g, targets) \<Rightarrow> (c\<lparr>command_group := g\<rparr>, concat (map (\<lambda>t. ackPending env t res) targets)))"

section \<open>Commands\<close>

fun fss_command_of :: "fss_asset_command \<Rightarrow> FSSCommand option" where
  "fss_command_of asset_command_rtl = Some fss_cmd_rtl"
| "fss_command_of asset_command_disarm = Some fss_cmd_disarm"
| "fss_command_of asset_command_goto = Some fss_cmd_goto"
| "fss_command_of asset_command_altitude = Some fss_cmd_altitude"
| "fss_command_of asset_command_hold = Some fss_cmd_hold"
| "fss_command_of asset_command_resume = Some fss_cmd_continue"
| "fss_command_of asset_command_terminate = Some fss_cmd_terminate"
| "fss_command_of asset_command_manual = Some fss_cmd_manual"
| "fss_command_of asset_command_unknown = None"
| "fss_command_of (asset_command_unlisted _) = None"

definition command_payload :: "fss_message_asset_command \<Rightarrow> CommandPayload" where
  "command_payload msg =
     (if am_command msg = asset_command_goto then forPosition (am_latitude msg) (am_longitude msg)
      else if am_command msg = asset_command_altitude then forAltitude (am_altitude msg)
      else CommandPayload_default)"

definition command_target :: "fss_message_asset_command \<Rightarrow> FSSCommandTarget" where
  "command_target msg =
     (if am_command msg = asset_command_goto
      then FSSCommandTarget_default
        \<lparr>target_position := \<lparr>latitude = am_latitude msg, longitude = am_longitude msg\<rparr>\<rparr>
      else if am_command msg = asset_command_altitude
      then FSSCommandTarget_default\<lparr>target_altitude := am_altitude msg\<rparr>
      else FSSCommandTarget_default)"

definition origin_key :: "fss_server \<Rightarrow> string" where
  "origin_key origin = fs_address origin @ '':'' @ to_string_nat (fs_port origin)"

definition handleCommandFrom ::
  "fss_env \<Rightarrow> fss_message_asset_command \<Rightarrow> fss_server \<Rightarrow> fss_client_ssl \<Rightarrow> fss_client_ssl \<times> fss_out list" where
  "handleCommandFrom env msg origin c =
     (let acked_id = am_id msg; ts = am_timestamp msg; raw_command = am_command msg;
          conn = fs_connection origin;
          this_copy = \<lparr>pa_conn = conn, pa_acked_id = acked_id, pa_raw_command = raw_command\<rparr>;
          received = sendCommandAck env conn acked_id raw_command command_ack_received supersede_none;
          rejected = sendCommandAck env conn acked_id raw_command command_ack_rejected supersede_none
      in case fss_command_of raw_command of
           None \<Rightarrow> (c, received @ rejected)
         | Some cmd \<Rightarrow>
             if raw_command = asset_command_goto \<and>
                \<not> Point_isValid \<lparr>latitude = am_latitude msg, longitude = am_longitude msg\<rparr>
             then (c, received @ rejected)
             else (case onDelivery (fe_command_code env raw_command) ts this_copy (command_payload msg)
                      (am_server_command_id msg) (origin_key origin) (command_group c) of
                (g, delivery) \<Rightarrow>
                  let c1 = c\<lparr>command_group := g\<rparr>
                  in case disposition delivery of
                       pending_copy \<Rightarrow> (c1, received)
                     | already_resolved \<Rightarrow>
                         (c1, received @ (case dr_resolution delivery of
                                            Some res \<Rightarrow> ackPending env this_copy res | None \<Rightarrow> []))
                     | stale_superseded \<Rightarrow> (c1, received @ ackStale env this_copy)
                     | actuate \<Rightarrow>
                         (c1, received @ concat (map (ackStale env) (superseded delivery)) @
                              report_command cmd (command_target msg) (dr_epoch delivery) c1)))"

section \<open>Link status and reports\<close>

definition connectionStatusChange :: "connection_status \<Rightarrow> fss_client_ssl \<Rightarrow> fss_out list" where
  "connectionStatusChange status c =
     (case status of
        CLIENT_CONNECTION_STATUS_CONNECTED_1_SERVER \<Rightarrow> report_comms_status fss_comms_okay c
      | CLIENT_CONNECTION_STATUS_CONNECTED_2_OR_MORE \<Rightarrow> report_comms_status fss_comms_okay c
      | CLIENT_CONNECTION_STATUS_DISCONNECTED \<Rightarrow> report_comms_status fss_comms_failure c
      | CLIENT_CONNECTION_STATUS_UNKNOWN \<Rightarrow> report_comms_status fss_comms_failure c)"

definition handlePositionReport :: "fss_message_position \<Rightarrow> fss_client_ssl \<Rightarrow> fss_out list" where
  "handlePositionReport msg c =
     report_position_data
       (PositionData_peer (pm_latitude msg) (pm_longitude msg)
          (feet_to_metres (Fin (of_int (pm_altitude msg)))) (pm_heading msg) (pm_horz_vel msg)
          (pm_vert_vel msg) (pm_callsign msg) (pm_squawk msg) (pm_icao msg) (pm_timestamp msg)
          (pm_flags msg) (pm_altitude_type msg) (pm_emitter_type msg)) c"

definition handleSMMSettings :: "string \<Rightarrow> string \<Rightarrow> string \<Rightarrow> fss_client_ssl \<Rightarrow> fss_out list" where
  "handleSMMSettings url user pass c =
     report_smm_settings \<lparr>smm_url = url, smm_settings_user = user, smm_settings_pass = pass\<rparr> c"

definition valid_fields_all :: u32 where
  "valid_fields_all = or 1 (or 2 (or 4 (or 8 (or 16 32))))"

definition valid_fields_no_fix :: u32 where
  "valid_fields_no_fix = and valid_fields_all (not 1)"

definition client_sendPosition ::
  "fss_env \<Rightarrow> dbl \<Rightarrow> dbl \<Rightarrow> i16 \<Rightarrow> u16 \<Rightarrow> u16 \<Rightarrow> i16 \<Rightarrow> bool \<Rightarrow> fss_client_ssl
   \<Rightarrow> fss_client_ssl \<times> fss_out list" where
  "client_sendPosition env lat lng alt heading hor_vel ver_vel fix_valid c =
     (let now = fe_steady_now_ns env
      in if now - position_last_sent c \<ge> 1000 * 1000000
         then (c\<lparr>position_last_sent := now\<rparr>,
               [Out_position_report
                  \<lparr>fr_latitude = lat, fr_longitude = lng, fr_altitude = alt, fr_heading = heading,
                   fr_hor_vel = hor_vel, fr_ver_vel = ver_vel, fr_icao = 0,
                   fr_callsign = fe_asset_name env, fr_squawk = 1200, fr_ts_since_contact = 0,
                   fr_valid_fields = (if fix_valid then valid_fields_all else valid_fields_no_fix),
                   fr_altitude_type = 1, fr_emitter_type = 14, fr_timestamp = fe_skewed_timestamp env\<rparr>])
         else (c, []))"

definition client_reachedPoint :: "int \<Rightarrow> int \<Rightarrow> fss_out list" where
  "client_reachedPoint pt total_points = [Out_search_status 0 pt total_points]"

definition client_sendBatteryStatus :: "i8 \<Rightarrow> i32 \<Rightarrow> dbl \<Rightarrow> fss_out list" where
  "client_sendBatteryStatus remaining consumed voltage = [Out_system_status remaining consumed voltage]"

section \<open>Own position reports\<close>

text \<open>A call of \<open>sendPosition\<close>: the environment and the arguments.\<close>

record position_call =
  pc_env :: fss_env
  pc_lat :: dbl
  pc_lng :: dbl
  pc_alt :: i16
  pc_heading :: u16
  pc_hor_vel :: u16
  pc_ver_vel :: i16
  pc_fix_valid :: bool

abbreviation do_sendPosition :: "position_call \<Rightarrow> fss_client_ssl \<Rightarrow> fss_client_ssl \<times> fss_out list" where
  "do_sendPosition k \<equiv> client_sendPosition (pc_env k) (pc_lat k) (pc_lng k) (pc_alt k) (pc_heading k)
     (pc_hor_vel k) (pc_ver_vel k) (pc_fix_valid k)"

interpretation own_position: throttle "\<lambda>k c. fst (do_sendPosition k c)" "\<lambda>k. fe_steady_now_ns (pc_env k)"
    "\<lambda>k c. snd (do_sendPosition k c) \<noteq> []" "\<lambda>c. Some (position_last_sent c)" "1000000000"
  by unfold_locales (auto simp: client_sendPosition_def Let_def split: if_splits)

section \<open>What a command can cause\<close>

lemma report_command_out: "x \<in> set (report_command cmd tgt e c) \<longleftrightarrow> command_cb c \<and> x = Out_command cmd tgt e"
  by (auto simp: report_command_def)

lemma sendCommandAck_out:
  "x \<in> set (sendCommandAck env conn i raw oc reason) \<longleftrightarrow>
     (\<exists>c. conn = Some c \<and> and (fe_negotiated env c) (fe_FEATURE_COMMAND_ACK env) \<noteq> 0 \<and>
       x = Out_command_ack c i raw oc reason (fe_skewed_timestamp env))"
  by (auto simp: sendCommandAck_def split: option.splits)

lemma ack_not_command [simp]:
  "Out_command cmd tgt e \<notin> set (sendCommandAck env conn i raw oc reason)"
  "Out_command cmd tgt e \<notin> set (ackPending env t res)"
  "Out_command cmd tgt e \<notin> set (ackStale env t)"
  by (auto simp: sendCommandAck_out ackPending_def ackStale_def)

lemma fss_command_of_wire: "fss_command_of raw = Some cmd \<Longrightarrow> cmd \<noteq> fss_cmd_unknown \<and> (cmd = fss_cmd_goto \<longleftrightarrow> raw = asset_command_goto)"
  by (cases raw) auto

text \<open>C11: a message makes the client command the state machine only when it opened a new command in the group, with the responder of that group; the command is never the unknown one, and a goto always carries a valid position.\<close>

theorem handleCommandFrom_commands:
  assumes "handleCommandFrom env msg origin c = (c', outs)" and "Out_command cmd tgt e \<in> set outs"
  shows "fss_command_of (am_command msg) = Some cmd \<and> cmd \<noteq> fss_cmd_unknown \<and> tgt = command_target msg \<and>
    (cmd = fss_cmd_goto \<longrightarrow> Point_isValid (target_position tgt)) \<and>
    epoch (command_group c') = epoch (command_group c) + 1 \<and> e = epoch (command_group c') \<and>
    resolution (command_group c') = None"
proof -
  obtain cmd' where cmd': "fss_command_of (am_command msg) = Some cmd'"
    using assms by (auto simp: handleCommandFrom_def Let_def split: option.splits)
  obtain g d where del: "onDelivery (fe_command_code env (am_command msg)) (am_timestamp msg)
      \<lparr>pa_conn = fs_connection origin, pa_acked_id = am_id msg, pa_raw_command = am_command msg\<rparr>
      (command_payload msg) (am_server_command_id msg) (origin_key origin) (command_group c) = (g, d)"
    by fastforce
  have bad: "\<not> (am_command msg = asset_command_goto \<and>
      \<not> Point_isValid \<lparr>latitude = am_latitude msg, longitude = am_longitude msg\<rparr>)"
    using assms cmd' by (auto simp: handleCommandFrom_def Let_def split: if_splits)
  have act: "disposition d = actuate"
    using assms cmd' bad del
    by (auto simp: handleCommandFrom_def Let_def split: Disposition.splits option.splits)
  have "c' = c\<lparr>command_group := g\<rparr>" "Out_command cmd tgt e \<in> set (report_command cmd' (command_target msg) (dr_epoch d) c')"
    using assms cmd' bad del act by (auto simp: handleCommandFrom_def Let_def)
  then show ?thesis
    using cmd' bad fss_command_of_wire [OF cmd'] onDelivery_actuate_state [OF del act]
    by (auto simp: report_command_out command_target_def)
qed

definition all_alive :: fss_env where
  "all_alive = \<lparr>fe_alive = (\<lambda>_. True), fe_negotiated = (\<lambda>_. 1), fe_FEATURE_COMMAND_ACK = 1,
     fe_skewed_timestamp = 0, fe_steady_now_ns = 0, fe_asset_name = ''uav'',
     fe_command_code = (\<lambda>r. case r of asset_command_rtl \<Rightarrow> 1 | asset_command_goto \<Rightarrow> 2 | _ \<Rightarrow> 0)\<rparr>"

definition sample_rtl :: fss_message_asset_command where
  "sample_rtl = \<lparr>am_id = 7, am_timestamp = 1000, am_command = asset_command_rtl, am_latitude = Fin 0,
     am_longitude = Fin 0, am_altitude = 0, am_server_command_id = 0\<rparr>"

definition sample_server :: fss_server where
  "sample_server = \<lparr>fs_connection = Some 3, fs_address = ''10.0.0.1'', fs_port = 20202\<rparr>"

theorem handleCommandFrom_commands_witness:
  "resolution (command_group (fst (handleCommandFrom all_alive sample_rtl sample_server
     (registerCommandCB True fss_client_ssl_init)))) = None"
proof -
  let ?c = "registerCommandCB True fss_client_ssl_init"
  let ?r = "handleCommandFrom all_alive sample_rtl sample_server ?c"
  have "Out_command fss_cmd_rtl FSSCommandTarget_default 1 \<in> set (snd ?r)"
    by (simp add: handleCommandFrom_def sample_rtl_def registerCommandCB_def fss_client_ssl_init_def
        onDelivery_def CommandAckGroup_init_def Let_def report_command_def command_target_def note_id_def)
  then show ?thesis using handleCommandFrom_commands [of all_alive sample_rtl sample_server ?c "fst ?r" "snd ?r"] by simp
qed

section \<open>Every message is acknowledged\<close>

datatype client_input =
    Cmd_message fss_message_asset_command fss_server
  | Cmd_resolved u64 FSSCommandResolution

fun client_step :: "fss_env \<Rightarrow> client_input \<Rightarrow> fss_client_ssl \<Rightarrow> fss_client_ssl \<times> fss_out list" where
  "client_step env (Cmd_message msg origin) c = handleCommandFrom env msg origin c"
| "client_step env (Cmd_resolved e res) c = run_responder env e res c"

text \<open>The copies a list of outputs acknowledges, on receipt and with a terminal outcome.\<close>

fun received_of :: "fss_out \<Rightarrow> (conn_id \<times> u64 \<times> fss_asset_command) list" where
  "received_of (Out_command_ack c i raw oc reason ts) = (if oc = command_ack_received then [(c, i, raw)] else [])"
| "received_of _ = []"

fun terminal_of :: "fss_out \<Rightarrow> (conn_id \<times> u64 \<times> fss_asset_command) list" where
  "terminal_of (Out_command_ack c i raw oc reason ts) = (if oc = command_ack_received then [] else [(c, i, raw)])"
| "terminal_of _ = []"

definition received_acks :: "fss_out list \<Rightarrow> (conn_id \<times> u64 \<times> fss_asset_command) list" where
  "received_acks outs = concat (map received_of outs)"

definition terminal_acks :: "fss_out list \<Rightarrow> (conn_id \<times> u64 \<times> fss_asset_command) list" where
  "terminal_acks outs = concat (map terminal_of outs)"

fun message_keys :: "client_input list \<Rightarrow> (conn_id \<times> u64 \<times> fss_asset_command) list" where
  "message_keys [] = []"
| "message_keys (Cmd_message msg origin # is) =
     (case fs_connection origin of Some c \<Rightarrow> [(c, am_id msg, am_command msg)] | None \<Rightarrow> []) @ message_keys is"
| "message_keys (Cmd_resolved e res # is) = message_keys is"

definition copy_key :: "pending_command_ack \<Rightarrow> (conn_id \<times> u64 \<times> fss_asset_command) list" where
  "copy_key t = (case pa_conn t of Some c \<Rightarrow> [(c, pa_acked_id t, pa_raw_command t)] | None \<Rightarrow> [])"

definition copy_keys :: "pending_command_ack list \<Rightarrow> (conn_id \<times> u64 \<times> fss_asset_command) list" where
  "copy_keys ts = concat (map copy_key ts)"

text \<open>
  The connections that can be answered at a moment: still up, and acknowledgements negotiated.
  Each step of a history has an environment of its own, so a connection may come and go. The
  connection a message arrives on is up while the message is handled: the handler holds it.
\<close>

definition answers :: "fss_env \<Rightarrow> conn_id \<times> u64 \<times> fss_asset_command \<Rightarrow> bool" where
  "answers env k \<longleftrightarrow> fe_alive env (fst k) \<and> and (fe_negotiated env (fst k)) (fe_FEATURE_COMMAND_ACK env) \<noteq> 0"

fun origin_up :: "fss_env \<times> client_input \<Rightarrow> bool" where
  "origin_up (env, Cmd_message msg origin) = pred_option (fe_alive env) (fs_connection origin)"
| "origin_up (env, Cmd_resolved e res) = True"

text \<open>
  A history step by step: its environment, its input, the copies whose terminal
  acknowledgement fell due in it, and what it sent. A copy falls due when it was pending, or
  just arrived, and is not pending afterwards.
\<close>

definition due_in :: "client_input \<Rightarrow> fss_client_ssl \<Rightarrow> fss_client_ssl \<Rightarrow> (conn_id \<times> u64 \<times> fss_asset_command) multiset" where
  "due_in i c c' = mset (copy_keys (pending (command_group c))) + mset (message_keys [i])
     - mset (copy_keys (pending (command_group c')))"

fun client_run ::
  "fss_client_ssl \<Rightarrow> (fss_env \<times> client_input) list \<Rightarrow>
   fss_client_ssl \<times> (fss_env \<times> client_input \<times> (conn_id \<times> u64 \<times> fss_asset_command) multiset \<times> fss_out list) list" where
  "client_run c [] = (c, [])"
| "client_run c ((env, i) # is) =
     (case client_step env i c of (c1, out) \<Rightarrow>
        (case client_run c1 is of (c2, steps) \<Rightarrow> (c2, (env, i, due_in i c c1, out) # steps)))"

lemma acks_append [simp]:
  "terminal_acks (xs @ ys) = terminal_acks xs @ terminal_acks ys"
  "received_acks (xs @ ys) = received_acks xs @ received_acks ys"
  "copy_keys (ts @ us) = copy_keys ts @ copy_keys us"
  "terminal_acks [] = []" "received_acks [] = []" "copy_keys [] = []"
  by (simp_all add: terminal_acks_def received_acks_def copy_keys_def)

lemma mset_copy_keys: "mset ts = mset us \<Longrightarrow> mset (copy_keys ts) = mset (copy_keys us)"
proof -
  have "mset (copy_keys ts) = sum_mset (image_mset (\<lambda>t. mset (copy_key t)) (mset ts))" for ts
    by (induction ts) (simp_all add: copy_keys_def)
  then show "mset ts = mset us \<Longrightarrow> mset (copy_keys ts) = mset (copy_keys us)" by simp
qed

lemma sendCommandAck_acks:
  assumes "pred_option (fe_alive env) conn"
  shows "terminal_acks (sendCommandAck env conn i raw oc reason) =
      (if oc = command_ack_received then [] else filter (answers env) (case conn of Some c \<Rightarrow> [(c, i, raw)] | None \<Rightarrow> []))"
    and "received_acks (sendCommandAck env conn i raw oc reason) =
      (if oc = command_ack_received then filter (answers env) (case conn of Some c \<Rightarrow> [(c, i, raw)] | None \<Rightarrow> []) else [])"
  using assms
  by (auto simp: answers_def sendCommandAck_def terminal_acks_def received_acks_def split: option.splits)

lemma outcome_not_received: "fss_command_ack_outcome_for res \<noteq> command_ack_received"
  by (simp add: fss_command_ack_outcome_for_def)

lemma lock_conn_up: "pred_option (fe_alive env) (lock_conn env w)"
  by (simp add: lock_conn_def split: option.splits)

lemma locked_key:
  "filter (answers env) (case lock_conn env w of Some c \<Rightarrow> [(c, i, raw)] | None \<Rightarrow> []) =
     filter (answers env) (case w of Some c \<Rightarrow> [(c, i, raw)] | None \<Rightarrow> [])"
  by (auto simp: lock_conn_def answers_def split: option.splits)

lemma ackPending_acks:
  "terminal_acks (ackPending env t res) = filter (answers env) (copy_key t)" "received_acks (ackPending env t res) = []"
  by (simp_all add: ackPending_def sendCommandAck_acks [OF lock_conn_up] outcome_not_received locked_key copy_key_def)

lemma ackStale_acks:
  "terminal_acks (ackStale env t) = filter (answers env) (copy_key t)" "received_acks (ackStale env t) = []"
  by (simp_all add: ackStale_def sendCommandAck_acks [OF lock_conn_up] stale_command_ack_outcome_def locked_key copy_key_def)

lemma ack_lists:
  "terminal_acks (concat (map (ackStale env) ts)) = filter (answers env) (copy_keys ts)"
  "received_acks (concat (map (ackStale env) ts)) = []"
  "terminal_acks (concat (map (\<lambda>t. ackPending env t res) ts)) = filter (answers env) (copy_keys ts)"
  "received_acks (concat (map (\<lambda>t. ackPending env t res) ts)) = []"
  by (induction ts) (simp_all add: ackStale_acks ackPending_acks copy_keys_def)

lemma report_command_acks [simp]:
  "terminal_acks (report_command cmd tgt e c) = []" "received_acks (report_command cmd tgt e c) = []"
  by (simp_all add: report_command_def terminal_acks_def received_acks_def)

text \<open>One message: its copy is answered, or joins the pending copies of the group.\<close>

lemma already_resolved_resolution:
  assumes "onDelivery c t x pl i k g = (g', d)" and "disposition d = already_resolved"
  shows "dr_resolution d \<noteq> None"
  using assms by (auto simp: onDelivery_def Let_def split: if_splits option.splits)

text \<open>What a step owes: the copies that fall due are answered where their connection can be.\<close>

definition step_settles ::
  "fss_env \<Rightarrow> client_input \<Rightarrow> fss_client_ssl \<Rightarrow> fss_client_ssl \<Rightarrow> fss_out list \<Rightarrow> bool" where
  "step_settles env i c c' outs \<longleftrightarrow>
     (\<exists>due. mset (copy_keys (pending (command_group c))) + mset (message_keys [i]) =
          mset (copy_keys (pending (command_group c'))) + mset due \<and>
        mset (terminal_acks outs) = filter_mset (answers env) (mset due)) \<and>
     received_acks outs = filter (answers env) (message_keys [i])"

lemma handleCommandFrom_settles:
  assumes up: "origin_up (env, Cmd_message msg origin)" and h: "handleCommandFrom env msg origin c = (c', outs)"
  shows "step_settles env (Cmd_message msg origin) c c' outs"
proof -
  let ?copy = "\<lparr>pa_conn = fs_connection origin, pa_acked_id = am_id msg, pa_raw_command = am_command msg\<rparr>"
  have key: "message_keys [Cmd_message msg origin] = copy_keys [?copy]"
    "copy_keys [?copy] = (case fs_connection origin of Some c \<Rightarrow> [(c, am_id msg, am_command msg)] | None \<Rightarrow> [])"
    by (simp_all add: copy_keys_def copy_key_def split: option.splits)
  have alive: "pred_option (fe_alive env) (fs_connection origin)" using up by simp
  note acks = sendCommandAck_acks [OF alive] ackPending_acks ackStale_acks ack_lists
  obtain g d where del: "onDelivery (fe_command_code env (am_command msg)) (am_timestamp msg) ?copy
      (command_payload msg) (am_server_command_id msg) (origin_key origin) (command_group c) = (g, d)"
    by fastforce
  have rejected: ?thesis if "c' = c" "outs = sendCommandAck env (fs_connection origin) (am_id msg) (am_command msg)
      command_ack_received supersede_none @ sendCommandAck env (fs_connection origin) (am_id msg) (am_command msg)
      command_ack_rejected supersede_none"
    unfolding step_settles_def using that key by (intro conjI exI [of _ "copy_keys [?copy]"]) (simp_all add: acks)
  have delivered: ?thesis if "command_group c' = g" "\<exists>cmd. outs = sendCommandAck env (fs_connection origin) (am_id msg)
      (am_command msg) command_ack_received supersede_none @ (case disposition d of
         pending_copy \<Rightarrow> []
       | already_resolved \<Rightarrow> (case dr_resolution d of Some res \<Rightarrow> ackPending env ?copy res | None \<Rightarrow> [])
       | stale_superseded \<Rightarrow> ackStale env ?copy
       | actuate \<Rightarrow> concat (map (ackStale env) (superseded d)) @
           report_command cmd (command_target msg) (dr_epoch d) c')"
  proof -
    let ?due = "case disposition d of actuate \<Rightarrow> superseded d | already_resolved \<Rightarrow> [?copy]
      | pending_copy \<Rightarrow> [] | stale_superseded \<Rightarrow> [?copy]"
    have "mset (pending (command_group c) @ [?copy]) = mset (pending g @ ?due)"
      using onDelivery_conserves [OF del] by simp
    note b = mset_copy_keys [OF this]
    have one: "copy_key ?copy = (case fs_connection origin of Some c \<Rightarrow> [(c, am_id msg, am_command msg)] | None \<Rightarrow> [])"
      by (simp add: copy_key_def split: option.splits)
    have outs: "terminal_acks outs = filter (answers env) (copy_keys ?due) \<and>
      received_acks outs = filter (answers env) (copy_keys [?copy])"
    proof (cases "disposition d")
      case already_resolved
      then obtain res where "dr_resolution d = Some res" using already_resolved_resolution [OF del] by auto
      then show ?thesis using that(2) already_resolved by (auto simp: acks key(2) one)
    qed (use that(2) in \<open>auto simp: acks key(2) one\<close>)
    then show ?thesis
      unfolding step_settles_def using b that(1) key(1) outs by (intro conjI exI [of _ "copy_keys ?due"]) simp_all
  qed
  show ?thesis
  proof (cases "fss_command_of (am_command msg)")
    case None
    then show ?thesis using h by (intro rejected) (simp_all add: handleCommandFrom_def Let_def)
  next
    case (Some cmd)
    show ?thesis
    proof (cases "am_command msg = asset_command_goto \<and>
        \<not> Point_isValid \<lparr>latitude = am_latitude msg, longitude = am_longitude msg\<rparr>")
      case True
      then show ?thesis using h Some by (intro rejected) (simp_all add: handleCommandFrom_def Let_def)
    next
      case False
      have "handleCommandFrom env msg origin c = (c\<lparr>command_group := g\<rparr>,
          sendCommandAck env (fs_connection origin) (am_id msg) (am_command msg) command_ack_received supersede_none @
          (case disposition d of
             pending_copy \<Rightarrow> []
           | already_resolved \<Rightarrow> (case dr_resolution d of Some res \<Rightarrow> ackPending env ?copy res | None \<Rightarrow> [])
           | stale_superseded \<Rightarrow> ackStale env ?copy
           | actuate \<Rightarrow> concat (map (ackStale env) (superseded d)) @
               report_command cmd (command_target msg) (dr_epoch d) (c\<lparr>command_group := g\<rparr>)))"
        using Some False del by (cases "disposition d") (auto simp: handleCommandFrom_def Let_def)
      then show ?thesis using h by (intro delivered) auto
    qed
  qed
qed

lemma run_responder_settles:
  assumes "run_responder env e res c = (c', outs)"
  shows "step_settles env (Cmd_resolved e res) c c' outs"
proof -
  have "mset (copy_keys (pending (command_group c))) =
      mset (copy_keys (pending (command_group c'))) + mset (copy_keys (snd (resolve e res (command_group c))))"
    using assms by (auto simp: run_responder_def resolve_def split: if_splits)
  moreover have "terminal_acks outs = filter (answers env) (copy_keys (snd (resolve e res (command_group c))))"
    "received_acks outs = []"
    using assms by (auto simp: run_responder_def case_prod_unfold ack_lists)
  ultimately show ?thesis
    unfolding step_settles_def by (intro conjI exI [of _ "copy_keys (snd (resolve e res (command_group c)))"]) simp_all
qed

lemma client_step_settles:
  "origin_up (env, i) \<Longrightarrow> client_step env i c = (c', outs) \<Longrightarrow> step_settles env i c c' outs"
  using handleCommandFrom_settles run_responder_settles by (cases i) simp_all

lemma step_settles_due:
  assumes "step_settles env i c c' outs"
  shows "mset (copy_keys (pending (command_group c))) + mset (message_keys [i]) =
      due_in i c c' + mset (copy_keys (pending (command_group c')))"
    and "mset (terminal_acks outs) = filter_mset (answers env) (due_in i c c')"
    and "received_acks outs = filter (answers env) (message_keys [i])"
proof -
  obtain due where d: "mset (copy_keys (pending (command_group c))) + mset (message_keys [i]) =
      mset (copy_keys (pending (command_group c'))) + mset due" "mset (terminal_acks outs) = filter_mset (answers env) (mset due)"
    using assms by (auto simp: step_settles_def)
  then have "due_in i c c' = mset due" by (simp add: due_in_def)
  then show "mset (copy_keys (pending (command_group c))) + mset (message_keys [i]) =
      due_in i c c' + mset (copy_keys (pending (command_group c')))"
    "mset (terminal_acks outs) = filter_mset (answers env) (due_in i c c')"
    using d by (simp_all add: add.commute)
  show "received_acks outs = filter (answers env) (message_keys [i])" using assms by (simp add: step_settles_def)
qed

lemma message_keys_Cons: "message_keys (i # is) = message_keys [i] @ message_keys is"
  by (cases i) simp_all

text \<open>The two claims about one step of a history, and the sum of what fell due.\<close>

definition step_acked ::
  "fss_env \<times> client_input \<times> (conn_id \<times> u64 \<times> fss_asset_command) multiset \<times> fss_out list \<Rightarrow> bool" where
  "step_acked s \<longleftrightarrow> (case s of (env, i, due, outs) \<Rightarrow>
     received_acks outs = filter (answers env) (message_keys [i]) \<and>
     mset (terminal_acks outs) = filter_mset (answers env) due)"

definition fell_due ::
  "(fss_env \<times> client_input \<times> (conn_id \<times> u64 \<times> fss_asset_command) multiset \<times> fss_out list) list
   \<Rightarrow> (conn_id \<times> u64 \<times> fss_asset_command) multiset" where
  "fell_due steps = sum_list (map (\<lambda>(env, i, due, outs). due) steps)"

lemma client_run_settles:
  "list_all origin_up is \<Longrightarrow>
   list_all step_acked (snd (client_run c is)) \<and>
   mset (copy_keys (pending (command_group c))) + mset (message_keys (map snd is)) =
     fell_due (snd (client_run c is)) + mset (copy_keys (pending (command_group (fst (client_run c is)))))"
proof (induction "is" arbitrary: c)
  case (Cons ei "is")
  obtain env i where ei: "ei = (env, i)" by fastforce
  obtain c1 out where s: "client_step env i c = (c1, out)" by fastforce
  have "step_settles env i c c1 out" using Cons.prems ei s by (intro client_step_settles) simp_all
  note step = step_settles_due [OF this]
  have "list_all origin_up is" using Cons.prems by simp
  note IH = Cons.IH [OF this, of c1]
  have run: "client_run c (ei # is) =
      (fst (client_run c1 is), (env, i, due_in i c c1, out) # snd (client_run c1 is))"
    using ei s by (simp add: case_prod_unfold)
  have "mset (copy_keys (pending (command_group c))) + mset (message_keys (map snd (ei # is))) =
      (mset (copy_keys (pending (command_group c))) + mset (message_keys [i])) + mset (message_keys (map snd is))"
    using message_keys_Cons [of i "map snd is"] ei by (simp add: add.assoc)
  also have "\<dots> = due_in i c c1 + (mset (copy_keys (pending (command_group c1))) + mset (message_keys (map snd is)))"
    using step(1) by (simp add: add.assoc)
  finally show ?case using IH step(2,3) run by (simp add: fell_due_def step_acked_def add.assoc)
qed (simp add: fell_due_def)

text \<open>C12: in every history of messages and resolutions, with connections that come and go: a message is confirmed on receipt, once and on its own connection, exactly when that connection has negotiated acknowledgements; its copy falls due for a terminal acknowledgement exactly once or is still pending in the group; and the terminal acknowledgements of each step are exactly those of the copies that fall due in it whose connection is still up and has negotiated them, so a connection that is gone or never negotiated gets none. The only assumption is that the connection a message arrives on is up while the message is handled.\<close>

theorem every_message_acked:
  assumes "list_all origin_up is"
  shows "list_all step_acked (snd (client_run fss_client_ssl_init is)) \<and>
    mset (message_keys (map snd is)) =
      fell_due (snd (client_run fss_client_ssl_init is)) +
      mset (copy_keys (pending (command_group (fst (client_run fss_client_ssl_init is)))))"
  using client_run_settles [OF assms, of fss_client_ssl_init]
  by (simp add: fss_client_ssl_init_def CommandAckGroup_init_def)

definition one_gone :: fss_env where
  "one_gone = all_alive\<lparr>fe_alive := (\<lambda>c. c \<noteq> 3)\<rparr>"

text \<open>Two copies of a command; the connection of the first is gone when the state machine has decided.\<close>

definition two_copies :: "(fss_env \<times> client_input) list" where
  "two_copies = [(all_alive, Cmd_message sample_rtl sample_server),
     (all_alive, Cmd_message sample_rtl (sample_server\<lparr>fs_connection := Some 4\<rparr>)),
     (one_gone, Cmd_resolved 1 actioned_now)]"

theorem every_message_acked_witness:
  "list_all step_acked (snd (client_run fss_client_ssl_init two_copies)) \<and>
   map (\<lambda>(env, i, due, outs). terminal_acks outs) (snd (client_run fss_client_ssl_init two_copies)) =
     [[], [], [(4, 7, asset_command_rtl)]]"
proof
  show "list_all step_acked (snd (client_run fss_client_ssl_init two_copies))"
    by (rule every_message_acked [THEN conjunct1]) (simp add: two_copies_def sample_server_def all_alive_def)
qed (simp add: two_copies_def sample_rtl_def sample_server_def all_alive_def one_gone_def fss_client_ssl_init_def
    CommandAckGroup_init_def handleCommandFrom_def onDelivery_def command_payload_def origin_key_def note_id_def
    deliberate_retry_def sameAs_def withinTolerance_def CommandPayload_default_def command_dedup_tolerance_ms_def
    run_responder_def resolve_def ackPending_def sendCommandAck_def lock_conn_def report_command_def terminal_acks_def
    fss_command_ack_outcome_for_def actioned_now_def Let_def)

section \<open>Identity of a server\<close>

lemma to_string_nat_digits: "c \<in> set (to_string_nat n) \<Longrightarrow> of_char c \<in> {48..57 :: nat}"
proof (induction n rule: to_string_nat.induct)
  case (1 n)
  have d: "of_char (char_of (48 + k) :: char) = (48 + k :: nat)" if "k < 10" for k :: nat
    using that by (simp add: of_char_of)
  show ?case
  proof (cases "n < 10")
    case True
    then show ?thesis using 1(2) d [of n] by (simp add: to_string_nat.simps [of n])
  next
    case False
    then have "c \<in> set (to_string_nat (n div 10)) \<or> c = char_of (48 + n mod 10)"
      using 1(2) by (auto simp: to_string_nat.simps [of n])
    then show ?thesis using 1(1) [OF False] d [of "n mod 10"] by fastforce
  qed
qed

lemma to_string_nat_no_colon: "CHR '':'' \<notin> set (to_string_nat n)"
  using to_string_nat_digits by fastforce

lemma split_at_last:
  assumes "xs @ z # ys = xs' @ z # ys'" and "z \<notin> set ys" and "z \<notin> set ys'"
  shows "xs = xs' \<and> ys = ys'"
proof -
  have tw: "takeWhile (\<lambda>x. x \<noteq> z) (rev vs @ z # us) = rev vs" if "z \<notin> set vs" for vs us
    using that by (subst takeWhile_append2) auto
  have r: "rev ys @ z # rev xs = rev ys' @ z # rev xs'"
    using arg_cong [OF assms(1), of rev] by simp
  have "rev ys = rev ys'"
    using arg_cong [OF r, of "takeWhile (\<lambda>x. x \<noteq> z)"] tw [OF assms(2)] tw [OF assms(3)] by simp
  then show ?thesis using assms(1) by simp
qed

lemma origin_key_inject:
  "origin_key a = origin_key b \<longleftrightarrow> fs_address a = fs_address b \<and> fs_port a = fs_port b"
  using split_at_last [of "fs_address a" "CHR '':''" "to_string_nat (fs_port a)" "fs_address b"]
    to_string_nat_no_colon by (auto simp: origin_key_def)

end
