(* ===== verification/App_Loop.thy ===== *)
theory App_Loop
  imports Dispatcher Aircraft Mav_Connection Fss_Client Fmu_Main
begin

text \<open>
  The application object of \<open>src/main.cpp\<close>: the event queue with its mutex and condition
  variable, the event loop, the signal thread and the reconnector, and the callbacks that turn
  what the components report into events. A program counter per thread names the region of
  code it is about to run; a region under a mutex is one step; a thread blocked on a condition
  variable moves when it is notified, when its timeout expires, or spuriously. Any number of
  producer threads push events; each push and its notification are two steps.
\<close>

section \<open>Callbacks\<close>

text \<open>The lambdas that \<open>run\<close> registers: what a component reports, as the event it enqueues.\<close>

fun mav_event :: "mav_out \<Rightarrow> event option" where
  "mav_event (Cb_position pd) = Some (PositionDataEvent pd)"
| "mav_event (Cb_reached pt) = Some (ReachedPoint pt)"
| "mav_event (Cb_battery bd) = Some (BatteryDataEvent bd)"
| "mav_event (Cb_comms st) = Some (MavCommsStatusEvent st)"
| "mav_event Cb_autopilot_restart = Some MavAutopilotRestart"
| "mav_event _ = None"

fun smm_event :: "smm_out \<Rightarrow> event option" where
  "smm_event (Smm_load i) = Some (SmmLoadSearch i)"
| "smm_event Smm_rtl = Some SmmRtl"
| "smm_event (Smm_operator cmd) = Some (SmmOperatorCommand cmd)"
| "smm_event _ = None"

fun fss_event :: "fss_out \<Rightarrow> event option" where
  "fss_event (Out_command cmd target ep) = Some (FSSCommandEvent cmd target (Some ep))"
| "fss_event (Out_comms_status st) = Some (FSSCommsStatusEvent st)"
| "fss_event (Out_smm_settings settings) = Some (SMMSettingsEvent settings)"
| "fss_event _ = None"

datatype report = From_mav mav_out | From_smm smm_out | From_fss u64 fss_out

fun callback :: "report \<Rightarrow> known_aircraft \<Rightarrow> known_aircraft \<times> event option" where
  "callback (From_mav x) k = (k, mav_event x)"
| "callback (From_smm x) k = (k, smm_event x)"
| "callback (From_fss now (Out_position_data pd)) k =
     (case other_aircraft_callback now pd k of (k1, ev) \<Rightarrow> (k1, map_option OtherAircraftReport ev))"
| "callback (From_fss now x) k = (k, fss_event x)"

section \<open>State\<close>

datatype main_pc =
    M_start_signal | M_mav_start | M_start_reconnector | M_check | M_waiting | M_dispatch event | M_next
  | M_join_reconnector | M_join_signal | M_discard | M_log_stop | M_stopped

datatype recon_pc =
    R_not_started | R_check_running | R_reconnectAll | R_attemptReconnect | R_retryPendingSearch
  | R_predicate | R_holding | R_waiting | R_push_nudge | R_notify | R_done

datatype signal_pc =
    S_not_started | S_sigwait | S_notify_main | S_lock_reconnect | S_notify_recon | S_done

datatype app_out =
    App_log string | App_call disp_call | App_mav_start | App_reconnectAll | App_attemptReconnect
  | App_retryPendingSearch

text \<open>
  \<open>ap_notifies\<close> counts the producers between their push and their notification. The last
  three fields are history: the events pushed, those dispatched with what the interfaces
  answered, those dropped at the end.
\<close>

record App =
  ap_event_queue :: "event list"
  ap_running :: bool
  ap_dispatcher :: EventDispatcher
  ap_aircraft :: known_aircraft
  ap_main :: main_pc
  ap_recon :: recon_pc
  ap_signal :: signal_pc
  ap_notifies :: nat
  ap_out :: "app_out list"
  ap_pushed :: "event list"
  ap_dispatched :: "(disp_env \<times> event) list"
  ap_dropped :: "event list"

definition App_dispatcher :: "FmuConfig \<Rightarrow> string \<Rightarrow> EventDispatcher" where
  "App_dispatcher cfg t_asset_name =
     EventDispatcher_init
       (FMUStateMachine_init (fc_low_battery_latch_count cfg) (fc_altitude_cap_m cfg) (fc_altitude_breach_latch_count cfg))
       t_asset_name (fc_lowbat_threshold cfg)"

text \<open>
  The registration of the callbacks follows in \<open>run\<close> before any thread starts; that of the
  link status of the ground station reports a failure at once, which is a report like any other.
\<close>

definition App_init :: "FmuConfig \<Rightarrow> string \<Rightarrow> App" where
  "App_init cfg t_asset_name =
     \<lparr>ap_event_queue = [], ap_running = True, ap_dispatcher = App_dispatcher cfg t_asset_name,
      ap_aircraft = known_aircraft_init, ap_main = M_start_signal, ap_recon = R_not_started,
      ap_signal = S_not_started, ap_notifies = 0, ap_out = [App_log (''START '' @ t_asset_name)],
      ap_pushed = [], ap_dispatched = [], ap_dropped = []\<rparr>"

section \<open>Steps of the threads\<close>

definition push_event :: "event \<Rightarrow> App \<Rightarrow> App" where
  "push_event e s = s\<lparr>ap_event_queue := ap_event_queue s @ [e], ap_pushed := ap_pushed s @ [e]\<rparr>"

text \<open>\<open>main_cv.notify_one\<close> and \<open>reconnect_cv.notify_one\<close>: each has one waiter.\<close>

definition notify_main :: "App \<Rightarrow> App" where
  "notify_main s = (if ap_main s = M_waiting then s\<lparr>ap_main := M_check\<rparr> else s)"

definition notify_recon :: "App \<Rightarrow> App" where
  "notify_recon s = (if ap_recon s = R_waiting then s\<lparr>ap_recon := R_predicate\<rparr> else s)"

text \<open>The queue is popped under the mutex; the dispatch runs without it.\<close>

definition take_event :: "App \<Rightarrow> App" where
  "take_event s = s\<lparr>ap_event_queue := tl (ap_event_queue s), ap_main := M_dispatch (hd (ap_event_queue s))\<rparr>"

definition dispatch_event :: "disp_env \<Rightarrow> event \<Rightarrow> App \<Rightarrow> App" where
  "dispatch_event env e s =
     (case dispatch env e (ap_dispatcher s) of
        (d, calls) \<Rightarrow>
          s\<lparr>ap_dispatcher := d, ap_out := ap_out s @ map App_call calls,
            ap_dispatched := ap_dispatched s @ [(env, e)], ap_main := M_next\<rparr>)"

definition main_step :: "disp_env \<Rightarrow> App \<Rightarrow> App option" where
  "main_step env s =
     (case ap_main s of
        M_start_signal \<Rightarrow> Some (s\<lparr>ap_signal := S_sigwait, ap_main := M_mav_start\<rparr>)
      | M_mav_start \<Rightarrow> Some (s\<lparr>ap_out := ap_out s @ [App_mav_start], ap_main := M_start_reconnector\<rparr>)
      | M_start_reconnector \<Rightarrow> Some (s\<lparr>ap_recon := R_check_running, ap_main := M_check\<rparr>)
      | M_check \<Rightarrow>
          Some (if ap_event_queue s = [] \<and> ap_running s then s\<lparr>ap_main := M_waiting\<rparr>
                else if \<not> ap_running s \<and> ap_event_queue s = [] then s\<lparr>ap_main := M_join_reconnector\<rparr>
                else take_event s)
      | M_waiting \<Rightarrow> None
      | M_dispatch e \<Rightarrow> Some (dispatch_event env e s)
      | M_next \<Rightarrow> Some (if ap_event_queue s \<noteq> [] then take_event s else s\<lparr>ap_main := M_check\<rparr>)
      | M_join_reconnector \<Rightarrow> if ap_recon s = R_done then Some (s\<lparr>ap_main := M_join_signal\<rparr>) else None
      | M_join_signal \<Rightarrow> if ap_signal s = S_done then Some (s\<lparr>ap_main := M_discard\<rparr>) else None
      | M_discard \<Rightarrow>
          Some (s\<lparr>ap_event_queue := [], ap_dropped := ap_event_queue s, ap_main := M_log_stop\<rparr>)
      | M_log_stop \<Rightarrow> Some (s\<lparr>ap_out := ap_out s @ [App_log ''STOP''], ap_main := M_stopped\<rparr>)
      | M_stopped \<Rightarrow> None)"

text \<open>
  The first step of the signal thread is the arrival of the signal. It takes the reconnector's
  mutex, which that thread holds between a predicate that was false and its wait.
\<close>

definition signal_step :: "App \<Rightarrow> App option" where
  "signal_step s =
     (case ap_signal s of
        S_not_started \<Rightarrow> None
      | S_sigwait \<Rightarrow> Some (s\<lparr>ap_running := False, ap_signal := S_notify_main\<rparr>)
      | S_notify_main \<Rightarrow> Some ((notify_main s)\<lparr>ap_signal := S_lock_reconnect\<rparr>)
      | S_lock_reconnect \<Rightarrow> if ap_recon s = R_holding then None else Some (s\<lparr>ap_signal := S_notify_recon\<rparr>)
      | S_notify_recon \<Rightarrow> Some ((notify_recon s)\<lparr>ap_signal := S_done\<rparr>)
      | S_done \<Rightarrow> None)"

definition recon_step :: "App \<Rightarrow> App option" where
  "recon_step s =
     (case ap_recon s of
        R_not_started \<Rightarrow> None
      | R_check_running \<Rightarrow> Some (s\<lparr>ap_recon := (if ap_running s then R_reconnectAll else R_push_nudge)\<rparr>)
      | R_reconnectAll \<Rightarrow> Some (s\<lparr>ap_out := ap_out s @ [App_reconnectAll], ap_recon := R_attemptReconnect\<rparr>)
      | R_attemptReconnect \<Rightarrow> Some (s\<lparr>ap_out := ap_out s @ [App_attemptReconnect], ap_recon := R_retryPendingSearch\<rparr>)
      | R_retryPendingSearch \<Rightarrow> Some (s\<lparr>ap_out := ap_out s @ [App_retryPendingSearch], ap_recon := R_predicate\<rparr>)
      | R_predicate \<Rightarrow> Some (s\<lparr>ap_recon := (if ap_running s then R_holding else R_check_running)\<rparr>)
      | R_holding \<Rightarrow> Some (s\<lparr>ap_recon := R_waiting\<rparr>)
      | R_waiting \<Rightarrow> None
      | R_push_nudge \<Rightarrow> Some ((push_event Nudge s)\<lparr>ap_recon := R_notify\<rparr>)
      | R_notify \<Rightarrow> Some ((notify_main s)\<lparr>ap_recon := R_done\<rparr>)
      | R_done \<Rightarrow> None)"

definition producer_push :: "report \<Rightarrow> App \<Rightarrow> App" where
  "producer_push r s =
     (case callback r (ap_aircraft s) of
        (k, None) \<Rightarrow> s\<lparr>ap_aircraft := k\<rparr>
      | (k, Some e) \<Rightarrow> (push_event e (s\<lparr>ap_aircraft := k\<rparr>))\<lparr>ap_notifies := ap_notifies s + 1\<rparr>)"

definition producer_notify :: "App \<Rightarrow> App option" where
  "producer_notify s =
     (if ap_notifies s = 0 then None else Some ((notify_main s)\<lparr>ap_notifies := ap_notifies s - 1\<rparr>))"

text \<open>A move of the scheduler. The waits may return spuriously, the timed one also on its timeout.\<close>

datatype app_move =
    Main_step disp_env | Signal_step | Recon_step | Notify_step
  | Main_spurious | Recon_spurious | Recon_timeout | Report report

fun app_step :: "app_move \<Rightarrow> App \<Rightarrow> App option" where
  "app_step (Main_step env) s = main_step env s"
| "app_step Signal_step s = signal_step s"
| "app_step Recon_step s = recon_step s"
| "app_step Notify_step s = producer_notify s"
| "app_step Main_spurious s = (if ap_main s = M_waiting then Some (s\<lparr>ap_main := M_check\<rparr>) else None)"
| "app_step Recon_spurious s = (if ap_recon s = R_waiting then Some (s\<lparr>ap_recon := R_predicate\<rparr>) else None)"
| "app_step Recon_timeout s = (if ap_recon s = R_waiting then Some (s\<lparr>ap_recon := R_check_running\<rparr>) else None)"
| "app_step (Report r) s = Some (producer_push r s)"

fun app_run :: "app_move list \<Rightarrow> App \<Rightarrow> App option" where
  "app_run [] s = Some s"
| "app_run (mv # mvs) s = (case app_step mv s of None \<Rightarrow> None | Some s1 \<Rightarrow> app_run mvs s1)"

inductive reachable_app :: "FmuConfig \<Rightarrow> string \<Rightarrow> App \<Rightarrow> bool" for cfg name where
  start: "reachable_app cfg name (App_init cfg name)"
| move: "reachable_app cfg name s \<Longrightarrow> app_step mv s = Some s' \<Longrightarrow> reachable_app cfg name s'"

lemma app_run_reachable: "reachable_app cfg name s \<Longrightarrow> app_run mvs s = Some s' \<Longrightarrow> reachable_app cfg name s'"
  by (induction mvs arbitrary: s) (auto split: option.splits intro: reachable_app.move)

lemma app_run_append:
  "app_run (xs @ ys) s = (case app_run xs s of None \<Rightarrow> None | Some s1 \<Rightarrow> app_run ys s1)"
  by (induction xs arbitrary: s) (auto split: option.split)

section \<open>Events are dispatched in order\<close>

text \<open>The reference: one event after the other, on the dispatcher alone.\<close>

fun dispatch_all :: "(disp_env \<times> event) list \<Rightarrow> EventDispatcher \<Rightarrow> EventDispatcher \<times> disp_call list" where
  "dispatch_all [] d = (d, [])"
| "dispatch_all ((env, e) # rest) d =
     (case dispatch env e d of (d1, calls) \<Rightarrow> (case dispatch_all rest d1 of (d2, calls') \<Rightarrow> (d2, calls @ calls')))"

lemma dispatch_all_snoc:
  "dispatch_all (xs @ [(env, e)]) d =
     (case dispatch_all xs d of (d1, calls) \<Rightarrow>
        (case dispatch env e d1 of (d2, calls') \<Rightarrow> (d2, calls @ calls')))"
  by (induction xs arbitrary: d) (auto split: prod.splits)

fun app_calls :: "app_out list \<Rightarrow> disp_call list" where
  "app_calls [] = []"
| "app_calls (App_call c # outs) = c # app_calls outs"
| "app_calls (_ # outs) = app_calls outs"

lemma app_calls_append [simp]: "app_calls (xs @ ys) = app_calls xs @ app_calls ys"
  by (induction xs rule: app_calls.induct) auto

lemma app_calls_map [simp]: "app_calls (map App_call cs) = cs"
  by (induction cs) auto

fun in_hand :: "main_pc \<Rightarrow> event list" where
  "in_hand (M_dispatch e) = [e]"
| "in_hand _ = []"

fun drained :: "main_pc \<Rightarrow> bool" where
  "drained M_log_stop = True"
| "drained M_stopped = True"
| "drained _ = False"

definition order_inv :: "EventDispatcher \<Rightarrow> App \<Rightarrow> bool" where
  "order_inv d0 s \<longleftrightarrow>
     ap_pushed s = map snd (ap_dispatched s) @ in_hand (ap_main s) @ ap_dropped s @ ap_event_queue s \<and>
     dispatch_all (ap_dispatched s) d0 = (ap_dispatcher s, app_calls (ap_out s)) \<and>
     (drained (ap_main s) \<or> ap_dropped s = [])"

lemma order_inv_init: "order_inv (App_dispatcher cfg name) (App_init cfg name)"
  by (simp add: order_inv_def App_init_def)

text \<open>Most steps touch none of this.\<close>

lemma order_inv_same:
  assumes "order_inv d0 s" and "ap_pushed s' = ap_pushed s" and "ap_dispatched s' = ap_dispatched s"
    and "in_hand (ap_main s') = in_hand (ap_main s)" and "drained (ap_main s') = drained (ap_main s)"
    and "ap_dropped s' = ap_dropped s" and "ap_event_queue s' = ap_event_queue s"
    and "ap_dispatcher s' = ap_dispatcher s" and "app_calls (ap_out s') = app_calls (ap_out s)"
  shows "order_inv d0 s'"
  using assms unfolding order_inv_def by metis

lemma order_inv_push:
  assumes "order_inv d0 s"
  shows "order_inv d0 (push_event e s)"
  using assms unfolding order_inv_def push_event_def by simp

lemma notify_main_neutral [simp]:
  "in_hand (ap_main (notify_main s)) = in_hand (ap_main s)" "drained (ap_main (notify_main s)) = drained (ap_main s)"
  "ap_pushed (notify_main s) = ap_pushed s" "ap_dispatched (notify_main s) = ap_dispatched s"
  "ap_dropped (notify_main s) = ap_dropped s" "ap_event_queue (notify_main s) = ap_event_queue s"
  "ap_dispatcher (notify_main s) = ap_dispatcher s" "ap_out (notify_main s) = ap_out s"
  by (simp_all add: notify_main_def)

lemma order_inv_main: "order_inv d0 s \<Longrightarrow> pred_option (order_inv d0) (main_step env s)"
  by (cases "ap_main s"; cases "ap_event_queue s";
      simp add: order_inv_def main_step_def take_event_def dispatch_event_def dispatch_all_snoc split_beta)

lemma order_inv_signal: "order_inv d0 s \<Longrightarrow> pred_option (order_inv d0) (signal_step s)"
  by (cases "ap_signal s") (auto simp: signal_step_def notify_recon_def elim!: order_inv_same)

lemma order_inv_recon: "order_inv d0 s \<Longrightarrow> pred_option (order_inv d0) (recon_step s)"
proof (cases "ap_recon s = R_push_nudge")
  case True
  assume "order_inv d0 s"
  from order_inv_push [OF this, of Nudge] True show ?thesis
    by (auto simp: recon_step_def elim!: order_inv_same)
next
  case False
  assume "order_inv d0 s"
  with False show ?thesis by (cases "ap_recon s") (auto simp: recon_step_def elim!: order_inv_same)
qed

lemma order_inv_producer:
  assumes "order_inv d0 s"
  shows "order_inv d0 (producer_push r s)"
proof -
  have k: "order_inv d0 (s\<lparr>ap_aircraft := k\<rparr>)" for k
    using assms by (rule order_inv_same) simp_all
  have "order_inv d0 ((push_event e (s\<lparr>ap_aircraft := k\<rparr>))\<lparr>ap_notifies := n\<rparr>)" for e k n
    using order_inv_push [OF k] by (rule order_inv_same) simp_all
  with k show ?thesis by (auto simp: producer_push_def split: prod.split option.split)
qed

lemma order_inv_notify: "order_inv d0 s \<Longrightarrow> pred_option (order_inv d0) (producer_notify s)"
  by (auto simp: producer_notify_def elim!: order_inv_same)

section \<open>No wakeup is lost\<close>

fun signal_quiet :: "signal_pc \<Rightarrow> bool" where
  "signal_quiet S_not_started = True"
| "signal_quiet S_sigwait = True"
| "signal_quiet _ = False"

fun recon_notified :: "signal_pc \<Rightarrow> bool" where
  "recon_notified S_done = True"
| "recon_notified _ = False"

fun before_lock :: "signal_pc \<Rightarrow> bool" where
  "before_lock S_notify_recon = False"
| "before_lock S_done = False"
| "before_lock _ = True"

fun starting :: "main_pc \<Rightarrow> bool" where
  "starting M_start_signal = True" | "starting M_mav_start = True" | "starting M_start_reconnector = True"
| "starting _ = False"

definition wakeup_inv :: "App \<Rightarrow> bool" where
  "wakeup_inv s \<longleftrightarrow>
     ap_running s = signal_quiet (ap_signal s) \<and>
     (ap_main s \<noteq> M_waiting \<or> ap_event_queue s = [] \<or> 0 < ap_notifies s \<or> ap_recon s = R_notify) \<and>
     (ap_main s \<noteq> M_waiting \<or> signal_quiet (ap_signal s) \<or> ap_signal s = S_notify_main) \<and>
     (ap_recon s \<noteq> R_holding \<or> before_lock (ap_signal s)) \<and>
     (ap_recon s \<noteq> R_waiting \<or> \<not> recon_notified (ap_signal s)) \<and>
     (ap_signal s = S_not_started) = (ap_main s = M_start_signal) \<and>
     (ap_recon s = R_not_started) = starting (ap_main s)"

lemma wakeup_inv_main: "wakeup_inv s \<Longrightarrow> pred_option wakeup_inv (main_step env s)"
  by (cases "ap_main s"; cases "ap_event_queue s";
      simp add: wakeup_inv_def main_step_def take_event_def dispatch_event_def split_beta) auto

lemma wakeup_inv_signal: "wakeup_inv s \<Longrightarrow> pred_option wakeup_inv (signal_step s)"
  by (cases "ap_signal s"; cases "ap_main s = M_waiting"; cases "ap_recon s = R_waiting"; cases "ap_recon s = R_holding";
      simp add: wakeup_inv_def signal_step_def notify_main_def notify_recon_def)

lemma wakeup_inv_recon: "wakeup_inv s \<Longrightarrow> pred_option wakeup_inv (recon_step s)"
  by (cases "ap_recon s"; cases "ap_main s = M_waiting"; cases "ap_signal s";
      simp add: wakeup_inv_def recon_step_def notify_main_def push_event_def) auto

lemma wakeup_inv_producer: "wakeup_inv s \<Longrightarrow> wakeup_inv (producer_push r s)"
  by (simp add: wakeup_inv_def producer_push_def push_event_def split: prod.split option.split)

lemma wakeup_inv_notify: "wakeup_inv s \<Longrightarrow> pred_option wakeup_inv (producer_notify s)"
  by (cases "ap_main s = M_waiting"; simp add: wakeup_inv_def producer_notify_def notify_main_def)

text \<open>An invariant of every thread is one of the application.\<close>

lemma reachable_induct:
  assumes "reachable_app cfg name s" and "I (App_init cfg name)"
    and "\<And>env t. I t \<Longrightarrow> pred_option I (main_step env t)" and "\<And>t. I t \<Longrightarrow> pred_option I (signal_step t)"
    and "\<And>t. I t \<Longrightarrow> pred_option I (recon_step t)" and "\<And>r t. I t \<Longrightarrow> I (producer_push r t)"
    and "\<And>t. I t \<Longrightarrow> pred_option I (producer_notify t)"
    and "\<And>t. I t \<Longrightarrow> ap_main t = M_waiting \<Longrightarrow> I (t\<lparr>ap_main := M_check\<rparr>)"
    and "\<And>t. I t \<Longrightarrow> ap_recon t = R_waiting \<Longrightarrow> I (t\<lparr>ap_recon := R_predicate\<rparr>)"
    and "\<And>t. I t \<Longrightarrow> ap_recon t = R_waiting \<Longrightarrow> I (t\<lparr>ap_recon := R_check_running\<rparr>)"
  shows "I s"
  using assms(1)
proof (induction rule: reachable_app.induct)
  case (move s mv s')
  have some: "pred_option I x \<Longrightarrow> x = Some s' \<Longrightarrow> I s'" for x by simp
  show ?case
  proof (cases mv)
    case (Main_step env)
    then show ?thesis using some [OF assms(3) [OF move.IH]] move.hyps(2) by simp
  next
    case Signal_step
    then show ?thesis using some [OF assms(4) [OF move.IH]] move.hyps(2) by simp
  next
    case Recon_step
    then show ?thesis using some [OF assms(5) [OF move.IH]] move.hyps(2) by simp
  next
    case Notify_step
    then show ?thesis using some [OF assms(7) [OF move.IH]] move.hyps(2) by simp
  qed (use move.hyps(2) assms(6,8-10) [OF move.IH] in \<open>auto split: if_splits\<close>)
qed (rule assms(2))

lemma reachable_order:
  assumes "reachable_app cfg name s"
  shows "order_inv (App_dispatcher cfg name) s"
  using assms order_inv_init order_inv_main order_inv_signal order_inv_recon order_inv_producer order_inv_notify
  by (rule reachable_induct) (erule order_inv_same; simp)+

lemma reachable_wakeup:
  assumes "reachable_app cfg name s"
  shows "wakeup_inv s"
  using assms _ wakeup_inv_main wakeup_inv_signal wakeup_inv_recon wakeup_inv_producer wakeup_inv_notify
  by (rule reachable_induct) (auto simp: wakeup_inv_def App_init_def)

text \<open>C22: events are handled in the order in which they were enqueued, none twice and none left out: at every moment the events pushed are those dispatched, the one in hand, those dropped at the very end and those queued, in this order; and the state machine and everything that was called on the autopilot, the search worker and the reporter is what dispatching those events one after the other gives, whatever the threads' interleaving.\<close>

theorem events_in_order:
  assumes "reachable_app cfg name s"
  shows "ap_pushed s = map snd (ap_dispatched s) @ in_hand (ap_main s) @ ap_dropped s @ ap_event_queue s \<and>
    dispatch_all (ap_dispatched s) (App_dispatcher cfg name) = (ap_dispatcher s, app_calls (ap_out s)) \<and>
    (drained (ap_main s) \<or> ap_dropped s = [])"
  using reachable_order [OF assms] by (simp add: order_inv_def)

text \<open>C21: no wakeup is lost: when the event loop sleeps although there is an event or the program is to stop, and when the reconnector sleeps although it is to stop, the notification that wakes it is still to come; so neither thread waits for its timeout or for luck.\<close>

theorem no_lost_wakeup:
  assumes "reachable_app cfg name s"
  shows "(if ap_main s = M_waiting \<and> ap_event_queue s \<noteq> [] then 0 < ap_notifies s \<or> ap_recon s = R_notify else True) \<and>
    (if ap_main s = M_waiting \<and> \<not> ap_running s then ap_signal s = S_notify_main else True) \<and>
    (if ap_recon s = R_waiting \<and> \<not> ap_running s
     then ap_signal s \<in> {S_notify_main, S_lock_reconnect, S_notify_recon} else True)"
  using reachable_wakeup [OF assms] unfolding wakeup_inv_def by (cases "ap_signal s"; simp) auto

section \<open>Shutdown\<close>

text \<open>Whether one of the program's own threads can move without luck or timeout.\<close>

definition some_thread_moves :: "disp_env \<Rightarrow> App \<Rightarrow> bool" where
  "some_thread_moves env s \<longleftrightarrow>
     list_ex (\<lambda>mv. app_step mv s \<noteq> None) [Main_step env, Signal_step, Recon_step, Notify_step]"

fun own_move :: "app_move \<Rightarrow> bool" where
  "own_move (Report _) = False"
| "own_move _ = True"

text \<open>Bounds on what each thread still has to do once the flag is down.\<close>

fun main_rank :: "main_pc \<Rightarrow> nat" where
  "main_rank M_start_signal = 10" | "main_rank M_mav_start = 9" | "main_rank M_start_reconnector = 8"
| "main_rank (M_dispatch e) = 7" | "main_rank M_next = 6" | "main_rank M_waiting = 6" | "main_rank M_check = 5"
| "main_rank M_join_reconnector = 4" | "main_rank M_join_signal = 3" | "main_rank M_discard = 2"
| "main_rank M_log_stop = 1" | "main_rank M_stopped = 0"

fun recon_rank :: "recon_pc \<Rightarrow> nat" where
  "recon_rank R_not_started = 11" | "recon_rank R_reconnectAll = 10" | "recon_rank R_attemptReconnect = 9"
| "recon_rank R_retryPendingSearch = 8" | "recon_rank R_holding = 9" | "recon_rank R_waiting = 8"
| "recon_rank R_predicate = 7" | "recon_rank R_check_running = 6" | "recon_rank R_push_nudge = 5"
| "recon_rank R_notify = 1" | "recon_rank R_done = 0"

fun signal_rank :: "signal_pc \<Rightarrow> nat" where
  "signal_rank S_not_started = 5" | "signal_rank S_sigwait = 4" | "signal_rank S_notify_main = 3"
| "signal_rank S_lock_reconnect = 2" | "signal_rank S_notify_recon = 1" | "signal_rank S_done = 0"

definition shutdown_bound :: "App \<Rightarrow> nat" where
  "shutdown_bound s =
     3 * length (ap_event_queue s) + main_rank (ap_main s) + recon_rank (ap_recon s) + signal_rank (ap_signal s) + ap_notifies s"

lemma shutdown_bound_main:
  "main_step env s = Some s' \<Longrightarrow> \<not> ap_running s \<Longrightarrow> wakeup_inv s \<Longrightarrow> shutdown_bound s' < shutdown_bound s \<and> \<not> ap_running s'"
  by (cases "ap_main s"; cases "ap_event_queue s")
    (auto simp: main_step_def shutdown_bound_def take_event_def dispatch_event_def split_beta wakeup_inv_def split: if_splits)

lemma shutdown_bound_step:
  assumes "app_step mv s = Some s'" and "own_move mv" and "\<not> ap_running s" and "wakeup_inv s"
  shows "shutdown_bound s' < shutdown_bound s \<and> \<not> ap_running s'"
proof (cases mv)
  case (Main_step env)
  then show ?thesis using assms shutdown_bound_main by simp
next
  case Signal_step
  then show ?thesis
    using assms
    by (cases "ap_signal s") (auto simp: signal_step_def shutdown_bound_def notify_main_def notify_recon_def split: if_splits)
next
  case Recon_step
  then show ?thesis
    using assms
    by (cases "ap_recon s") (auto simp: recon_step_def shutdown_bound_def notify_main_def push_event_def split: if_splits)
next
  case Notify_step
  then show ?thesis
    using assms by (auto simp: producer_notify_def shutdown_bound_def notify_main_def split: if_splits)
qed (use assms in \<open>auto simp: shutdown_bound_def split: if_splits\<close>)

text \<open>A report during the shutdown adds an event to handle and a notification to send.\<close>

lemma shutdown_bound_report:
  "shutdown_bound (producer_push r s) \<le> shutdown_bound s + 4 \<and> ap_running (producer_push r s) = ap_running s"
  by (auto simp: producer_push_def shutdown_bound_def push_event_def split: prod.splits option.splits)

lemma shutdown_bound_run:
  assumes "app_run mvs s = Some s'" and "\<not> ap_running s" and "reachable_app cfg name s"
  shows "length (filter own_move mvs) + shutdown_bound s' \<le>
      shutdown_bound s + 4 * length (filter (\<lambda>mv. \<not> own_move mv) mvs) \<and> \<not> ap_running s'"
  using assms
proof (induction mvs arbitrary: s)
  case (Cons mv mvs)
  obtain s1 where s1: "app_step mv s = Some s1" "app_run mvs s1 = Some s'"
    using Cons.prems(1) by (auto split: option.splits)
  have reach: "reachable_app cfg name s1" using Cons.prems(3) s1(1) by (rule reachable_app.move)
  show ?case
  proof (cases "own_move mv")
    case True
    have "shutdown_bound s1 < shutdown_bound s" "\<not> ap_running s1"
      using shutdown_bound_step [OF s1(1) True] Cons.prems reachable_wakeup by auto
    then show ?thesis using Cons.IH [OF s1(2) _ reach] True by simp
  next
    case False
    then obtain r where "mv = Report r" by (cases mv) simp_all
    then have "shutdown_bound s1 \<le> shutdown_bound s + 4" "\<not> ap_running s1"
      using s1(1) shutdown_bound_report [of r s] Cons.prems(2) by auto
    then show ?thesis using Cons.IH [OF s1(2) _ reach] False by simp
  qed
qed simp

lemma shutdown_not_stuck:
  assumes "wakeup_inv s" and "\<not> ap_running s" and "ap_main s \<noteq> M_stopped"
  shows "some_thread_moves env s"
proof (rule ccontr)
  assume "\<not> some_thread_moves env s"
  then have stuck: "main_step env s = None" "signal_step s = None" "recon_step s = None" "producer_notify s = None"
    by (simp_all add: some_thread_moves_def)
  have sig: "ap_signal s = S_done \<or> ap_signal s = S_lock_reconnect \<and> ap_recon s = R_holding \<or> ap_signal s = S_not_started"
    using stuck(2) by (cases "ap_signal s") (auto simp: signal_step_def split: if_splits)
  have recon: "ap_recon s = R_done \<or> ap_recon s = R_waiting \<or> ap_recon s = R_not_started"
    using stuck(3) by (cases "ap_recon s") (auto simp: recon_step_def)
  have main: "ap_main s = M_waiting \<or> ap_main s = M_join_reconnector \<and> ap_recon s \<noteq> R_done \<or>
      ap_main s = M_join_signal \<and> ap_signal s \<noteq> S_done"
    using stuck(1) assms(3) by (cases "ap_main s") (auto simp: main_step_def split: if_splits)
  have "\<not> signal_quiet (ap_signal s)" using assms(1,2) unfolding wakeup_inv_def by blast
  then have s: "ap_signal s = S_done \<or> ap_signal s = S_lock_reconnect \<and> ap_recon s = R_holding"
    using sig by auto
  then have "ap_recon s = R_done \<or> ap_recon s = R_not_started"
    using recon assms(1) by (auto simp: wakeup_inv_def)
  then show False
    using main s assms(1) by (cases "ap_recon s = R_done") (auto simp: wakeup_inv_def)
qed

text \<open>C20: shutdown completes: once a signal has been taken, the program's own threads can make, in whatever order, at most a bounded number of steps plus four for each report that the producers, which are still running, bring meanwhile; and as long as the event loop has not returned one of its own threads can make a step without a timeout or a spurious wakeup. So every way to go on in which the reports stop ends with the event loop returned; while reports keep coming the loop goes on handling them.\<close>

theorem shutdown_completes:
  assumes "reachable_app cfg name s" and "\<not> ap_running s" and "app_run mvs s = Some s'"
  shows "length (filter own_move mvs) \<le> shutdown_bound s + 4 * length (filter (\<lambda>mv. \<not> own_move mv) mvs) \<and>
    (ap_main s' = M_stopped \<or> some_thread_moves env s')"
proof -
  have "reachable_app cfg name s'" using assms(1,3) by (rule app_run_reachable)
  then show ?thesis
    using shutdown_bound_run [OF assms(3,2,1)] shutdown_not_stuck [OF reachable_wakeup] by auto
qed

text \<open>The limit is real: the loop drains the queue before it reads the flag, so one report for each event it handles keeps it from returning for as long as the reports go on.\<close>

lemma shutdown_can_be_fed:
  assumes "\<And>k. callback r k = (k, Some e')"
  shows "ap_main s = M_dispatch e \<Longrightarrow>
    \<exists>s' e''. app_run (concat (replicate n [Report r, Main_step env, Main_step env])) s = Some s' \<and>
      ap_main s' = M_dispatch e''"
proof (induction n arbitrary: s e)
  case (Suc n)
  let ?s1 = "producer_push r s"
  have q: "ap_event_queue ?s1 \<noteq> []" "ap_main ?s1 = M_dispatch e"
    using assms Suc.prems by (simp_all add: producer_push_def push_event_def)
  have m: "main_step env ?s1 = Some (dispatch_event env e ?s1)" using q(2) by (simp add: main_step_def)
  have d: "ap_main (dispatch_event env e ?s1) = M_next" "ap_event_queue (dispatch_event env e ?s1) = ap_event_queue ?s1"
    by (simp_all add: dispatch_event_def split_beta)
  have n: "main_step env (dispatch_event env e ?s1) = Some (take_event (dispatch_event env e ?s1))"
    using d q(1) by (simp add: main_step_def)
  have "ap_main (take_event (dispatch_event env e ?s1)) = M_dispatch (hd (ap_event_queue ?s1))"
    using d by (simp add: take_event_def)
  from Suc.IH [OF this] show ?case using m n by simp
qed simp

text \<open>A session: a start, a link report, a signal while the loop sleeps and the reconnector is about to sleep.\<close>

definition sample_disp_env :: disp_env where
  "sample_disp_env = \<lparr>de_mav = answer_yes, de_now = 0, de_currentSearchPoints = 0\<rparr>"

definition session_start :: "disp_env \<Rightarrow> app_move list" where
  "session_start env =
     replicate 4 (Main_step env) @ [Report (From_mav (Cb_comms mav_comms_status_failure)), Notify_step] @
     replicate 4 (Main_step env) @ replicate 5 Recon_step @ [Signal_step]"

definition session_end :: "disp_env \<Rightarrow> app_move list" where
  "session_end env =
     [Recon_step, Signal_step, Signal_step, Signal_step] @ replicate 4 Recon_step @ replicate 8 (Main_step env)"

lemma session_start_runs:
  "map_option (\<lambda>s. (ap_main s, ap_recon s, ap_running s, map snd (ap_dispatched s)))
     (app_run (session_start sample_disp_env) (App_init FmuConfig_default ''FMU'')) =
   Some (M_waiting, R_holding, False, [MavCommsStatusEvent mav_comms_status_failure])"
  by code_simp

lemma session_end_runs:
  "map_option (\<lambda>s. (ap_main s, ap_event_queue s, map snd (ap_dispatched s)))
     (app_run (session_start sample_disp_env @ session_end sample_disp_env) (App_init FmuConfig_default ''FMU'')) =
   Some (M_stopped, [], [MavCommsStatusEvent mav_comms_status_failure, Nudge])"
  by code_simp

lemma session_start_reachable:
  obtains s where "reachable_app FmuConfig_default ''FMU'' s" and "ap_main s = M_waiting" and "ap_recon s = R_holding"
    and "\<not> ap_running s" and "map snd (ap_dispatched s) = [MavCommsStatusEvent mav_comms_status_failure]"
    and "app_run (session_start sample_disp_env) (App_init FmuConfig_default ''FMU'') = Some s"
  using session_start_runs app_run_reachable [OF reachable_app.start] by fastforce

theorem events_in_order_witness:
  "\<exists>s. reachable_app FmuConfig_default ''FMU'' s \<and> ap_main s = M_waiting \<and>
       ap_pushed s = [MavCommsStatusEvent mav_comms_status_failure] @ ap_event_queue s"
proof -
  obtain s where s: "reachable_app FmuConfig_default ''FMU'' s" "ap_main s = M_waiting"
    "map snd (ap_dispatched s) = [MavCommsStatusEvent mav_comms_status_failure]"
    by (rule session_start_reachable)
  from events_in_order [OF s(1)] s show ?thesis by auto
qed

theorem no_lost_wakeup_witness:
  "\<exists>s. reachable_app FmuConfig_default ''FMU'' s \<and> ap_main s = M_waiting \<and> \<not> ap_running s \<and> ap_signal s = S_notify_main"
proof -
  obtain s where s: "reachable_app FmuConfig_default ''FMU'' s" "ap_main s = M_waiting" "\<not> ap_running s"
    by (rule session_start_reachable)
  from no_lost_wakeup [OF s(1)] s show ?thesis by auto
qed

definition late_report :: report where
  "late_report = From_mav (Cb_comms mav_comms_status_ok)"

theorem shutdown_completes_witness:
  "\<exists>s s'. reachable_app FmuConfig_default ''FMU'' s \<and> \<not> ap_running s \<and>
     app_run (Report late_report # session_end sample_disp_env) s = Some s' \<and>
     length (session_end sample_disp_env) \<le> shutdown_bound s + 4 \<and>
     (ap_main s' = M_stopped \<or> some_thread_moves sample_disp_env s')"
proof -
  obtain s where s: "reachable_app FmuConfig_default ''FMU'' s" "\<not> ap_running s"
    "app_run (session_start sample_disp_env) (App_init FmuConfig_default ''FMU'') = Some s"
    by (rule session_start_reachable)
  have "app_run (session_start sample_disp_env @ Report late_report # session_end sample_disp_env)
      (App_init FmuConfig_default ''FMU'') \<noteq> None" by code_simp
  then obtain s' where s': "app_run (Report late_report # session_end sample_disp_env) s = Some s'"
    using s(3) by (auto simp: app_run_append)
  have "filter own_move (session_end sample_disp_env) = session_end sample_disp_env" by (simp add: session_end_def)
  moreover have "filter (\<lambda>mv. \<not> own_move mv) (session_end sample_disp_env) = []" by (simp add: session_end_def)
  ultimately show ?thesis
    using shutdown_completes [OF s(1,2) s', of sample_disp_env] s s' by auto
qed

end
