(* ===== verification/App_Refinement.thy ===== *)
theory App_Refinement
  imports App_Loop
begin

text \<open>
  The whole program against the specification of its state machine: from the configuration
  file, through the threads, the event queue (\<open>src/main.cpp\<close>) and the dispatcher
  (\<open>src/event-dispatcher.cpp\<close>), to the state that \<open>src/fmu.cpp\<close> is in and what it
  asks of the autopilot.
\<close>

section \<open>What an event delivers to the state machine\<close>

fun event_input :: "disp_env \<Rightarrow> event \<Rightarrow> EventDispatcher \<Rightarrow> (mav_env \<times> fmu_input) list" where
  "event_input env (FSSCommandEvent cmd target ack) d = [(de_mav env, In_fss cmd target)]"
| "event_input env (FSSCommsStatusEvent status) d = [(de_mav env, In_fss_comms (status = fss_comms_failure))]"
| "event_input env (MavCommsStatusEvent status) d = [(de_mav env, In_mav_comms (status = mav_comms_status_failure))]"
| "event_input env MavAutopilotRestart d = [(de_mav env, In_reassert)]"
| "event_input env (PositionDataEvent pd) d =
     [(de_mav env, In_altitude (and (pd_flags pd) POSITION_FLAG_VALID_COORDS \<noteq> 0) (pd_alt_agl_m pd))]"
| "event_input env (BatteryDataEvent bd) d =
     [(de_mav env, In_battery (sint (bd_remaining bd) \<ge> 0 \<and> sint (bd_remaining bd) < lowbat_threshold d))]"
| "event_input env (SmmLoadSearch search) d =
     (if isWaitingForTasking (state_machine d) then [(de_mav env, In_smm smm_cmd_none)] else [])"
| "event_input env SmmRtl d = [(de_mav env, In_smm smm_cmd_mission_complete)]"
| "event_input env (SmmOperatorCommand cmd) d = [(de_mav env, In_smm cmd)]"
| "event_input env (SMMSettingsEvent settings) d = []"
| "event_input env (ReachedPoint pt) d = []"
| "event_input env (OtherAircraftReport pd) d = []"
| "event_input env Nudge d = []"

fun event_inputs :: "(disp_env \<times> event) list \<Rightarrow> EventDispatcher \<Rightarrow> (mav_env \<times> fmu_input) list" where
  "event_inputs [] d = []"
| "event_inputs ((env, e) # rest) d = event_input env e d @ event_inputs rest (fst (dispatch env e d))"

text \<open>The calls of the state machine among those of the dispatcher; the callback writes a log line.\<close>

fun machine_call :: "disp_call \<Rightarrow> fmu_call option" where
  "machine_call (D_fmu c) = Some c"
| "machine_call _ = None"

fun on_interface :: "fmu_call \<Rightarrow> bool" where
  "on_interface (Call_state_change _) = False"
| "on_interface _ = True"

definition machine_calls :: "disp_call list \<Rightarrow> fmu_call list" where
  "machine_calls = List.map_filter machine_call"

lemma machine_calls_simps [simp]:
  "machine_calls [] = []"
  "machine_calls (c # cs) = (case machine_call c of Some x \<Rightarrow> x # machine_calls cs | None \<Rightarrow> machine_calls cs)"
  "machine_calls (xs @ ys) = machine_calls xs @ machine_calls ys"
  by (simp_all add: machine_calls_def List.map_filter_def split: option.split)

lemma machine_call_of_fmu: "machine_call (of_fmu_call c) = (if on_interface c then Some c else None)"
  by (cases c) simp_all

lemma machine_calls_of_fmu [simp]: "machine_calls (map of_fmu_call cs) = filter on_interface cs"
  by (induction cs) (simp_all add: machine_call_of_fmu)

lemma isSearching_not_waiting: "isSearching s \<Longrightarrow> \<not> isWaitingForTasking s"
  by (simp add: isSearching_def isWaitingForTasking_def)

text \<open>One dispatch is the steps that the event delivers.\<close>

lemma dispatch_refines:
  "state_machine (fst (dispatch env e d)) = fmu_after (state_machine d) (event_input env e d) \<and>
   machine_calls (snd (dispatch env e d)) = filter on_interface (fmu_calls (state_machine d) (event_input env e d))"
proof (cases e)
  case (FSSCommandEvent cmd target ack)
  then show ?thesis
    by (auto simp: run_fmu_def fmu_after_def fmu_step.simps split: prod.split option.split)
next
  case (OtherAircraftReport pd)
  then show ?thesis
    by (auto simp: dispatch_other_aircraft_def Let_def)
next
  case (SmmLoadSearch search)
  then show ?thesis
    using isSearching_not_waiting [of "state_machine d"] by (auto simp: run_fmu_def fmu_after_def fmu_step.simps)
next
  case (BatteryDataEvent bd)
  then show ?thesis by (auto simp: run_fmu_def fmu_after_def fmu_step.simps Let_def split_beta)
qed (auto simp: run_fmu_def fmu_after_def fmu_step.simps Let_def split_beta)

lemma dispatch_all_refines:
  "state_machine (fst (dispatch_all h d)) = fmu_after (state_machine d) (event_inputs h d) \<and>
   machine_calls (snd (dispatch_all h d)) = filter on_interface (fmu_calls (state_machine d) (event_inputs h d))"
proof (induction h d rule: dispatch_all.induct)
  case (2 env e rest d)
  obtain d1 calls where d1: "dispatch env e d = (d1, calls)" by fastforce
  obtain d2 calls' where d2: "dispatch_all rest d1 = (d2, calls')" by fastforce
  show ?case
    using 2 [OF d1 [symmetric]] dispatch_refines [of env e d] d1 d2
    by (simp add: fmu_after_append fmu_calls_append)
qed simp

section \<open>The state-change callback does not matter\<close>

lemma callback_step:
  "fst (fmu_step env i (setStateChangeCB cb s)) = setStateChangeCB cb (fst (fmu_step env i s))"
  by (cases i) (auto simp: step_simps setStateChangeCB_def arbitrate_def commandedState_def Let_def
    split: option.split bool.split)

lemma callback_after: "fmu_after (setStateChangeCB cb s) h = setStateChangeCB cb (fmu_after s h)"
  by (induction h rule: rev_induct) (auto simp: callback_step)

lemma callback_after_state: "current_state (fmu_after (setStateChangeCB cb s) h) = current_state (fmu_after s h)"
  by (simp add: callback_after) (simp add: setStateChangeCB_def)

lemma App_dispatcher_machine:
  "state_machine (App_dispatcher cfg name) =
     setStateChangeCB True (FMUStateMachine_init (fc_low_battery_latch_count cfg) (fc_altitude_cap_m cfg)
       (fc_altitude_breach_latch_count cfg))"
  by (simp add: App_dispatcher_def EventDispatcher_init_def)

section \<open>The program\<close>

text \<open>C2: the program as a whole keeps the contract of its state machine: for every file that loads and every interleaving of its threads, the state it is in is the one that the specification reads off the commands, readings and reports that the dispatched events carry, with the thresholds of that file; and what has been asked of the autopilot and the search worker is exactly what the state machine asks for on that history, in order.\<close>

theorem app_refines_history:
  assumes "loadFmuConfig J f = Inr (cfg, ws)" and "reachable_app cfg name s"
  shows "current_state (state_machine (ap_dispatcher s)) =
      spec_state (nat (fc_low_battery_latch_count cfg)) (nat (fc_altitude_breach_latch_count cfg)) (fc_altitude_cap_m cfg)
        (map snd (event_inputs (ap_dispatched s) (App_dispatcher cfg name))) \<and>
    machine_calls (app_calls (ap_out s)) =
      filter on_interface (fmu_calls (state_machine (App_dispatcher cfg name))
        (event_inputs (ap_dispatched s) (App_dispatcher cfg name)))"
proof -
  have "cfg_tunables_ok cfg" using loaded_tunables_ok [OF assms(1)] .
  then have pos: "1 \<le> nat (fc_low_battery_latch_count cfg)" "1 \<le> nat (fc_altitude_breach_latch_count cfg)"
    and eq: "int (nat (fc_low_battery_latch_count cfg)) = fc_low_battery_latch_count cfg"
      "int (nat (fc_altitude_breach_latch_count cfg)) = fc_altitude_breach_latch_count cfg"
    by (auto simp: cfg_tunables_ok_def between_def)
  have "dispatch_all (ap_dispatched s) (App_dispatcher cfg name) = (ap_dispatcher s, app_calls (ap_out s))"
    using reachable_order [OF assms(2)] by (simp add: order_inv_def)
  then have "state_machine (ap_dispatcher s) =
      fmu_after (state_machine (App_dispatcher cfg name)) (event_inputs (ap_dispatched s) (App_dispatcher cfg name))"
    and "machine_calls (app_calls (ap_out s)) =
      filter on_interface (fmu_calls (state_machine (App_dispatcher cfg name))
        (event_inputs (ap_dispatched s) (App_dispatcher cfg name)))"
    using dispatch_all_refines [of "ap_dispatched s" "App_dispatcher cfg name"] by simp_all
  then show ?thesis
    using current_state_after [OF pos, unfolded eq] by (simp add: App_dispatcher_machine callback_after_state)
qed

theorem app_refines_history_witness:
  "\<exists>s. app_run (session_start sample_disp_env) (App_init sample_config ''FMU'') = Some s \<and>
     current_state (state_machine (ap_dispatcher s)) =
       spec_state 4 5 100 (map snd (event_inputs (ap_dispatched s) (App_dispatcher sample_config ''FMU''))) \<and>
     map snd (ap_dispatched s) = [MavCommsStatusEvent mav_comms_status_failure]"
proof -
  have "map_option (\<lambda>s. map snd (ap_dispatched s))
     (app_run (session_start sample_disp_env) (App_init sample_config ''FMU'')) =
     Some [MavCommsStatusEvent mav_comms_status_failure]" by code_simp
  then obtain s where s: "app_run (session_start sample_disp_env) (App_init sample_config ''FMU'') = Some s"
    "map snd (ap_dispatched s) = [MavCommsStatusEvent mav_comms_status_failure]" by auto
  from app_refines_history [OF sample_file_loads app_run_reachable [OF reachable_app.start s(1)]] s show ?thesis
    by (simp add: sample_config_def FmuConfig_default_def)
qed

end
