(* ===== verification/Fss.thy ===== *)
theory Fss
  imports Fss_Client Work_Queue
begin

text \<open>
  The reporting side of the ground station, \<open>src/fss/fss.cpp\<close> and \<open>src/fss/fmu-fss.hpp\<close>:
  the public methods convert and enqueue, and a worker thread sends. Each access to the
  queue holds its mutex, so an enqueue and one turn of the worker are one step each.
\<close>

section \<open>Tasks and state\<close>

datatype FssTask =
    FssPositionTask dbl dbl i16 u16 u16 i16 bool
  | FssReachedTask int int
  | FssBatteryTask i8 i32 dbl
  | FssAckTask "u64 option" FSSCommandResolution

fun is_position_task :: "FssTask \<Rightarrow> bool" where
  "is_position_task (FssPositionTask _ _ _ _ _ _ _) = True"
| "is_position_task _ = False"

record FSS =
  ssl_client :: "fss_client_ssl option"
  fss_queue :: "FssTask list"
  fss_worker_running :: bool

definition FSS_init :: FSS where
  "FSS_init = \<lparr>ssl_client = Some fss_client_ssl_init, fss_queue = [], fss_worker_running = True\<rparr>"

section \<open>Operations of the event loop\<close>

definition getAssetName :: "fss_env \<Rightarrow> FSS \<Rightarrow> string" where
  "getAssetName env f = (case ssl_client f of Some _ \<Rightarrow> fe_asset_name env | None \<Rightarrow> [])"

definition FSS_registerCommandCB :: "bool \<Rightarrow> FSS \<Rightarrow> FSS" where
  "FSS_registerCommandCB cb f = f\<lparr>ssl_client := map_option (registerCommandCB cb) (ssl_client f)\<rparr>"

definition FSS_registerCommsStatusCB :: "bool \<Rightarrow> FSS \<Rightarrow> FSS \<times> fss_out list" where
  "FSS_registerCommsStatusCB cb f =
     (case ssl_client f of
        None \<Rightarrow> (f, [])
      | Some c \<Rightarrow> (case registerCommsStatusCB cb c of (c1, out) \<Rightarrow> (f\<lparr>ssl_client := Some c1\<rparr>, out)))"

definition FSS_registerSMMSettingsCB :: "bool \<Rightarrow> FSS \<Rightarrow> FSS" where
  "FSS_registerSMMSettingsCB cb f = f\<lparr>ssl_client := map_option (registerSMMSettingsCB cb) (ssl_client f)\<rparr>"

definition FSS_registerPositionDataCB :: "bool \<Rightarrow> FSS \<Rightarrow> FSS" where
  "FSS_registerPositionDataCB cb f = f\<lparr>ssl_client := map_option (registerPositionDataCB cb) (ssl_client f)\<rparr>"

definition enqueue_task :: "FssTask \<Rightarrow> FssTask list \<Rightarrow> FssTask list" where
  "enqueue_task task q =
     (if is_position_task task then filter (\<lambda>t. \<not> is_position_task t) q else q) @ [task]"

definition FSS_enqueue :: "FssTask \<Rightarrow> FSS \<Rightarrow> FSS" where
  "FSS_enqueue task f = f\<lparr>fss_queue := enqueue_task task (fss_queue f)\<rparr>"

text \<open>
  The altitude in feet on the wire: \<open>lround\<close> of the converted metres, cast to 16 bits. A
  finite value outside the range of \<open>long\<close> is \<open>None\<close>.
\<close>

definition report_altitude_ft :: "dbl \<Rightarrow> i16 option" where
  "report_altitude_ft alt_m =
     (let alt_ft_d = metres_to_feet alt_m
      in if isfinite alt_ft_d then map_option word_of_int (lround alt_ft_d) else Some 0)"

definition FSS_reportPosition :: "PositionData \<Rightarrow> FSS \<Rightarrow> FSS option" where
  "FSS_reportPosition t_pd f =
     (case report_altitude_ft (pd_alt_m t_pd) of
        None \<Rightarrow> None
      | Some alt_ft \<Rightarrow>
          Some (FSS_enqueue
            (FssPositionTask (latitude (pd_p t_pd)) (longitude (pd_p t_pd)) alt_ft (pd_hdg t_pd)
               (pd_vel_hor t_pd) (pd_vel_ver t_pd) (and (pd_flags t_pd) POSITION_FLAG_VALID_COORDS \<noteq> 0)) f))"

definition FSS_reachedPoint :: "int \<Rightarrow> int \<Rightarrow> FSS \<Rightarrow> FSS" where
  "FSS_reachedPoint pt total_points f = FSS_enqueue (FssReachedTask pt total_points) f"

definition FSS_reportBatteryStatus :: "BatteryData \<Rightarrow> FSS \<Rightarrow> FSS" where
  "FSS_reportBatteryStatus bd f =
     FSS_enqueue (FssBatteryTask (bd_remaining bd) (bd_consumed bd) (bd_voltage bd)) f"

definition FSS_postAck :: "u64 option \<Rightarrow> FSSCommandResolution \<Rightarrow> FSS \<Rightarrow> FSS" where
  "FSS_postAck ack res f = FSS_enqueue (FssAckTask ack res) f"

section \<open>The worker\<close>

fun FSS_run_task :: "fss_env \<Rightarrow> FssTask \<Rightarrow> fss_client_ssl \<Rightarrow> fss_client_ssl \<times> fss_out list" where
  "FSS_run_task env (FssPositionTask lat lng alt heading hor_vel ver_vel fix_valid) c =
     client_sendPosition env lat lng alt heading hor_vel ver_vel fix_valid c"
| "FSS_run_task env (FssReachedTask pt total_points) c = (c, client_reachedPoint pt total_points)"
| "FSS_run_task env (FssBatteryTask remaining consumed voltage) c =
     (c, client_sendBatteryStatus remaining consumed voltage)"
| "FSS_run_task env (FssAckTask ack res) c =
     (case ack of Some e \<Rightarrow> run_responder env e res c | None \<Rightarrow> (c, []))"

text \<open>
  One turn of \<open>workerLoop\<close>: it waits, returns, or takes the front task and runs it. The
  constructor sets the client and nothing clears it, so the case without one does not arise;
  the state that the responder of an acknowledgement works on is the client's, and without a
  client there is none.
\<close>

datatype worker_turn = Worker_waits | Worker_returns | Worker_ran

definition FSS_worker_turn :: "fss_env \<Rightarrow> FSS \<Rightarrow> FSS \<times> fss_out list \<times> worker_turn" where
  "FSS_worker_turn env f =
     (case fss_queue f of
        [] \<Rightarrow> if fss_worker_running f then (f, [], Worker_waits) else (f, [], Worker_returns)
      | task # q \<Rightarrow>
          let f1 = f\<lparr>fss_queue := q\<rparr>
          in (case ssl_client f1 of
                None \<Rightarrow> (f1, [], Worker_ran)
              | Some c \<Rightarrow> (case FSS_run_task env task c of
                  (c1, out) \<Rightarrow> (f1\<lparr>ssl_client := Some c1\<rparr>, out, Worker_ran))))"

text \<open>The loop until it waits or returns; the fuel bounds the turns.\<close>

fun FSS_workerLoop :: "nat \<Rightarrow> fss_env \<Rightarrow> FSS \<Rightarrow> (FSS \<times> fss_out list \<times> worker_turn) option" where
  "FSS_workerLoop 0 env f = None"
| "FSS_workerLoop (Suc n) env f =
     (case FSS_worker_turn env f of
        (f1, out, Worker_ran) \<Rightarrow>
          (case FSS_workerLoop n env f1 of
             None \<Rightarrow> None
           | Some (f2, out', r) \<Rightarrow> Some (f2, out @ out', r))
      | (f1, out, r) \<Rightarrow> Some (f1, out, r))"

definition FSS_stopWorker :: "fss_env \<Rightarrow> FSS \<Rightarrow> (FSS \<times> fss_out list \<times> worker_turn) option" where
  "FSS_stopWorker env f = FSS_workerLoop (length (fss_queue f) + 1) env (f\<lparr>fss_worker_running := False\<rparr>)"

section \<open>The queue keeps its contract\<close>

interpretation fss_tasks: single_task_queue enqueue_task
    "\<lambda>x y. is_position_task x \<and> is_position_task y" "\<lambda>x q. False" "\<lambda>t. \<not> is_position_task t" is_position_task
  by unfold_locales (auto simp: enqueue_task_def)

text \<open>A history: tasks that any thread enqueues and turns of the worker, each with its environment.\<close>

datatype fss_event = Fss_enqueue FssTask | Fss_turn fss_env

text \<open>The state after a step, the task the worker took with the environment it ran in, and what was sent.\<close>

fun fss_step :: "fss_event \<Rightarrow> FSS \<Rightarrow> FSS \<times> (fss_env \<times> FssTask) list \<times> fss_out list" where
  "fss_step (Fss_enqueue task) f = (FSS_enqueue task f, [], [])"
| "fss_step (Fss_turn env) f =
     (case FSS_worker_turn env f of (f1, out, r) \<Rightarrow> (f1, map (Pair env) (take 1 (fss_queue f)), out))"

fun fss_run :: "fss_event list \<Rightarrow> FSS \<Rightarrow> FSS \<times> (fss_env \<times> FssTask) list \<times> fss_out list" where
  "fss_run [] f = (f, [], [])"
| "fss_run (e # es) f =
     (case fss_step e f of (f1, taken, out) \<Rightarrow>
        (case fss_run es f1 of (f2, taken', out') \<Rightarrow> (f2, taken @ taken', out @ out')))"

fun fss_enqueued :: "fss_event list \<Rightarrow> FssTask list" where
  "fss_enqueued [] = []"
| "fss_enqueued (Fss_enqueue task # es) = task # fss_enqueued es"
| "fss_enqueued (Fss_turn env # es) = fss_enqueued es"

text \<open>What running a list of tasks, each in its environment, does to the client and sends.\<close>

fun run_taken :: "(fss_env \<times> FssTask) list \<Rightarrow> fss_client_ssl \<Rightarrow> fss_client_ssl \<times> fss_out list" where
  "run_taken [] c = (c, [])"
| "run_taken ((env, t) # ts) c =
     (case FSS_run_task env t c of (c1, out) \<Rightarrow> (case run_taken ts c1 of (c2, out') \<Rightarrow> (c2, out @ out')))"

lemma fss_turn_empty: "fss_queue f = [] \<Longrightarrow> fss_step (Fss_turn env) f = (f, [], [])"
  by (simp add: FSS_worker_turn_def)

lemma fss_turn_task:
  "fss_queue f = t # q \<Longrightarrow> ssl_client f = Some c \<Longrightarrow> fss_step (Fss_turn env) f =
     (f\<lparr>fss_queue := q, ssl_client := Some (fst (FSS_run_task env t c))\<rparr>, [(env, t)], snd (FSS_run_task env t c))"
  by (simp add: FSS_worker_turn_def Let_def case_prod_unfold)

text \<open>The turns of the worker are the dequeues of the contract.\<close>

fun fss_ops :: "fss_event list \<Rightarrow> FssTask queue_op list" where
  "fss_ops [] = []"
| "fss_ops (Fss_enqueue task # es) = Enq task # fss_ops es"
| "fss_ops (Fss_turn env # es) = Deq # fss_ops es"

lemma fss_run_is_queue_run:
  "ssl_client f = Some c \<Longrightarrow>
   (case fss_run es f of (f', taken, out) \<Rightarrow> (fss_queue f', map snd taken)) =
     queue_run enqueue_task (fss_queue f) (fss_ops es)"
proof (induction es arbitrary: f c)
  case (Cons e es)
  show ?case
  proof (cases e)
    case (Fss_enqueue task)
    then show ?thesis using Cons.IH [of "FSS_enqueue task f" c] Cons.prems
      by (simp add: FSS_enqueue_def case_prod_unfold)
  next
    case (Fss_turn env)
    show ?thesis
    proof (cases "fss_queue f")
      case Nil
      then show ?thesis using Fss_turn Cons.IH [OF Cons.prems] fss_turn_empty [OF Nil]
        by (simp add: case_prod_unfold del: fss_step.simps)
    next
      case (Cons t q)
      then show ?thesis
        using Fss_turn fss_turn_task [OF Cons \<open>ssl_client f = Some c\<close>, of env]
          Cons.IH [of "f\<lparr>fss_queue := q, ssl_client := Some (fst (FSS_run_task env t c))\<rparr>"]
        by (simp add: case_prod_unfold prod_eq_iff del: fss_step.simps)
    qed
  qed
qed simp

lemma fss_run_runs_taken:
  "ssl_client f = Some c \<Longrightarrow> (case fss_run es f of (f', taken, out) \<Rightarrow>
     ssl_client f' = Some (fst (run_taken taken c)) \<and> out = snd (run_taken taken c))"
proof (induction es arbitrary: f c)
  case (Cons e es)
  show ?case
  proof (cases e)
    case (Fss_enqueue task)
    then show ?thesis using Cons.IH [of "FSS_enqueue task f" c] Cons.prems
      by (simp add: FSS_enqueue_def case_prod_unfold)
  next
    case (Fss_turn env)
    show ?thesis
    proof (cases "fss_queue f")
      case Nil
      then show ?thesis using Fss_turn Cons.IH [OF Cons.prems] fss_turn_empty [OF Nil]
        by (simp add: case_prod_unfold del: fss_step.simps)
    next
      case (Cons t q)
      then show ?thesis
        using Fss_turn fss_turn_task [OF Cons \<open>ssl_client f = Some c\<close>, of env]
          Cons.IH [of "f\<lparr>fss_queue := q, ssl_client := Some (fst (FSS_run_task env t c))\<rparr>"]
        by (simp add: case_prod_unfold del: fss_step.simps)
    qed
  qed
qed simp

lemma queue_run_coalesced:
  "coalesced is_position_task (tk @ q) xs \<Longrightarrow>
   coalesced is_position_task (tk @ snd (queue_run enqueue_task q (fss_ops es)) @ fst (queue_run enqueue_task q (fss_ops es)))
     (xs @ fss_enqueued es)"
proof (induction es arbitrary: q tk xs)
  case (Cons e es)
  show ?case
  proof (cases e)
    case (Fss_enqueue t)
    have "coalesced is_position_task (tk @ enqueue_task t q) (xs @ [t])"
      using Cons.prems coalesced_append [OF Cons.prems, of t] coalesced_push [OF Cons.prems, of t tk q]
      by (auto simp: enqueue_task_def)
    then show ?thesis using Fss_enqueue Cons.IH [of tk "enqueue_task t q" "xs @ [t]"]
      by (simp add: case_prod_unfold)
  next
    case (Fss_turn env)
    show ?thesis
    proof (cases q)
      case (Cons t q')
      then show ?thesis using Fss_turn Cons.prems Cons.IH [of "tk @ [t]" q' xs] by (simp add: case_prod_unfold)
    qed (use Fss_turn Cons.prems Cons.IH [of tk q xs] in \<open>simp add: case_prod_unfold\<close>)
  qed
qed simp

text \<open>At most one element of the class is left, and it is the newest.\<close>

lemma coalesced_newest:
  assumes "coalesced p (ys @ q) xs" and "length (filter p q) \<le> 1"
  shows "filter p q \<in> {[], [last (filter p xs)]}"
proof (cases "filter p q")
  case (Cons x zs)
  then have "filter p (ys @ q) = filter p ys @ [x]" "filter p q = [x]" using assms(2) by auto
  then show ?thesis using coalesced_last [OF assms(1)] by simp
qed simp

text \<open>C26: whatever enqueues and worker turns interleave, the reporter's queue loses, repeats and reorders nothing: the tasks that the worker ran and those still queued are those enqueued, in order, where only a position report can be left out and only if a later one was enqueued; so every reached point, battery report and command acknowledgement comes through exactly once, in order, at most one position report waits, and it is the newest one; and what is sent is what the tasks taken send, run in that order.\<close>

theorem fss_queue_keeps_acks:
  "case fss_run es (FSS_init\<lparr>ssl_client := Some c\<rparr>) of (f, taken, out) \<Rightarrow>
     coalesced is_position_task (map snd taken @ fss_queue f) (fss_enqueued es) \<and>
     filter (\<lambda>t. \<not> is_position_task t) (map snd taken @ fss_queue f) =
       filter (\<lambda>t. \<not> is_position_task t) (fss_enqueued es) \<and>
     filter is_position_task (fss_queue f) \<in> {[], [last (filter is_position_task (fss_enqueued es))]} \<and>
     ssl_client f = Some (fst (run_taken taken c)) \<and> out = snd (run_taken taken c)"
proof -
  let ?f0 = "FSS_init\<lparr>ssl_client := Some c\<rparr>"
  obtain f taken out where r: "fss_run es ?f0 = (f, taken, out)" by (metis prod_cases3)
  have q: "queue_run enqueue_task [] (fss_ops es) = (fss_queue f, map snd taken)"
    using fss_run_is_queue_run [of ?f0 c es] r by (simp add: FSS_init_def)
  have co: "coalesced is_position_task (map snd taken @ fss_queue f) (fss_enqueued es)"
    using queue_run_coalesced [of "[]" "[]" "[]" es] q by (simp add: coalesced.Nothing)
  have "length (filter is_position_task (fss_queue f)) \<le> 1"
    using fss_tasks.single_run [of "[]" "fss_ops es"] q by simp
  then have "filter is_position_task (fss_queue f) \<in> {[], [last (filter is_position_task (fss_enqueued es))]}"
    by (rule coalesced_newest [OF co])
  then show ?thesis using r co coalesced_others [OF co] fss_run_runs_taken [of ?f0 c es] by simp
qed

section \<open>The worker drains its queue\<close>

fun run_tasks :: "fss_env \<Rightarrow> FssTask list \<Rightarrow> fss_client_ssl \<Rightarrow> fss_client_ssl \<times> fss_out list" where
  "run_tasks env [] c = (c, [])"
| "run_tasks env (t # ts) c =
     (case FSS_run_task env t c of (c1, out) \<Rightarrow> (case run_tasks env ts c1 of (c2, out') \<Rightarrow> (c2, out @ out')))"

lemma FSS_workerLoop_drains:
  assumes "ssl_client f = Some c" and "\<not> fss_worker_running f" and "run_tasks env (fss_queue f) c = (c', out)"
  shows "FSS_workerLoop (length (fss_queue f) + 1) env f =
    Some (f\<lparr>ssl_client := Some c', fss_queue := []\<rparr>, out, Worker_returns)"
  using assms
proof (induction "fss_queue f" arbitrary: f c out)
  case Nil
  then show ?case by (simp add: FSS_worker_turn_def)
next
  case (Cons t ts)
  obtain c1 o1 where t: "FSS_run_task env t c = (c1, o1)" by fastforce
  obtain o2 where ts: "run_tasks env ts c1 = (c', o2)" "out = o1 @ o2"
    using Cons.prems(3) Cons.hyps(2) [symmetric] t by (auto split: prod.splits)
  let ?f = "f\<lparr>fss_queue := ts, ssl_client := Some c1\<rparr>"
  have IH: "FSS_workerLoop (length ts + 1) env ?f = Some (?f\<lparr>ssl_client := Some c', fss_queue := []\<rparr>, o2, Worker_returns)"
    using Cons.hyps(1) [of ?f c1 o2] Cons.prems(2) ts(1) by simp
  show ?case
    using IH Cons.prems Cons.hyps(2) [symmetric] t ts(2)
    by (simp add: FSS_worker_turn_def Let_def del: FSS_workerLoop.simps(1))
qed

text \<open>C27: stopping the worker always comes back: the loop ends after one turn per queued task, with every task run in order and nothing left in the queue.\<close>

theorem FSS_stopWorker_drains:
  assumes "ssl_client f = Some c"
  shows "FSS_stopWorker env f =
    Some (f\<lparr>ssl_client := Some (fst (run_tasks env (fss_queue f) c)), fss_queue := [], fss_worker_running := False\<rparr>,
      snd (run_tasks env (fss_queue f) c), Worker_returns)"
  using FSS_workerLoop_drains [of "f\<lparr>fss_worker_running := False\<rparr>" c env] assms
  by (simp add: FSS_stopWorker_def prod_eq_iff)

theorem FSS_stopWorker_drains_witness:
  "FSS_stopWorker all_alive (FSS_reachedPoint 2 5 FSS_init) =
     Some (FSS_init\<lparr>fss_worker_running := False\<rparr>, [Out_search_status 0 2 5], Worker_returns)"
  using FSS_stopWorker_drains [of "FSS_reachedPoint 2 5 FSS_init" fss_client_ssl_init all_alive]
  by (simp add: FSS_reachedPoint_def FSS_enqueue_def enqueue_task_def FSS_init_def client_reachedPoint_def)

section \<open>Rate of the position reports\<close>

text \<open>The times at which a series of calls of \<open>sendPosition\<close> sends.\<close>

fun position_send_times :: "fss_client_ssl \<Rightarrow> position_call list \<Rightarrow> int list" where
  "position_send_times c [] = []"
| "position_send_times c (k # ks) =
     (case do_sendPosition k c of (c1, out) \<Rightarrow>
        (if out \<noteq> [] then [fe_steady_now_ns (pc_env k)] else []) @ position_send_times c1 ks)"

lemma position_send_times_fire: "position_send_times c ks = own_position.fire_times c ks"
  by (induction ks arbitrary: c) (simp_all add: case_prod_unfold)

text \<open>On a monotone clock the own position goes out at most once per second: any two reports sent are at least a second apart, however often the FMU reports.\<close>

lemma own_position_reports_spaced:
  assumes "sorted (position_last_sent c # map (\<lambda>k. fe_steady_now_ns (pc_env k)) ks)"
  shows "sorted_wrt (\<lambda>a b. a + 1000000000 \<le> b) (position_send_times c ks)"
  unfolding position_send_times_fire using assms by (intro own_position.spaced) auto

definition call_at :: "int \<Rightarrow> position_call" where
  "call_at t = \<lparr>pc_env = all_alive\<lparr>fe_steady_now_ns := t\<rparr>, pc_lat = Fin 0, pc_lng = Fin 0, pc_alt = 0,
     pc_heading = 0, pc_hor_vel = 0, pc_ver_vel = 0, pc_fix_valid = True\<rparr>"

lemma own_position_reports_spaced_witness:
  "sorted_wrt (\<lambda>a b. a + 1000000000 \<le> b)
     (position_send_times fss_client_ssl_init [call_at 5000000000, call_at 5200000000, call_at 6000000000])"
  by (rule own_position_reports_spaced) (simp add: call_at_def fss_client_ssl_init_def)

section \<open>Altitude on the wire\<close>

lemma sint16_word_of_int:
  "- 32768 \<le> z \<Longrightarrow> z \<le> 32767 \<Longrightarrow> sint (word_of_int z :: i16) = z"
  unfolding sint_sbintrunc' by (rule signed_take_bit_int_eq_self) simp_all

lemma sint16_word_of_int_wrap:
  assumes "32768 \<le> z" and "z \<le> 65535"
  shows "sint (word_of_int z :: i16) = z - 65536"
proof -
  have "(word_of_int z :: i16) = word_of_int (z - 65536)"
    by (simp add: word_of_int_eq_iff take_bit_eq_mod)
  then have "sint (word_of_int z :: i16) = sint (word_of_int (z - 65536) :: i16)" by (rule arg_cong)
  also have "sint (word_of_int (z - 65536) :: i16) = z - 65536"
    using assms by (intro sint16_word_of_int) simp_all
  finally show ?thesis .
qed

text \<open>The altitude reported to the ground station is the altitude in feet rounded to the nearest foot as long as it fits 16 bits; from 32768 ft on it wraps to a negative altitude.\<close>

lemma report_altitude_wraps:
  assumes "metres_to_feet alt = Fin r" and "- 32767 \<le> r" and "r \<le> 65535"
  shows "\<exists>w. report_altitude_ft alt = Some w \<and>
    (r \<le> 32767 \<longrightarrow> sint w = round_away r) \<and>
    (32768 \<le> r \<longrightarrow> sint w = round_away r - 65536 \<and> sint w < 0)"
proof -
  have b: "- 32767 \<le> round_away r" "round_away r \<le> 65535"
    using round_away_bounds [of "- 32767" r 65535] assms(2,3) by simp_all
  then have w: "report_altitude_ft alt = Some (word_of_int (round_away r))"
    using assms(1) by (simp add: report_altitude_ft_def in_range_def)
  have low: "round_away r \<le> 32767" if "r \<le> 32767"
    using round_away_bounds [of "- 32767" r 32767] assms(2) that by simp
  have high: "32768 \<le> round_away r" if "32768 \<le> r"
    using round_away_bounds [of 32768 r 65535] assms(3) that by simp
  show ?thesis
    unfolding w using b low high sint16_word_of_int [of "round_away r"] sint16_word_of_int_wrap [of "round_away r"]
    by auto
qed

lemma metres_per_foot_nonzero: "metres_per_foot \<noteq> 0"
proof -
  have "pow2 (- 30) \<le> metres_per_foot"
    unfolding metres_per_foot_def by (rule lit_bounds) simp_all
  then show ?thesis using pow2_pos [of "- 30"] by linarith
qed

lemma report_altitude_wraps_witness:
  "\<exists>w. report_altitude_ft (Fin (32768 * metres_per_foot)) = Some w \<and> sint w = - 32768"
proof -
  have "rnd 32768 = Fin 32768" using rnd_of_int [of 32768] by simp
  then have "metres_to_feet (Fin (32768 * metres_per_foot)) = Fin 32768"
    using metres_per_foot_nonzero by (simp add: metres_to_feet_def)
  moreover have "round_away 32768 = 32768"
  proof -
    have "\<lfloor>65537 / 2 :: rat\<rfloor> = 32768" by (rule floor_unique) simp_all
    then show ?thesis by (simp add: round_away_def)
  qed
  ultimately show ?thesis using report_altitude_wraps [of "Fin (32768 * metres_per_foot)" 32768] by auto
qed

end
