(* ===== verification/Drop_Oldest.thy ===== *)
theory Drop_Oldest
  imports FMU_Prelude "HOL-Library.Sublist"
begin

text \<open>
  The contract of a bounded buffer between many producers and one consumer that drops its
  oldest item when it is full and counts the drops for the consumer, as the line queue of
  \<open>src/logger.cpp\<close> does. A step of the machine that owns the buffer puts an item, takes
  one, or does neither; a take also claims the count of drops.
\<close>

locale drop_oldest =
  fixes step :: "'i \<Rightarrow> 's \<Rightarrow> 's" and put :: "'i \<Rightarrow> 's \<Rightarrow> 'x option" and got :: "'i \<Rightarrow> 's \<Rightarrow> ('x \<times> nat) option"
    and items :: "'s \<Rightarrow> 'x list" and lost :: "'s \<Rightarrow> nat" and cap :: "'s \<Rightarrow> nat" and config :: "'s \<Rightarrow> bool"
  assumes cap_pos: "config s \<Longrightarrow> 1 \<le> cap s"
    and config_step: "config s \<Longrightarrow> config (step i s)"
    and cap_step: "config s \<Longrightarrow> cap (step i s) = cap s"
    and put_step: "config s \<Longrightarrow> put i s = Some x \<Longrightarrow> got i s = None \<and>
      items (step i s) = (if cap s \<le> length (items s) then tl (items s) else items s) @ [x] \<and>
      lost (step i s) = lost s + (if cap s \<le> length (items s) then 1 else 0)"
    and got_step: "config s \<Longrightarrow> got i s = Some (x, n) \<Longrightarrow> put i s = None \<and>
      items s = x # items (step i s) \<and> n = lost s \<and> lost (step i s) = 0"
    and idle_step: "config s \<Longrightarrow> put i s = None \<Longrightarrow> got i s = None \<Longrightarrow>
      items (step i s) = items s \<and> lost (step i s) = lost s"
begin

text \<open>What a history puts, and what it takes with the drops claimed.\<close>

fun puts :: "'i list \<Rightarrow> 's \<Rightarrow> 'x list" where
  "puts [] s = []"
| "puts (i # is) s = (case put i s of Some x \<Rightarrow> [x] | None \<Rightarrow> []) @ puts is (step i s)"

fun gots :: "'i list \<Rightarrow> 's \<Rightarrow> ('x \<times> nat) list" where
  "gots [] s = []"
| "gots (i # is) s = (case got i s of Some xn \<Rightarrow> [xn] | None \<Rightarrow> []) @ gots is (step i s)"

lemma subseq_tl: "subseq (tl xs) xs"
  by (cases xs) auto

lemma taken_in_order:
  "config s \<Longrightarrow> subseq (map fst (gots is s) @ items (fold step is s)) (items s @ puts is s)"
proof (induction "is" arbitrary: s)
  case (Cons i "is")
  note IH = Cons.IH [OF config_step [OF Cons.prems, of i]]
  show ?case
  proof (cases "put i s")
    case (Some x)
    note p = put_step [OF Cons.prems Some]
    have "subseq (items (step i s)) (items s @ [x])" using p subseq_tl by (auto intro: list_emb_append_mono)
    then have "subseq (items (step i s) @ puts is (step i s)) (items s @ puts (i # is) s)"
      using Some list_emb_append_mono [of "(=)" "items (step i s)" "items s @ [x]" "puts is (step i s)" "puts is (step i s)"]
      by simp
    then show ?thesis using IH p by (auto intro: subseq_order.order_trans)
  next
    case None
    then show ?thesis
      using IH got_step [OF Cons.prems, of i] idle_step [OF Cons.prems None] by (cases "got i s") auto
  qed
qed simp

text \<open>Every item is taken, waiting, or in a count of drops, claimed or not yet.\<close>

lemma all_accounted:
  "config s \<Longrightarrow> length (puts is s) + length (items s) + lost s =
     length (gots is s) + sum_list (map snd (gots is s)) + length (items (fold step is s)) + lost (fold step is s)"
proof (induction "is" arbitrary: s)
  case (Cons i "is")
  note IH = Cons.IH [OF config_step [OF Cons.prems, of i]]
  show ?case
  proof (cases "put i s")
    case (Some x)
    then show ?thesis
      using IH put_step [OF Cons.prems Some] cap_pos [OF Cons.prems]
      by (cases "cap s \<le> length (items s)"; cases "items s") auto
  next
    case None
    then show ?thesis
      using IH got_step [OF Cons.prems, of i] idle_step [OF Cons.prems None] by (cases "got i s") auto
  qed
qed simp

lemma never_over: "config s \<Longrightarrow> length (items s) \<le> cap s \<Longrightarrow> length (items (fold step is s)) \<le> cap s"
proof (induction "is" arbitrary: s)
  case (Cons i "is")
  have "length (items (step i s)) \<le> cap s"
  proof (cases "put i s")
    case (Some x)
    then show ?thesis using put_step [OF Cons.prems(1) Some] Cons.prems(2) cap_pos [OF Cons.prems(1)] by auto
  next
    case None
    then show ?thesis
      using got_step [OF Cons.prems(1), of i] idle_step [OF Cons.prems(1) None] Cons.prems(2) by (cases "got i s") auto
  qed
  then show ?case using Cons.IH [OF config_step [OF Cons.prems(1)], of i] cap_step [OF Cons.prems(1), of i] by simp
qed simp

end

end
