(* ===== verification/Fmu_Logger.thy ===== *)
theory Fmu_Logger
  imports Core_Types Mission_Plan Drop_Oldest
begin

text \<open>
  The log, \<open>src/logger.hpp\<close>, \<open>src/logger.cpp\<close> and \<open>src/log-rotation.hpp\<close>: the
  filter and the bounded queue that every thread writes to, the worker that empties it, the
  accounting of bytes and the rotation of files, and the shutdown. A critical region of the
  queue mutex is one step. The file system is a map from paths to contents; what its calls
  return is an argument. Time stamps are arguments of the operations that make them.
\<close>

section \<open>Rotation\<close>

record RotationState =
  rs_bytes_written :: size_t
  rs_rotate :: bool

definition next_rotation_state :: "bool \<Rightarrow> size_t \<Rightarrow> size_t \<Rightarrow> size_t \<Rightarrow> RotationState" where
  "next_rotation_state write_ok bytes_written line_size max_log_bytes =
     (if \<not> write_ok then \<lparr>rs_bytes_written = bytes_written, rs_rotate = False\<rparr>
      else let total = bytes_written + line_size
        in \<lparr>rs_bytes_written = total, rs_rotate = (total \<ge> max_log_bytes)\<rparr>)"

type_synonym file_system = "string \<rightharpoonup> string"

record log_os =
  lo_mkdir :: bool
  lo_open :: bool
  lo_rename :: "string \<Rightarrow> string \<Rightarrow> bool"

definition rename_if_exists :: "log_os \<Rightarrow> string \<Rightarrow> string \<Rightarrow> file_system \<Rightarrow> file_system" where
  "rename_if_exists os src dst fs =
     (if fs src \<noteq> None \<and> lo_rename os src dst then (fs(dst := fs src))(src := None) else fs)"

definition numbered :: "string \<Rightarrow> nat \<Rightarrow> string" where
  "numbered base i = base @ ''.'' @ to_string_nat i"

text \<open>The loop counts \<open>i\<close> down to 1.\<close>

fun rotate_numbered :: "log_os \<Rightarrow> string \<Rightarrow> nat \<Rightarrow> file_system \<Rightarrow> file_system" where
  "rotate_numbered os base 0 fs = fs"
| "rotate_numbered os base (Suc i) fs =
     rotate_numbered os base i (rename_if_exists os (numbered base (Suc i)) (numbered base (Suc i + 1)) fs)"

definition Logger_rotate :: "log_os \<Rightarrow> string \<Rightarrow> nat \<Rightarrow> file_system \<Rightarrow> file_system" where
  "Logger_rotate os base rotation_count fs =
     rename_if_exists os base (base @ ''.1'') (rotate_numbered os base (rotation_count - 1) fs)"

definition max_rotations :: nat where
  "max_rotations = 5"

section \<open>State\<close>

datatype log_complaint = Cannot_create | Cannot_open | Write_failed | Write_recovered

text \<open>
  \<open>lg_hand\<close> are the lines that the worker has taken and not yet written, \<open>lg_handed\<close>
  every line it has passed to \<open>writeLine\<close>, \<open>lg_cerr\<close> the complaints on standard error.
\<close>

record Logger =
  lg_log_path :: string
  lg_file_open :: bool
  lg_level :: LogLevel
  lg_max_log_bytes :: size_t
  lg_bytes_written :: size_t
  lg_write_failed :: bool
  lg_logging_enabled :: bool
  lg_line_queue :: "string list"
  lg_max_queued_lines :: nat
  lg_dropped_lines :: nat
  lg_worker_running :: bool
  lg_worker_stopped :: bool
  lg_busy :: bool
  lg_exited :: bool
  lg_hand :: "string list"
  lg_handed :: "string list"
  lg_files :: file_system
  lg_cerr :: "log_complaint list"

definition default_max_log_bytes :: size_t where
  "default_max_log_bytes = 10 * 1024 * 1024"

definition default_max_queued_lines :: nat where
  "default_max_queued_lines = 10000"

definition complain :: "log_complaint \<Rightarrow> Logger \<Rightarrow> Logger" where
  "complain x lg = lg\<lparr>lg_cerr := lg_cerr lg @ [x]\<rparr>"

definition openFresh :: "log_os \<Rightarrow> Logger \<Rightarrow> Logger" where
  "openFresh os lg =
     (let lg1 = lg\<lparr>lg_files := Logger_rotate os (lg_log_path lg) max_rotations (lg_files lg), lg_file_open := lo_open os,
                   lg_bytes_written := 0\<rparr>
      in if lo_open os then lg1\<lparr>lg_files := (lg_files lg1)(lg_log_path lg \<mapsto> [])\<rparr> else complain Cannot_open lg1)"

definition Logger_new :: "log_os \<Rightarrow> file_system \<Rightarrow> string \<Rightarrow> LogLevel \<Rightarrow> size_t \<Rightarrow> nat \<Rightarrow> Logger" where
  "Logger_new os fs dir level max_bytes max_queued =
     (let lg = \<lparr>lg_log_path = dir @ ''/fmu.log'', lg_file_open = False, lg_level = level,
                lg_max_log_bytes = max_bytes, lg_bytes_written = 0, lg_write_failed = False,
                lg_logging_enabled = False, lg_line_queue = [],
                lg_max_queued_lines = (if max_queued > 0 then max_queued else 1), lg_dropped_lines = 0,
                lg_worker_running = True, lg_worker_stopped = False, lg_busy = False, lg_exited = False,
                lg_hand = [], lg_handed = [], lg_files = fs, lg_cerr = []\<rparr>
      in if \<not> lo_mkdir os then complain Cannot_create lg
         else let lg1 = openFresh os lg
           in if \<not> lg_file_open lg1 then lg1 else lg1\<lparr>lg_logging_enabled := True\<rparr>)"

section \<open>Producers\<close>

definition log_text :: "LogLevel \<Rightarrow> string \<Rightarrow> string \<Rightarrow> string" where
  "log_text level timestamp msg = timestamp @ '' '' @ log_level_name level @ '' '' @ msg @ [CHR 0x0A]"

definition Logger_log :: "LogLevel \<Rightarrow> string \<Rightarrow> string \<Rightarrow> Logger \<Rightarrow> Logger" where
  "Logger_log msg_level timestamp msg lg =
     (if \<not> lg_logging_enabled lg then lg
      else if msg_level > lg_level lg then lg
      else let lg1 = (if length (lg_line_queue lg) \<ge> lg_max_queued_lines lg
                      then lg\<lparr>lg_line_queue := tl (lg_line_queue lg), lg_dropped_lines := lg_dropped_lines lg + 1\<rparr>
                      else lg)
        in lg1\<lparr>lg_line_queue := lg_line_queue lg1 @ [log_text msg_level timestamp msg]\<rparr>)"

section \<open>The worker\<close>

text \<open>A write that fails may still have put some bytes on the disk.\<close>

record write_env =
  we_ok :: bool
  we_partial :: nat
  we_os :: log_os

definition append_file :: "string \<Rightarrow> string \<Rightarrow> file_system \<Rightarrow> file_system" where
  "append_file path text fs = fs(path \<mapsto> (case fs path of Some old \<Rightarrow> old | None \<Rightarrow> []) @ text)"

definition writeLine :: "write_env \<Rightarrow> string \<Rightarrow> Logger \<Rightarrow> Logger" where
  "writeLine env line lg =
     (if \<not> lg_file_open lg then lg
      else
        let write_ok = we_ok env;
            next = next_rotation_state write_ok (lg_bytes_written lg) (of_nat (length line)) (lg_max_log_bytes lg);
            lg1 = lg\<lparr>lg_files := append_file (lg_log_path lg) (if write_ok then line else take (we_partial env) line) (lg_files lg),
                     lg_bytes_written := rs_bytes_written next\<rparr>
        in if \<not> write_ok
           then (if \<not> lg_write_failed lg1 then complain Write_failed (lg1\<lparr>lg_write_failed := True\<rparr>) else lg1)
           else let lg2 = (if lg_write_failed lg1 then complain Write_recovered (lg1\<lparr>lg_write_failed := False\<rparr>) else lg1)
             in if rs_rotate next then openFresh (we_os env) lg2 else lg2)"

definition drop_marker :: "string \<Rightarrow> nat \<Rightarrow> string" where
  "drop_marker timestamp dropped =
     timestamp @ '' '' @ log_level_name log_error @ '' LOG dropped '' @ to_string_nat dropped @
     '' line(s): the write queue reached its bound'' @ [CHR 0x0A]"

text \<open>The worker is alive, and not in the middle of a round.\<close>

definition worker_idle :: "Logger \<Rightarrow> bool" where
  "worker_idle lg \<longleftrightarrow> lg_logging_enabled lg \<and> \<not> lg_exited lg \<and> \<not> lg_busy lg"

text \<open>The first region of a round: nothing while it waits, the exit, or a line and the claimed drops.\<close>

definition worker_take :: "string \<Rightarrow> Logger \<Rightarrow> Logger" where
  "worker_take timestamp lg =
     (if \<not> worker_idle lg then lg
      else case lg_line_queue lg of
        [] \<Rightarrow> if lg_worker_running lg then lg else lg\<lparr>lg_exited := True\<rparr>
      | line # rest \<Rightarrow>
          lg\<lparr>lg_line_queue := rest, lg_dropped_lines := 0, lg_busy := True,
             lg_hand := (if lg_dropped_lines lg > 0 then [drop_marker timestamp (lg_dropped_lines lg)] else []) @ [line]\<rparr>)"

definition worker_write :: "write_env \<Rightarrow> Logger \<Rightarrow> Logger" where
  "worker_write env lg =
     (case lg_hand lg of
        [] \<Rightarrow> lg
      | line # rest \<Rightarrow> (writeLine env line lg)\<lparr>lg_hand := rest, lg_handed := lg_handed lg @ [line]\<rparr>)"

text \<open>The last region of a round.\<close>

definition worker_done :: "Logger \<Rightarrow> Logger" where
  "worker_done lg = (if lg_busy lg \<and> lg_hand lg = [] then lg\<lparr>lg_busy := False\<rparr> else lg)"

definition Logger_flush_ready :: "Logger \<Rightarrow> bool" where
  "Logger_flush_ready lg \<longleftrightarrow> lg_line_queue lg = [] \<and> \<not> lg_busy lg"

section \<open>Shutdown\<close>

text \<open>The region of \<open>stopWorker\<close>.\<close>

definition stop_region :: "Logger \<Rightarrow> Logger" where
  "stop_region lg = (if lg_worker_stopped lg then lg else lg\<lparr>lg_worker_stopped := True, lg_worker_running := False\<rparr>)"

record round_env =
  re_timestamp :: string
  re_marker :: write_env
  re_line :: write_env

definition worker_round :: "round_env \<Rightarrow> Logger \<Rightarrow> Logger" where
  "worker_round env lg =
     (let lg1 = worker_take (re_timestamp env) lg;
          lg2 = (if length (lg_hand lg1) = 2 then worker_write (re_marker env) lg1 else lg1)
      in worker_done (worker_write (re_line env) lg2))"

text \<open>
  The worker alone: \<open>None\<close> is out of fuel, or waiting for a producer for ever. The wait on
  the condition variable is the test of its predicate; that the worker is notified when it
  changes is not part of this function. The rounds
  take their environments from the stream \<open>envs\<close>, from round \<open>k\<close> on.
\<close>

fun workerLoop :: "nat \<Rightarrow> (nat \<Rightarrow> round_env) \<Rightarrow> nat \<Rightarrow> Logger \<Rightarrow> Logger option" where
  "workerLoop 0 envs k lg = None"
| "workerLoop (Suc fuel) envs k lg =
     (if lg_line_queue lg = [] then (if lg_worker_running lg then None else Some (lg\<lparr>lg_exited := True\<rparr>))
      else workerLoop fuel envs (Suc k) (worker_round (envs k) lg))"

definition stopWorker :: "nat \<Rightarrow> (nat \<Rightarrow> round_env) \<Rightarrow> Logger \<Rightarrow> Logger option" where
  "stopWorker fuel envs lg =
     (if lg_worker_stopped lg then Some lg
      else let lg1 = stop_region lg
        in if lg_logging_enabled lg1 then workerLoop fuel envs 0 lg1 else Some lg1)"

section \<open>Interleavings\<close>

datatype logger_input =
    In_log LogLevel string string | In_take string | In_write write_env | In_done | In_stop

fun logger_step :: "logger_input \<Rightarrow> Logger \<Rightarrow> Logger" where
  "logger_step (In_log level timestamp msg) lg = Logger_log level timestamp msg lg"
| "logger_step (In_take timestamp) lg = worker_take timestamp lg"
| "logger_step (In_write env) lg = worker_write env lg"
| "logger_step In_done lg = worker_done lg"
| "logger_step In_stop lg = stop_region lg"

text \<open>The line that an input queues, and the line and drops that it hands to the worker.\<close>

fun line_put :: "logger_input \<Rightarrow> Logger \<Rightarrow> string option" where
  "line_put (In_log level timestamp msg) lg =
     (if lg_logging_enabled lg \<and> level \<le> lg_level lg then Some (log_text level timestamp msg) else None)"
| "line_put _ lg = None"

fun line_got :: "logger_input \<Rightarrow> Logger \<Rightarrow> (string \<times> nat) option" where
  "line_got (In_take timestamp) lg =
     (if worker_idle lg then (case lg_line_queue lg of [] \<Rightarrow> None | line # _ \<Rightarrow> Some (line, lg_dropped_lines lg)) else None)"
| "line_got _ lg = None"


section \<open>What a step leaves alone\<close>

lemma complain_fields [simp]:
  "lg_line_queue (complain x lg) = lg_line_queue lg" "lg_dropped_lines (complain x lg) = lg_dropped_lines lg"
  "lg_max_queued_lines (complain x lg) = lg_max_queued_lines lg" "lg_busy (complain x lg) = lg_busy lg"
  "lg_worker_running (complain x lg) = lg_worker_running lg" "lg_worker_stopped (complain x lg) = lg_worker_stopped lg"
  "lg_exited (complain x lg) = lg_exited lg" "lg_hand (complain x lg) = lg_hand lg" "lg_handed (complain x lg) = lg_handed lg"
  "lg_logging_enabled (complain x lg) = lg_logging_enabled lg" "lg_level (complain x lg) = lg_level lg"
  "lg_max_log_bytes (complain x lg) = lg_max_log_bytes lg" "lg_log_path (complain x lg) = lg_log_path lg"
  "lg_files (complain x lg) = lg_files lg" "lg_file_open (complain x lg) = lg_file_open lg"
  "lg_bytes_written (complain x lg) = lg_bytes_written lg" "lg_write_failed (complain x lg) = lg_write_failed lg"
  by (simp_all add: complain_def)

lemma openFresh_fields [simp]:
  "lg_line_queue (openFresh os lg) = lg_line_queue lg" "lg_dropped_lines (openFresh os lg) = lg_dropped_lines lg"
  "lg_max_queued_lines (openFresh os lg) = lg_max_queued_lines lg" "lg_busy (openFresh os lg) = lg_busy lg"
  "lg_worker_running (openFresh os lg) = lg_worker_running lg" "lg_worker_stopped (openFresh os lg) = lg_worker_stopped lg"
  "lg_exited (openFresh os lg) = lg_exited lg" "lg_hand (openFresh os lg) = lg_hand lg" "lg_handed (openFresh os lg) = lg_handed lg"
  "lg_logging_enabled (openFresh os lg) = lg_logging_enabled lg" "lg_level (openFresh os lg) = lg_level lg"
  "lg_max_log_bytes (openFresh os lg) = lg_max_log_bytes lg" "lg_log_path (openFresh os lg) = lg_log_path lg"
  "lg_file_open (openFresh os lg) = lo_open os"
  by (simp_all add: openFresh_def Let_def)

lemma writeLine_fields [simp]:
  "lg_line_queue (writeLine env line lg) = lg_line_queue lg" "lg_dropped_lines (writeLine env line lg) = lg_dropped_lines lg"
  "lg_max_queued_lines (writeLine env line lg) = lg_max_queued_lines lg" "lg_busy (writeLine env line lg) = lg_busy lg"
  "lg_worker_running (writeLine env line lg) = lg_worker_running lg"
  "lg_worker_stopped (writeLine env line lg) = lg_worker_stopped lg"
  "lg_exited (writeLine env line lg) = lg_exited lg" "lg_hand (writeLine env line lg) = lg_hand lg"
  "lg_handed (writeLine env line lg) = lg_handed lg" "lg_logging_enabled (writeLine env line lg) = lg_logging_enabled lg"
  "lg_level (writeLine env line lg) = lg_level lg" "lg_max_log_bytes (writeLine env line lg) = lg_max_log_bytes lg"
  "lg_log_path (writeLine env line lg) = lg_log_path lg"
  by (simp_all add: writeLine_def Let_def)

section \<open>The queue of lines\<close>

interpretation log_buffer: drop_oldest logger_step line_put line_got lg_line_queue lg_dropped_lines
    lg_max_queued_lines "\<lambda>lg. 1 \<le> lg_max_queued_lines lg"
proof unfold_locales
  fix lg :: Logger and i x n
  show "1 \<le> lg_max_queued_lines lg" if "1 \<le> lg_max_queued_lines lg" using that .
  show m: "lg_max_queued_lines (logger_step i lg) = lg_max_queued_lines lg" for i and lg :: Logger
    by (cases i) (auto simp: Logger_log_def worker_take_def worker_write_def worker_done_def stop_region_def Let_def split: list.splits)
  show "1 \<le> lg_max_queued_lines (logger_step i lg)" if "1 \<le> lg_max_queued_lines lg" using that m by simp
  { assume "1 \<le> lg_max_queued_lines lg" "line_put i lg = Some x"
    then show "line_got i lg = None \<and>
        lg_line_queue (logger_step i lg) =
          (if lg_max_queued_lines lg \<le> length (lg_line_queue lg) then tl (lg_line_queue lg) else lg_line_queue lg) @ [x] \<and>
        lg_dropped_lines (logger_step i lg) =
          lg_dropped_lines lg + (if lg_max_queued_lines lg \<le> length (lg_line_queue lg) then 1 else 0)"
      by (cases i) (auto simp: Logger_log_def Let_def split: if_splits)
  next
    assume "1 \<le> lg_max_queued_lines lg" "line_got i lg = Some (x, n)"
    then show "line_put i lg = None \<and> lg_line_queue lg = x # lg_line_queue (logger_step i lg) \<and>
        n = lg_dropped_lines lg \<and> lg_dropped_lines (logger_step i lg) = 0"
      by (cases i) (auto simp: worker_take_def split: if_splits list.splits)
  next
    assume "1 \<le> lg_max_queued_lines lg" "line_put i lg = None" "line_got i lg = None"
    then show "lg_line_queue (logger_step i lg) = lg_line_queue lg \<and> lg_dropped_lines (logger_step i lg) = lg_dropped_lines lg"
      by (cases i) (auto simp: Logger_log_def worker_take_def worker_write_def worker_done_def stop_region_def
          split: if_splits list.splits)
  }
qed

text \<open>The lines that a history queues; the lines that it hands to the worker with the drops claimed; what the worker has to write.\<close>

fun lines_logged :: "logger_input list \<Rightarrow> Logger \<Rightarrow> string list" where
  "lines_logged [] lg = []"
| "lines_logged (i # is) lg =
     (case line_put i lg of Some x \<Rightarrow> [x] | None \<Rightarrow> []) @ lines_logged is (logger_step i lg)"

fun lines_taken :: "logger_input list \<Rightarrow> Logger \<Rightarrow> (string \<times> nat) list" where
  "lines_taken [] lg = []"
| "lines_taken (i # is) lg =
     (case line_got i lg of Some xn \<Rightarrow> [xn] | None \<Rightarrow> []) @ lines_taken is (logger_step i lg)"

lemma lines_buffer: "lines_logged = log_buffer.puts" "lines_taken = log_buffer.gots"
proof -
  have "lines_logged is lg = log_buffer.puts is lg" "lines_taken is lg = log_buffer.gots is lg" for "is" lg
    by (induction "is" arbitrary: lg) simp_all
  then show "lines_logged = log_buffer.puts" "lines_taken = log_buffer.gots" by blast+
qed

lemma Logger_new_fields [simp]:
  "lg_line_queue (Logger_new os fs dir level mb mq) = []" "lg_dropped_lines (Logger_new os fs dir level mb mq) = 0"
  "lg_max_queued_lines (Logger_new os fs dir level mb mq) = (if mq > 0 then mq else 1)"
  "lg_busy (Logger_new os fs dir level mb mq) = False" "lg_hand (Logger_new os fs dir level mb mq) = []"
  "lg_handed (Logger_new os fs dir level mb mq) = []"
  by (simp_all add: Logger_new_def Let_def)

text \<open>Between rounds the worker has nothing in hand.\<close>

definition hand_inv :: "Logger \<Rightarrow> bool" where
  "hand_inv lg \<longleftrightarrow> lg_busy lg \<or> lg_hand lg = []"

lemma hand_inv_step: "hand_inv lg \<Longrightarrow> hand_inv (logger_step i lg)"
  by (cases i) (auto simp: hand_inv_def Logger_log_def worker_take_def worker_write_def worker_done_def
      stop_region_def Let_def split: list.splits)

text \<open>What is written for a line and the drops claimed with it.\<close>

fun writes_for :: "logger_input \<Rightarrow> Logger \<Rightarrow> string list" where
  "writes_for (In_take timestamp) lg =
     (case line_got (In_take timestamp) lg of
        None \<Rightarrow> []
      | Some (line, n) \<Rightarrow> (if n > 0 then [drop_marker timestamp n] else []) @ [line])"
| "writes_for _ lg = []"

fun lines_to_write :: "logger_input list \<Rightarrow> Logger \<Rightarrow> string list" where
  "lines_to_write [] lg = []"
| "lines_to_write (i # is) lg = writes_for i lg @ lines_to_write is (logger_step i lg)"

lemma handed_step:
  "hand_inv lg \<Longrightarrow> lg_handed (logger_step i lg) @ lg_hand (logger_step i lg) = lg_handed lg @ lg_hand lg @ writes_for i lg"
  by (cases i) (auto simp: hand_inv_def Logger_log_def worker_take_def worker_write_def worker_done_def worker_idle_def
      stop_region_def Let_def split: list.splits)

lemma handed_fold:
  "hand_inv lg \<Longrightarrow> lg_handed (fold logger_step is lg) @ lg_hand (fold logger_step is lg) =
     lg_handed lg @ lg_hand lg @ lines_to_write is lg"
proof (induction "is" arbitrary: lg)
  case (Cons i "is")
  then show ?case using Cons.IH [OF hand_inv_step [OF Cons.prems, of i]] handed_step [OF Cons.prems, of i] by simp
qed simp

text \<open>C35: under every interleaving of the producers with the worker the queue never exceeds its bound; the lines that were handed to the worker and those still queued are logged lines in the order they were logged; every line that is neither is counted by a drop marker written before the next line, or by the counter that the next marker will report.\<close>

theorem log_lines_conserved:
  fixes os fs dir level mb mq
  defines "lg \<equiv> Logger_new os fs dir level mb mq"
  shows "length (lg_line_queue (fold logger_step is lg)) \<le> max 1 mq \<and>
    subseq (map fst (lines_taken is lg) @ lg_line_queue (fold logger_step is lg)) (lines_logged is lg) \<and>
    length (lines_logged is lg) = length (lines_taken is lg) + sum_list (map snd (lines_taken is lg)) +
      length (lg_line_queue (fold logger_step is lg)) + lg_dropped_lines (fold logger_step is lg) \<and>
    lg_handed (fold logger_step is lg) @ lg_hand (fold logger_step is lg) = lines_to_write is lg"
proof (intro conjI)
  have c: "1 \<le> lg_max_queued_lines lg" by (simp add: lg_def)
  have "lg_max_queued_lines lg = max 1 mq" by (simp add: lg_def)
  then show "length (lg_line_queue (fold logger_step is lg)) \<le> max 1 mq"
    using log_buffer.never_over [OF c, of "is"] by (simp add: lg_def)
  show "subseq (map fst (lines_taken is lg) @ lg_line_queue (fold logger_step is lg)) (lines_logged is lg)"
    using log_buffer.taken_in_order [OF c, of "is"] by (simp add: lines_buffer lg_def)
  show "length (lines_logged is lg) = length (lines_taken is lg) + sum_list (map snd (lines_taken is lg)) +
      length (lg_line_queue (fold logger_step is lg)) + lg_dropped_lines (fold logger_step is lg)"
    using log_buffer.all_accounted [OF c, of "is"] by (simp add: lines_buffer lg_def)
  show "lg_handed (fold logger_step is lg) @ lg_hand (fold logger_step is lg) = lines_to_write is lg"
    using handed_fold [of lg "is"] by (simp add: hand_inv_def lg_def)
qed


definition sample_os :: log_os where
  "sample_os = \<lparr>lo_mkdir = True, lo_open = True, lo_rename = (\<lambda>_ _. True)\<rparr>"

definition sample_logger :: Logger where
  "sample_logger = Logger_new sample_os Map.empty ''/log'' log_info 1000 2"

section \<open>Shutdown\<close>

definition between_rounds :: "Logger \<Rightarrow> bool" where
  "between_rounds lg \<longleftrightarrow> worker_idle lg \<and> lg_hand lg = []"

definition marker_for :: "string \<Rightarrow> nat \<Rightarrow> string list" where
  "marker_for timestamp dropped = (if dropped > 0 then [drop_marker timestamp dropped] else [])"

lemma worker_round_effect:
  assumes "between_rounds lg" and "lg_line_queue lg = line # rest"
  shows "between_rounds (worker_round env lg)" "lg_line_queue (worker_round env lg) = rest"
    "lg_dropped_lines (worker_round env lg) = 0" "lg_worker_running (worker_round env lg) = lg_worker_running lg"
    "lg_handed (worker_round env lg) = lg_handed lg @ marker_for (re_timestamp env) (lg_dropped_lines lg) @ [line]"
  using assms
  by (simp_all add: worker_round_def worker_take_def worker_write_def worker_done_def between_rounds_def worker_idle_def
      marker_for_def Let_def)

lemma workerLoop_drains:
  assumes "between_rounds lg" and "\<not> lg_worker_running lg" and "length (lg_line_queue lg) < fuel"
  shows "\<exists>lg'. workerLoop fuel envs k lg = Some lg' \<and> lg_exited lg' \<and> lg_line_queue lg' = [] \<and> \<not> lg_busy lg' \<and>
    lg_handed lg' = lg_handed lg @
      (if lg_line_queue lg = [] then [] else marker_for (re_timestamp (envs k)) (lg_dropped_lines lg)) @ lg_line_queue lg"
  using assms
proof (induction fuel arbitrary: lg k)
  case (Suc fuel)
  show ?case
  proof (cases "lg_line_queue lg")
    case Nil
    then show ?thesis using Suc.prems by (simp add: between_rounds_def worker_idle_def)
  next
    case (Cons line rest)
    note r = worker_round_effect [OF Suc.prems(1) Cons, of "envs k"]
    have "length (lg_line_queue (worker_round (envs k) lg)) < fuel" using Suc.prems(3) Cons r(2) by simp
    from Suc.IH [OF r(1) _ this, of "Suc k"] Suc.prems(2) r(4) obtain lg' where
      l: "workerLoop fuel envs (Suc k) (worker_round (envs k) lg) = Some lg'" "lg_exited lg'" "lg_line_queue lg' = []"
        "\<not> lg_busy lg'" "lg_handed lg' = lg_handed (worker_round (envs k) lg) @
          (if rest = [] then [] else marker_for (re_timestamp (envs (Suc k))) 0) @ rest"
      unfolding r(2,3) by metis
    then show ?thesis using Cons r(5) by (simp add: marker_for_def)
  qed
qed simp

text \<open>C36: stopping the log always returns, after at most one round of the worker for each queued line, and by then every queued line has been passed to the writer, in order, after the marker for any drops; this holds whether the writes succeed, fail or rotate the file.\<close>

theorem stopWorker_drains_log:
  assumes "between_rounds lg" and "\<not> lg_worker_stopped lg" and "length (lg_line_queue lg) < fuel"
  shows "\<exists>lg'. stopWorker fuel envs lg = Some lg' \<and> lg_exited lg' \<and> Logger_flush_ready lg' \<and>
    lg_handed lg' = lg_handed lg @
      (if lg_line_queue lg = [] then [] else marker_for (re_timestamp (envs 0)) (lg_dropped_lines lg)) @ lg_line_queue lg"
proof -
  have "between_rounds (stop_region lg)" "\<not> lg_worker_running (stop_region lg)"
    "lg_line_queue (stop_region lg) = lg_line_queue lg" "lg_dropped_lines (stop_region lg) = lg_dropped_lines lg"
    "lg_handed (stop_region lg) = lg_handed lg" "lg_logging_enabled (stop_region lg)"
    using assms(1,2) by (simp_all add: stop_region_def between_rounds_def worker_idle_def)
  then show ?thesis
    using workerLoop_drains [of "stop_region lg" fuel envs 0] assms(2,3)
    by (auto simp: stopWorker_def Logger_flush_ready_def)
qed

definition failing_round :: round_env where
  "failing_round = \<lparr>re_timestamp = ''T'', re_marker = \<lparr>we_ok = False, we_partial = 0, we_os = sample_os\<rparr>,
     re_line = \<lparr>we_ok = False, we_partial = 3, we_os = sample_os\<rparr>\<rparr>"

text \<open>Three lines into a queue of two, on a disk that accepts no write.\<close>

definition sample_backlog :: Logger where
  "sample_backlog = fold (\<lambda>m. Logger_log log_info ''t'' m) [''a'', ''b'', ''c''] sample_logger"

lemma sample_backlog_fields:
  "lg_line_queue sample_backlog = [log_text log_info ''t'' ''b'', log_text log_info ''t'' ''c'']"
  "lg_dropped_lines sample_backlog = 1" "lg_handed sample_backlog = []" "between_rounds sample_backlog"
  "\<not> lg_worker_stopped sample_backlog"
  by (simp_all add: sample_backlog_def sample_logger_def Logger_new_def sample_os_def Logger_log_def Let_def
      between_rounds_def worker_idle_def openFresh_def less_LogLevel_def)

theorem stopWorker_drains_log_witness:
  "\<exists>lg'. stopWorker 3 (\<lambda>_. failing_round) sample_backlog = Some lg' \<and> Logger_flush_ready lg' \<and>
     lg_handed lg' = [drop_marker ''T'' 1, log_text log_info ''t'' ''b'', log_text log_info ''t'' ''c'']"
  using stopWorker_drains_log [of sample_backlog 3 "\<lambda>_. failing_round"]
  by (auto simp: sample_backlog_fields marker_for_def failing_round_def)

section \<open>Writes that fail\<close>

fun write_fails :: "logger_input \<Rightarrow> bool" where
  "write_fails (In_write env) \<longleftrightarrow> \<not> we_ok env"
| "write_fails _ \<longleftrightarrow> True"

text \<open>What the files other than the current one hold.\<close>

definition history :: "Logger \<Rightarrow> file_system" where
  "history lg = (lg_files lg)(lg_log_path lg := None)"

definition same_history :: "Logger \<Rightarrow> Logger \<Rightarrow> bool" where
  "same_history lg lg' \<longleftrightarrow> history lg' = history lg \<and> lg_bytes_written lg' = lg_bytes_written lg \<and>
     lg_log_path lg' = lg_log_path lg \<and> lg_file_open lg' = lg_file_open lg \<and>
     length (lg_cerr lg') + (if lg_write_failed lg then 1 else 0) =
       length (lg_cerr lg) + (if lg_write_failed lg' then 1 else 0) \<and> (lg_write_failed lg \<longrightarrow> lg_write_failed lg')"

lemma same_history_step: "write_fails i \<Longrightarrow> same_history lg (logger_step i lg)"
proof (cases i)
  case (In_write env)
  assume "write_fails i"
  then show ?thesis
    using In_write
    by (auto simp: same_history_def history_def worker_write_def writeLine_def next_rotation_state_def append_file_def
        complain_def Let_def split: list.split)
qed (auto simp: same_history_def history_def Logger_log_def worker_take_def worker_done_def stop_region_def Let_def
    split: list.split)

lemma same_history_trans: "same_history a b \<Longrightarrow> same_history b c \<Longrightarrow> same_history a c"
  by (auto simp: same_history_def)

text \<open>C37: as long as no write succeeds, nothing the logger does rotates the files: the kept logs and the byte count stay as they were, whatever is logged, taken or flushed, and the operator is told once, not once a line.\<close>

theorem failed_writes_keep_history:
  assumes "list_all write_fails is"
  shows "same_history lg (fold logger_step is lg)"
  using assms
proof (induction "is" arbitrary: lg)
  case (Cons i "is")
  then show ?case using same_history_trans [OF same_history_step [of i lg]] by simp
qed (simp add: same_history_def)

theorem failed_writes_keep_history_witness:
  "same_history sample_backlog (fold logger_step
     [In_take ''T'', In_write (re_marker failing_round), In_write (re_line failing_round), In_done, In_log log_error ''u'' ''d''] sample_backlog)"
  by (rule failed_writes_keep_history) (simp add: failing_round_def)

section \<open>Rotation\<close>

lemma numbered_inject [simp]: "numbered base i = numbered base j \<longleftrightarrow> i = j" "numbered base i \<noteq> base" "base \<noteq> numbered base i"
  by (simp_all add: numbered_def)

lemma numbered_one: "base @ ''.1'' = numbered base 1"
proof -
  have "CHR ''1'' = char_of (49 :: nat)" by code_simp
  then show ?thesis by (simp add: numbered_def to_string_nat.simps)
qed

lemma rename_present:
  "lo_rename os src dst \<Longrightarrow> src \<noteq> dst \<Longrightarrow> rename_if_exists os src dst fs p =
     (if p = src then None else if p = dst \<and> fs src \<noteq> None then fs src else fs p)"
  by (auto simp: rename_if_exists_def)

text \<open>Every numbered file moves up by one; only the file that the last one replaces is lost.\<close>

lemma rotate_numbered_effect:
  assumes ok: "\<And>a b. lo_rename os a b"
  shows "rotate_numbered os base n fs (numbered base k) =
    (if k = 1 \<and> 1 \<le> n then None
     else if 2 \<le> k \<and> k \<le> n then fs (numbered base (k - 1))
     else if k = Suc n \<and> 1 \<le> n \<and> fs (numbered base n) \<noteq> None then fs (numbered base n)
     else fs (numbered base k))"
proof (induction n arbitrary: fs)
  case (Suc n)
  show ?case
    unfolding rotate_numbered.simps Suc.IH
    by (auto simp: rename_present [OF ok] le_Suc_eq)
qed simp

lemma rotate_numbered_others:
  assumes ok: "\<And>a b. lo_rename os a b" and "\<And>k. p \<noteq> numbered base k"
  shows "rotate_numbered os base n fs p = fs p"
  by (induction n arbitrary: fs) (simp_all add: rename_present [OF ok] assms(2))

text \<open>When the renames succeed, a rotation frees the name of the current log and keeps it and the numbered logs, each one number higher; only the oldest, number 5, is lost, and only when number 4 exists to replace it.\<close>

lemma rotation_loses_only_oldest:
  assumes ok: "\<And>a b. lo_rename os a b"
  shows "Logger_rotate os base max_rotations fs base = None \<and>
    Logger_rotate os base max_rotations fs (numbered base 1) = fs base \<and>
    Logger_rotate os base max_rotations fs (numbered base 2) = fs (numbered base 1) \<and>
    Logger_rotate os base max_rotations fs (numbered base 3) = fs (numbered base 2) \<and>
    Logger_rotate os base max_rotations fs (numbered base 4) = fs (numbered base 3) \<and>
    Logger_rotate os base max_rotations fs (numbered base 5) =
      (if fs (numbered base 4) = None then fs (numbered base 5) else fs (numbered base 4))"
proof -
  have b: "rotate_numbered os base n fs base = fs base" for n by (rule rotate_numbered_others [OF ok]) simp
  show ?thesis
    by (simp add: Logger_rotate_def max_rotations_def numbered_one rename_present [OF ok] b rotate_numbered_effect [OF ok])
qed

lemma rotation_loses_only_oldest_witness:
  "Logger_rotate sample_os ''fmu.log'' max_rotations [''fmu.log'' \<mapsto> ''new'', numbered ''fmu.log'' 4 \<mapsto> ''old''] (numbered ''fmu.log'' 5) = Some ''old''"
  using rotation_loses_only_oldest [of sample_os "''fmu.log''" "[''fmu.log'' \<mapsto> ''new'', numbered ''fmu.log'' 4 \<mapsto> ''old'']"]
  by (simp add: sample_os_def)

text \<open>
  A file that could not be reopened after a rotation stays closed: every later line is taken
  from the queue and lost without a word.
\<close>

lemma closed_file_stays_closed:
  "\<not> lg_file_open lg \<Longrightarrow> \<not> lg_file_open (logger_step i lg) \<and> lg_files (logger_step i lg) = lg_files lg \<and>
     lg_cerr (logger_step i lg) = lg_cerr lg"
  by (cases i) (auto simp: Logger_log_def worker_take_def worker_write_def writeLine_def worker_done_def stop_region_def
      Let_def split: list.split)

text \<open>A log that could not be set up queues nothing, so waiting for it returns at once.\<close>

lemma disabled_log_idle:
  "\<not> lg_logging_enabled lg \<Longrightarrow> Logger_flush_ready lg \<Longrightarrow> hand_inv lg \<Longrightarrow>
     \<not> lg_logging_enabled (logger_step i lg) \<and> Logger_flush_ready (logger_step i lg) \<and> hand_inv (logger_step i lg)"
  by (cases i) (auto simp: Logger_flush_ready_def hand_inv_def Logger_log_def worker_take_def worker_idle_def
      worker_write_def worker_done_def stop_region_def split: list.splits)

text \<open>Only successful writes count towards the size at which the file is rotated.\<close>

definition counted :: "Logger \<Rightarrow> bool" where
  "counted lg \<longleftrightarrow> (lg_file_open lg \<longrightarrow> lg_bytes_written lg < lg_max_log_bytes lg)"

lemma counted_write: "counted lg \<Longrightarrow> 0 < lg_max_log_bytes lg \<Longrightarrow> counted (writeLine env line lg)"
  by (auto simp: counted_def writeLine_def next_rotation_state_def openFresh_def complain_def Let_def)

end
