(* ===== verification/Spec2Isabelle.thy ===== *)
theory Spec2Isabelle
  imports Mav_Mission Mav_Restart Mav_Envelope Mav_Dial App_Refinement Fss Fmu_Logger
begin

text \<open>
  A model of the flight management unit of \<open>src/\<close>, the program \<open>cap-fmu\<close> that runs on
  the companion computer of an aircraft and connects three parties: the flight server (FSS),
  which sends commands and receives reports; the search server (SMM), which assigns search
  missions; and the autopilot, which is reached over MAVLink.

  \<^bold>\<open>How the program is put together.\<close> \<open>src/main.cpp\<close> reads the options and the
  configuration and builds an \<open>App\<close>. Threads of the components report through callbacks,
  which enqueue events; one event loop takes them and hands them to \<open>EventDispatcher\<close>, which
  feeds the state machine \<open>FMUStateMachine\<close>, the reporter and the search worker. The state
  machine arbitrates between the operator's command, the search server and the latches for
  battery, communication and altitude, and acts on the autopilot and the search worker. Each
  component has its own worker or receive thread and its own mutexes; a critical region is one
  step of a model here, and the orders in which steps of different threads can happen are lists
  of inputs, over which the theorems quantify.

  \<^bold>\<open>The theories.\<close>

  \<^item> \<open>FMU_Prelude\<close>: the word types, bounded queues, and the locale of a rate limit; lemmas on
    words, lists and multisets that the components share.
  \<^item> \<open>Binary64\<close>: \<open>double\<close> as rationals with infinities and NaN, rounding to nearest even,
    and the conversions to integers, which are undefined (\<open>None\<close>) out of range.
  \<^item> \<open>Core_Types\<close>: \<open>src/fmu-core-types.hpp\<close>, \<open>src/fmu-state-types.hpp\<close>,
    \<open>src/fss/fmu-fss-types.hpp\<close>, \<open>src/smm/smm-command.hpp\<close>: points, positions, commands,
    states and their names.
  \<^item> \<open>Units\<close>: \<open>src/altitude-units.hpp\<close>, \<open>src/altitude-cap.hpp\<close>,
    \<open>src/smm/search-altitude.hpp\<close>, \<open>src/mav/latlon-encoding.hpp\<close>,
    \<open>src/mav/battery-voltage.hpp\<close>, \<open>src/mav/velocity.hpp\<close>: every conversion is defined,
    clamps end in their range, round trips with their exact loss.
  \<^item> \<open>State_Machine\<close>: \<open>src/fmu.hpp\<close> and \<open>src/fmu.cpp\<close>. The machine refines a
    specification that reads the state off the history of inputs; terminate and low battery are
    final; what each step calls; the exact resolution of a command.
  \<^item> \<open>Dispatcher\<close>: \<open>src/event.hpp\<close>, \<open>src/event-dispatcher.hpp\<close> and
    \<open>src/event-dispatcher.cpp\<close>. The gates of each event, the rate limit of forwarded
    traffic, and that pruning its table changes no decision.
  \<^item> \<open>Aircraft\<close>: \<open>src/aircraft.hpp\<close>. The debounce accepts exactly what a table without
    eviction would; synthetic addresses are in range and not shared.
  \<^item> \<open>Ack_Group\<close>: \<open>src/fss/command-ack-group.hpp\<close>. Every copy of a command is
    acknowledged exactly once; a redelivery is not actuated until another command or a retry
    is; the replay that reopens a group.
  \<^item> \<open>Fss_Client\<close>, \<open>Work_Queue\<close>, \<open>Fss\<close>: \<open>src/fss/fss-client-ssl.cpp\<close>,
    \<open>src/fss/command-ack.hpp\<close>, \<open>src/fss/fss.cpp\<close>, \<open>src/fss/internal.hpp\<close>. Which
    messages reach the state machine, the acknowledgements of each over connections that come
    and go, the reporter's queue, which leaves out only positions that a newer one supersedes,
    and its drain at shutdown.
  \<^item> \<open>Smm_Worker\<close>: \<open>src/smm/smm.cpp\<close>, \<open>src/smm/smm.hpp\<close>, \<open>src/smm/smm-types.hpp\<close>,
    \<open>src/smm/search-acquire.hpp\<close>. The worker thread is a program counter that stops before
    each access to state shared with the event loop: its queue, the search it holds and the
    count it publishes, the altitude it derives, that a role that was revoked, also in the
    middle of a task, commits nothing, and that every task ends.
  \<^item> \<open>Mission_Plan\<close>: \<open>src/mav/mission-plan.hpp\<close>. The items of an uploaded mission.
  \<^item> \<open>Mav_Modes\<close>, \<open>Mav_Link\<close>, \<open>Mav_Connection\<close>, \<open>Mav_Session\<close>: the autopilot side,
    \<open>src/mav/mode-resolve.hpp\<close>, \<open>src/mav/failsafe-params.hpp\<close>, \<open>src/mav/mav-sys.cpp\<close>,
    \<open>src/mav/mav-comms.hpp\<close>, \<open>src/mav/mavlink.cpp\<close>, \<open>src/mav/internal.hpp\<close>,
    \<open>src/mav/mav.cpp\<close>: what is known of the vehicle, the decisions about the link, sending,
    mode commands, the upload and its acknowledgement, the received messages, the heartbeat
    pass, the reconnector and the facade.
  \<^item> \<open>Mav_Dial\<close>: \<open>src/mav/addr-resolve.hpp\<close> and the dial of \<open>src/mav/mavlink.cpp\<close> down
    to its system calls. No socket is leaked, no wait exceeds its deadline, and the dial of
    \<open>Mav_Session\<close> is what it amounts to.
  \<^item> \<open>Mav_Upload\<close>, \<open>Mav_Mission\<close>, \<open>Mav_Restart\<close>: the theorems on uploads (from its
    critical region on a takeover keeps control, with the two windows it leaves; no null search
    is read; a whole upload session), on silence and on restarts.
  \<^item> \<open>Mav_Trace\<close>: runs of the autopilot side under all its callers, and the locale of a
    discipline on its outputs; \<open>Mav_Supervision\<close> (the reports of the link alternate, dials are
    spaced) and \<open>Mav_Envelope\<close> (no message commands an altitude outside floor and cap, from
    the configuration file to the wire) are its two interpretations.
  \<^item> \<open>Fmu_Config\<close>: \<open>src/fmu-config.hpp\<close> and \<open>src/fmu-config.cpp\<close>. What loads is in
    range; exactly which files stop the program.
  \<^item> \<open>Drop_Oldest\<close>, \<open>Fmu_Logger\<close>: \<open>src/logger.hpp\<close>, \<open>src/logger.cpp\<close>,
    \<open>src/log-rotation.hpp\<close>. Lines are conserved, stopping drains, failed writes rotate
    nothing.
  \<^item> \<open>Fmu_Main\<close>, \<open>App_Loop\<close>: \<open>src/main.cpp\<close>. When the application starts and with
    what; the event loop, the signal thread and the reconnector with their condition variables:
    order of events, no lost wakeup, shutdown with the producers still reporting.
  \<^item> \<open>App_Refinement\<close>: these composed: the state of the running program and the calls it makes
    are what the specification of the state machine gives for the events dispatched, with the
    thresholds of the configuration file.

  \<^bold>\<open>Conventions.\<close> Machine integers are words of their width and wrap; \<open>int\<close> stands for a
  C++ \<open>int\<close> where the code bounds it. An undefined conversion, an exception and an error
  return are values (\<open>None\<close>, \<open>Inl\<close>). What lies outside \<open>src/\<close> is an argument: the
  clock, the sockets, the MAVLink constants, the JSON library, the search library, the file
  system, the trigonometric functions. What a component does to the outside is a list of
  outputs, the newest last.

  \<^bold>\<open>Bounds.\<close> The worker loops of the reporter and the log run on fuel; the drain theorems
  show that one round for each queued item and one more is enough. All other loops end by a
  measure: the send loop by the bytes left, the tasks of the search worker by the steps left to
  its wait (28 at most, with three attempts at an acquire), the receive loop and the wait of a
  connect by the script of what the system returns. The shutdown of the application is bounded
  by a rank of its state and the reports that still come.

  \<^bold>\<open>Not modelled.\<close> The byte format of MAVLink frames and of the FSS and SMM protocols, which
  third-party libraries encode; the SSL sessions and the reading of certificates; timestamps of
  log lines, which are an argument; the text of usage, help and most log messages, which are
  constructors; the order of destructors. The abstract
  interfaces \<open>src/mav/imav.hpp\<close>, \<open>src/smm/ismm.hpp\<close>, \<open>src/fss/ifss.hpp\<close> and
  \<open>src/ilogger.hpp\<close> are the output types of their callers. Tests, tools, packaging and
  documentation are not code of the program.
\<close>

end
